theory Spec2Isabelle
  imports Main "HOL-Library.Multiset"
begin

section \<open>Devices, commands and errors (interfaces/device.interface.ts, adapter.interface.ts)\<close>

text \<open>
  \<open>IDevice\<close>. The optional fields \<open>brightness?\<close> and \<open>color?\<close> are options; \<open>metadata\<close>
  is never read by the code modelled here and is left out. Numbers are modelled as
  integers (the device contract documents brightness as 0-100).
\<close>

record device =
  dev_id :: string
  dev_name :: string
  dev_type :: string
  dev_brand :: string
  dev_model :: string
  dev_address :: string
  dev_isOn :: bool
  dev_brightness :: "int option"
  dev_color :: "string option"
  dev_isReachable :: bool

datatype command_type = TurnOn | TurnOff | SetColor | SetBrightness | Custom

text \<open>\<open>ILightCommand.params\<close>: the two parameters the adapters read.\<close>

record command_params =
  p_color :: "string option"
  p_brightness :: "int option"

text \<open>\<open>ILightCommand\<close>.\<close>

record light_command =
  cmd_type :: command_type
  cmd_deviceId :: string
  cmd_params :: command_params

text \<open>
  The codes of \<open>AdapterError\<close>, and the errors the code throws: an \<open>AdapterError\<close> with
  its code and the cause it wraps, a rejected HTTP promise, a property read on a payload
  of the wrong shape, and the two plain \<open>Error\<close>s of the Light Manager.
\<close>

datatype error_code =
    INITIALIZATION_FAILED | API_ERROR | DEVICE_FETCH_FAILED | NOT_INITIALIZED
  | DEVICE_NOT_FOUND | INVALID_PARAMETER | UNSUPPORTED_COMMAND | COMMAND_FAILED
  | COMMAND_SEND_FAILED | COMMAND_EXECUTION_FAILED

datatype error =
    TransportError
  | TypeError
  | AdapterError error_code "error option"
  | DeviceNotFoundError string
  | NoAdapterError string

section \<open>The Govee adapter (govee/govee-adapter.ts)\<close>

subsection \<open>The vendor's HTTP interface\<close>

type_synonym rgb = "int \<times> int \<times> int"

text \<open>\<open>IGoveeDeviceInfo.properties\<close>; \<open>powerState\<close> is \<open>'on'\<close> (True) or \<open>'off'\<close>.\<close>

record properties =
  online :: bool
  powerState :: bool
  prop_brightness :: "int option"
  prop_color :: "rgb option"

record device_info =
  di_device :: string
  di_model :: string
  di_deviceName :: string
  di_controllable :: bool
  di_retrievable :: bool
  di_supportCmds :: "string list"
  di_properties :: properties

text \<open>The \<open>cmd\<close> object of a control request: \<open>{turn: 'on'|'off'}\<close>, \<open>{color: rgb}\<close>,
  \<open>{brightness: n}\<close>.\<close>

datatype vendor_cmd = Turn bool | Color rgb | Brightness int

text \<open>The three requests the adapter issues: \<open>GET /devices\<close>,
  \<open>PUT /devices/control {device, model, cmd}\<close>, \<open>GET /devices/state {device, model}\<close>.\<close>

datatype request =
    GetDevices
  | PutControl string string vendor_cmd
  | GetState string string

datatype payload = DevicesData "device_info list" | StateData properties | NoData

text \<open>An HTTP call either rejects (transport error, timeout, non-2xx status) or resolves
  with a body \<open>{code, message, data}\<close>.\<close>

datatype response = Rejected | Reply int payload

text \<open>
  \<open>BaseLightAdapter\<close> with the fields of \<open>GoveeAdapter\<close>: the initialisation flag, the
  device cache (a \<open>Map\<close> from device id), and the HTTP client. The vendor is outside the
  program: \<open>http\<close> answers a request from the vendor's state \<open>remote\<close>, and \<open>sent\<close> records
  every request issued, in order.
\<close>

record 'v govee_adapter =
  isInitialized :: bool
  devices :: "string \<rightharpoonup> device"
  http :: "request \<Rightarrow> 'v \<Rightarrow> response \<times> 'v"
  remote :: 'v
  sent :: "request list"

definition http_call :: "request \<Rightarrow> 'v govee_adapter \<Rightarrow> response \<times> 'v govee_adapter" where
  "http_call req a =
     (let (resp, v) = http a req (remote a)
      in (resp, a\<lparr>remote := v, sent := sent a @ [req]\<rparr>))"

subsection \<open>Colour conversion\<close>

text \<open>
  \<open>parseInt(s, 16)\<close>: leading white space is skipped, then an optional sign and an
  optional \<open>0x\<close> prefix; the value is that of the longest prefix of hexadecimal digits,
  and \<open>NaN\<close> (None) when there is none. Exact while the value stays below \<open>2^53\<close>
  (JavaScript rounds a longer one), and for strings whose white space is that of ASCII
  (tab, line feed, vertical tab, form feed, carriage return, space): the further
  white-space characters of ECMAScript, such as \<open>U+00A0\<close>, are not skipped here.
\<close>

definition hex_digit :: "char \<Rightarrow> int option" where
  "hex_digit c =
     (let k = (of_char c :: nat)
      in if 48 \<le> k \<and> k \<le> 57 then Some (int k - 48)
         else if 97 \<le> k \<and> k \<le> 102 then Some (int k - 87)
         else if 65 \<le> k \<and> k \<le> 70 then Some (int k - 55)
         else None)"

definition is_space :: "char \<Rightarrow> bool" where
  "is_space c = ((of_char c :: nat) \<in> {9, 10, 11, 12, 13, 32})"

fun hex_prefix :: "string \<Rightarrow> int option \<Rightarrow> int option" where
  "hex_prefix [] acc = acc"
| "hex_prefix (c # cs) acc =
     (case hex_digit c of
        None \<Rightarrow> acc
      | Some d \<Rightarrow> hex_prefix cs (Some ((case acc of None \<Rightarrow> 0 | Some n \<Rightarrow> n) * 16 + d)))"

definition strip_0x :: "string \<Rightarrow> string" where
  "strip_0x s =
     (case s of
        c # d # rest \<Rightarrow> if c = CHR ''0'' \<and> (d = CHR ''x'' \<or> d = CHR ''X'') then rest else s
      | _ \<Rightarrow> s)"

definition parseInt16 :: "string \<Rightarrow> int option" where
  "parseInt16 s =
     (let t = dropWhile is_space s;
          neg = (case t of c # _ \<Rightarrow> c = CHR ''-'' | [] \<Rightarrow> False);
          u = (case t of c # rest \<Rightarrow> if c = CHR ''-'' \<or> c = CHR ''+'' then rest else t | [] \<Rightarrow> t)
      in map_option (\<lambda>n. if neg then - n else n) (hex_prefix (strip_0x u) None))"

text \<open>\<open>hex.replace('#', '')\<close> removes the first \<open>#\<close> only.\<close>

fun remove_first_hash :: "string \<Rightarrow> string" where
  "remove_first_hash [] = []"
| "remove_first_hash (c # cs) = (if c = CHR ''#'' then cs else c # remove_first_hash cs)"

text \<open>\<open>(n >> 16) & 255\<close> and its siblings: on an integer, the shift after the 32-bit
  conversion and the mask select the same bits as division and remainder.\<close>

definition hexToRgb :: "string \<Rightarrow> rgb option" where
  "hexToRgb hex =
     (case parseInt16 (remove_first_hash hex) of
        None \<Rightarrow> None
      | Some n \<Rightarrow> Some ((n div 65536) mod 256, (n div 256) mod 256, n mod 256))"

text \<open>\<open>x << k\<close> on 32-bit integers, and \<open>Number.prototype.toString(16)\<close>.\<close>

definition shl32 :: "int \<Rightarrow> nat \<Rightarrow> int" where
  "shl32 x k = ((x * 2 ^ k + 2147483648) mod 4294967296) - 2147483648"

definition digit_char :: "nat \<Rightarrow> char" where
  "digit_char d = ''0123456789abcdef'' ! d"

fun hex_digits :: "nat \<Rightarrow> string" where
  "hex_digits n = (if n < 16 then [digit_char n] else hex_digits (n div 16) @ [digit_char (n mod 16)])"

definition toString16 :: "int \<Rightarrow> string" where
  "toString16 n = (if n < 0 then CHR ''-'' # hex_digits (nat (- n)) else hex_digits (nat n))"

definition rgbToHex :: "rgb \<Rightarrow> string" where
  "rgbToHex c =
     (case c of (r, g, b) \<Rightarrow>
        CHR ''#'' # drop 1 (toString16 (shl32 1 24 + shl32 r 16 + shl32 g 8 + b)))"

subsection \<open>The adapter's operations\<close>

text \<open>\<open>mapToDevice\<close>. The Govee-only fields of \<open>IGoveeDevice\<close> are never read again and
  are left out.\<close>

definition mapToDevice :: "device_info \<Rightarrow> device" where
  "mapToDevice di =
     \<lparr>dev_id = di_device di, dev_name = di_deviceName di, dev_type = ''light'',
      dev_brand = ''govee'', dev_model = di_model di, dev_address = di_device di,
      dev_isOn = powerState (di_properties di),
      dev_brightness = prop_brightness (di_properties di),
      dev_color = map_option rgbToHex (prop_color (di_properties di)),
      dev_isReachable = online (di_properties di)\<rparr>"

definition updateDeviceCache :: "device list \<Rightarrow> 'v govee_adapter \<Rightarrow> 'v govee_adapter" where
  "updateDeviceCache ds a = a\<lparr>devices := foldl (\<lambda>m d. m(dev_id d \<mapsto> d)) (devices a) ds\<rparr>"

text \<open>\<open>updateDevice(deviceId, updates)\<close>: the spread \<open>{...device, ...updates}\<close> is the
  function \<open>upd\<close> on the cached device; an unknown id is left alone.\<close>

definition updateDevice :: "string \<Rightarrow> (device \<Rightarrow> device) \<Rightarrow> 'v govee_adapter \<Rightarrow> 'v govee_adapter" where
  "updateDevice deviceId upd a =
     (case devices a deviceId of
        None \<Rightarrow> a
      | Some d \<Rightarrow> a\<lparr>devices := (devices a)(deviceId \<mapsto> upd d)\<rparr>)"

text \<open>\<open>getDevices\<close> has no initialisation check. Every failure inside its \<open>try\<close> is rethrown
  as \<open>DEVICE_FETCH_FAILED\<close>.\<close>

definition getDevices :: "'v govee_adapter \<Rightarrow> (error + device list) \<times> 'v govee_adapter" where
  "getDevices a =
     (let (resp, a1) = http_call GetDevices a
      in case resp of
           Rejected \<Rightarrow> (Inl (AdapterError DEVICE_FETCH_FAILED (Some TransportError)), a1)
         | Reply code body \<Rightarrow>
             if code \<noteq> 200
             then (Inl (AdapterError DEVICE_FETCH_FAILED (Some (AdapterError API_ERROR None))), a1)
             else (case body of
                     DevicesData infos \<Rightarrow>
                       (let ds = map mapToDevice infos in (Inr ds, updateDeviceCache ds a1))
                   | _ \<Rightarrow> (Inl (AdapterError DEVICE_FETCH_FAILED (Some TypeError)), a1)))"

definition getDevice :: "string \<Rightarrow> 'v govee_adapter \<Rightarrow> (error + device option) \<times> 'v govee_adapter" where
  "getDevice deviceId a =
     (if \<not> isInitialized a then (Inl (AdapterError NOT_INITIALIZED None), a)
      else case devices a deviceId of
             Some d \<Rightarrow> (Inr (Some d), a)
           | None \<Rightarrow>
               (case getDevices a of
                  (Inl e, a1) \<Rightarrow> (Inl (AdapterError DEVICE_FETCH_FAILED (Some e)), a1)
                | (Inr _, a1) \<Rightarrow> (Inr (devices a1 deviceId), a1)))"

definition initialize :: "'v govee_adapter \<Rightarrow> (error + unit) \<times> 'v govee_adapter" where
  "initialize a =
     (if isInitialized a then (Inr (), a)
      else case getDevices a of
             (Inl e, a1) \<Rightarrow> (Inl (AdapterError INITIALIZATION_FAILED (Some e)), a1)
           | (Inr _, a1) \<Rightarrow> (Inr (), a1\<lparr>isInitialized := True\<rparr>))"

text \<open>\<open>sendDeviceCommand\<close>: a rejected call and a body whose code is not 200 both leave
  through the \<open>catch\<close>, as \<open>COMMAND_SEND_FAILED\<close>.\<close>

definition sendDeviceCommand :: "device \<Rightarrow> vendor_cmd \<Rightarrow> 'v govee_adapter \<Rightarrow> (error + unit) \<times> 'v govee_adapter" where
  "sendDeviceCommand dev vc a =
     (let (resp, a1) = http_call (PutControl (dev_address dev) (dev_model dev) vc) a
      in case resp of
           Rejected \<Rightarrow> (Inl (AdapterError COMMAND_SEND_FAILED (Some TransportError)), a1)
         | Reply code _ \<Rightarrow>
             if code \<noteq> 200
             then (Inl (AdapterError COMMAND_SEND_FAILED (Some (AdapterError COMMAND_FAILED None))), a1)
             else (Inr (), a1))"

definition setPowerState :: "device \<Rightarrow> bool \<Rightarrow> 'v govee_adapter \<Rightarrow> (error + unit) \<times> 'v govee_adapter" where
  "setPowerState dev powerOn a =
     (case sendDeviceCommand dev (Turn powerOn) a of
        (Inl e, a1) \<Rightarrow> (Inl e, a1)
      | (Inr _, a1) \<Rightarrow> (Inr (), updateDevice (dev_id dev) (\<lambda>d. d\<lparr>dev_isOn := powerOn\<rparr>) a1))"

definition setColor :: "device \<Rightarrow> string \<Rightarrow> 'v govee_adapter \<Rightarrow> (error + unit) \<times> 'v govee_adapter" where
  "setColor dev hexColor a =
     (case hexToRgb hexColor of
        None \<Rightarrow> (Inl (AdapterError INVALID_PARAMETER None), a)
      | Some c \<Rightarrow>
          (case sendDeviceCommand dev (Color c) a of
             (Inl e, a1) \<Rightarrow> (Inl e, a1)
           | (Inr _, a1) \<Rightarrow>
               (Inr (), updateDevice (dev_id dev) (\<lambda>d. d\<lparr>dev_color := Some hexColor\<rparr>) a1)))"

definition setBrightness :: "device \<Rightarrow> int \<Rightarrow> 'v govee_adapter \<Rightarrow> (error + unit) \<times> 'v govee_adapter" where
  "setBrightness dev brightness a =
     (let clampedBrightness = max 0 (min 100 brightness)
      in case sendDeviceCommand dev (Brightness clampedBrightness) a of
           (Inl e, a1) \<Rightarrow> (Inl e, a1)
         | (Inr _, a1) \<Rightarrow>
             (Inr (), updateDevice (dev_id dev) (\<lambda>d. d\<lparr>dev_brightness := Some clampedBrightness\<rparr>) a1))"

text \<open>\<open>refreshDeviceState\<close> never throws: a rejected call, a code other than 200 and a
  body of the wrong shape leave the cache as it is.\<close>

definition refreshDeviceState :: "device \<Rightarrow> 'v govee_adapter \<Rightarrow> 'v govee_adapter" where
  "refreshDeviceState dev a =
     (let (resp, a1) = http_call (GetState (dev_address dev) (dev_model dev)) a
      in case resp of
           Reply code (StateData st) \<Rightarrow>
             if code = 200
             then updateDevice (dev_id dev)
                    (\<lambda>d. d\<lparr>dev_isOn := powerState st, dev_brightness := prop_brightness st,
                            dev_color := map_option rgbToHex (prop_color st)\<rparr>) a1
             else a1
         | _ \<Rightarrow> a1)"

text \<open>The \<open>switch\<close> of \<open>executeCommand\<close>. \<open>!command.params.color\<close> holds for an absent and
  for an empty colour.\<close>

definition runCommand :: "light_command \<Rightarrow> device \<Rightarrow> 'v govee_adapter \<Rightarrow> (error + unit) \<times> 'v govee_adapter" where
  "runCommand cmd dev a =
     (case cmd_type cmd of
        TurnOn \<Rightarrow> setPowerState dev True a
      | TurnOff \<Rightarrow> setPowerState dev False a
      | SetColor \<Rightarrow>
          (case p_color (cmd_params cmd) of
             None \<Rightarrow> (Inl (AdapterError INVALID_PARAMETER None), a)
           | Some c \<Rightarrow>
               if c = [] then (Inl (AdapterError INVALID_PARAMETER None), a) else setColor dev c a)
      | SetBrightness \<Rightarrow>
          (case p_brightness (cmd_params cmd) of
             None \<Rightarrow> (Inl (AdapterError INVALID_PARAMETER None), a)
           | Some b \<Rightarrow> setBrightness dev b a)
      | Custom \<Rightarrow> (Inl (AdapterError UNSUPPORTED_COMMAND None), a))"

text \<open>\<open>executeCommand\<close>: the two validations throw before the \<open>try\<close>; a failure inside it
  is rethrown as \<open>COMMAND_EXECUTION_FAILED\<close>; after a successful command the device's
  state is refreshed from the vendor.\<close>

definition executeCommand :: "light_command \<Rightarrow> 'v govee_adapter \<Rightarrow> (error + unit) \<times> 'v govee_adapter" where
  "executeCommand cmd a =
     (if \<not> isInitialized a then (Inl (AdapterError NOT_INITIALIZED None), a)
      else case devices a (cmd_deviceId cmd) of
             None \<Rightarrow> (Inl (AdapterError DEVICE_NOT_FOUND None), a)
           | Some dev \<Rightarrow>
               (case runCommand cmd dev a of
                  (Inl e, a1) \<Rightarrow> (Inl (AdapterError COMMAND_EXECUTION_FAILED (Some e)), a1)
                | (Inr _, a1) \<Rightarrow> (Inr (), refreshDeviceState dev a1)))"

section \<open>The Light Manager (light-manager.ts)\<close>

text \<open>
  \<open>ILightAdapter\<close>: an adapter object is its state together with its methods, each a
  function from the state to a result and the new state. The manager keeps its adapters
  in a \<open>Map\<close> keyed by adapter id; iteration follows insertion order, so the map is a
  list of pairs.
\<close>

record 's light_adapter =
  ad_type :: string
  ad_state :: 's
  ad_initialize :: "'s \<Rightarrow> (error + unit) \<times> 's"
  ad_getDevices :: "'s \<Rightarrow> (error + device list) \<times> 's"
  ad_getDevice :: "string \<Rightarrow> 's \<Rightarrow> (error + device option) \<times> 's"
  ad_executeCommand :: "light_command \<Rightarrow> 's \<Rightarrow> (error + unit) \<times> 's"

definition call_initialize :: "'s light_adapter \<Rightarrow> (error + unit) \<times> 's light_adapter" where
  "call_initialize ad = (let (res, st) = ad_initialize ad (ad_state ad) in (res, ad\<lparr>ad_state := st\<rparr>))"

definition call_getDevices :: "'s light_adapter \<Rightarrow> (error + device list) \<times> 's light_adapter" where
  "call_getDevices ad = (let (res, st) = ad_getDevices ad (ad_state ad) in (res, ad\<lparr>ad_state := st\<rparr>))"

definition call_getDevice :: "string \<Rightarrow> 's light_adapter \<Rightarrow> (error + device option) \<times> 's light_adapter" where
  "call_getDevice deviceId ad =
     (let (res, st) = ad_getDevice ad deviceId (ad_state ad) in (res, ad\<lparr>ad_state := st\<rparr>))"

definition call_executeCommand :: "light_command \<Rightarrow> 's light_adapter \<Rightarrow> (error + unit) \<times> 's light_adapter" where
  "call_executeCommand cmd ad =
     (let (res, st) = ad_executeCommand ad cmd (ad_state ad) in (res, ad\<lparr>ad_state := st\<rparr>))"

text \<open>The Govee adapter as an \<open>ILightAdapter\<close>.\<close>

definition govee_light_adapter :: "'v govee_adapter \<Rightarrow> 'v govee_adapter light_adapter" where
  "govee_light_adapter g =
     \<lparr>ad_type = ''govee'', ad_state = g, ad_initialize = initialize, ad_getDevices = getDevices,
      ad_getDevice = getDevice, ad_executeCommand = executeCommand\<rparr>"

record 's light_manager =
  adapters :: "(string \<times> 's light_adapter) list"
  lm_isInitialized :: bool

text \<open>\<open>LightManager.initialize\<close>: each adapter's rejection is caught and logged, so the
  call never fails and always sets the flag.\<close>

definition lm_initialize :: "'s light_manager \<Rightarrow> 's light_manager" where
  "lm_initialize m =
     (if lm_isInitialized m then m
      else m\<lparr>adapters := map (\<lambda>(k, ad). (k, snd (call_initialize ad))) (adapters m),
             lm_isInitialized := True\<rparr>)"

text \<open>\<open>LightManager.getDevices\<close>: an adapter that fails contributes nothing.\<close>

fun getDevices_loop ::
  "(string \<times> 's light_adapter) list \<Rightarrow> device list \<Rightarrow> (string \<times> 's light_adapter) list \<times> device list" where
  "getDevices_loop [] allDevices = ([], allDevices)"
| "getDevices_loop ((k, ad) # rest) allDevices =
     (let (res, ad1) = call_getDevices ad;
          (rest1, out) = getDevices_loop rest (case res of Inr ds \<Rightarrow> allDevices @ ds | Inl _ \<Rightarrow> allDevices)
      in ((k, ad1) # rest1, out))"

definition lm_getDevices :: "'s light_manager \<Rightarrow> device list \<times> 's light_manager" where
  "lm_getDevices m = (let (ads, out) = getDevices_loop (adapters m) [] in (out, m\<lparr>adapters := ads\<rparr>))"

text \<open>\<open>LightManager.getDevice\<close>: the first adapter that returns a device ends the loop;
  an adapter that throws or returns \<open>null\<close> is passed over.\<close>

fun getDevice_loop ::
  "string \<Rightarrow> (string \<times> 's light_adapter) list \<Rightarrow> (string \<times> 's light_adapter) list \<times> device option" where
  "getDevice_loop deviceId [] = ([], None)"
| "getDevice_loop deviceId ((k, ad) # rest) =
     (let (res, ad1) = call_getDevice deviceId ad
      in case res of
           Inr (Some d) \<Rightarrow> ((k, ad1) # rest, Some d)
         | _ \<Rightarrow> (let (rest1, out) = getDevice_loop deviceId rest in ((k, ad1) # rest1, out)))"

definition lm_getDevice :: "string \<Rightarrow> 's light_manager \<Rightarrow> device option \<times> 's light_manager" where
  "lm_getDevice deviceId m =
     (let (ads, out) = getDevice_loop deviceId (adapters m) in (out, m\<lparr>adapters := ads\<rparr>))"

text \<open>The loop of \<open>LightManager.executeCommand\<close>: the first adapter that executes the
  command ends it; True when one did.\<close>

fun executeCommand_loop ::
  "light_command \<Rightarrow> (string \<times> 's light_adapter) list \<Rightarrow> bool \<times> (string \<times> 's light_adapter) list" where
  "executeCommand_loop cmd [] = (False, [])"
| "executeCommand_loop cmd ((k, ad) # rest) =
     (let (res, ad1) = call_executeCommand cmd ad
      in case res of
           Inr _ \<Rightarrow> (True, (k, ad1) # rest)
         | Inl _ \<Rightarrow> (let (ok, rest1) = executeCommand_loop cmd rest in (ok, (k, ad1) # rest1)))"

definition lm_executeCommand :: "light_command \<Rightarrow> 's light_manager \<Rightarrow> (error + unit) \<times> 's light_manager" where
  "lm_executeCommand cmd m =
     (let m1 = (if \<not> lm_isInitialized m then lm_initialize m else m);
          (device, m2) = lm_getDevice (cmd_deviceId cmd) m1
      in case device of
           None \<Rightarrow> (Inl (DeviceNotFoundError (cmd_deviceId cmd)), m2)
         | Some _ \<Rightarrow>
             (let (ok, ads) = executeCommand_loop cmd (adapters m2)
              in (if ok then Inr () else Inl (NoAdapterError (cmd_deviceId cmd)),
                  m2\<lparr>adapters := ads\<rparr>)))"

text \<open>\<open>setColor\<close> and \<open>setBrightness\<close> of the manager build a command and execute it.\<close>

definition setColor_command :: "string \<Rightarrow> string \<Rightarrow> light_command" where
  "setColor_command deviceId c =
     \<lparr>cmd_type = SetColor, cmd_deviceId = deviceId,
      cmd_params = \<lparr>p_color = Some c, p_brightness = None\<rparr>\<rparr>"

definition setBrightness_command :: "string \<Rightarrow> int \<Rightarrow> light_command" where
  "setBrightness_command deviceId b =
     \<lparr>cmd_type = SetBrightness, cmd_deviceId = deviceId,
      cmd_params = \<lparr>p_color = None, p_brightness = Some b\<rparr>\<rparr>"

definition lm_setColor :: "string \<Rightarrow> string \<Rightarrow> 's light_manager \<Rightarrow> (error + unit) \<times> 's light_manager" where
  "lm_setColor deviceId c m = lm_executeCommand (setColor_command deviceId c) m"

definition lm_setBrightness :: "string \<Rightarrow> int \<Rightarrow> 's light_manager \<Rightarrow> (error + unit) \<times> 's light_manager" where
  "lm_setBrightness deviceId b m = lm_executeCommand (setBrightness_command deviceId b) m"

section \<open>The GameDin adapter: effect registry and dispatcher (gamedin/gamedin-adapter.ts)\<close>

text \<open>\<open>IGameDinEvent\<close> (its free-form \<open>data\<close> is left out) and \<open>IGameDinLightEffect\<close>; an
  effect's command is a light command without its device id.\<close>

record gamedin_event =
  ev_type :: string
  ev_playerId :: "string option"
  ev_playerName :: "string option"
  ev_matchId :: "string option"
  ev_gameId :: "string option"
  ev_timestamp :: int

record effect_command =
  ec_type :: command_type
  ec_params :: command_params

record light_effect =
  eventType :: string
  command :: effect_command
  condition :: "(gamedin_event \<Rightarrow> bool) option"
  priority :: "int option"
  duration :: "int option"
  restorePreviousState :: "bool option"

text \<open>The snapshot kept in \<open>deviceStates\<close>.\<close>

record saved_state =
  ss_color :: "string option"
  ss_brightness :: "int option"

text \<open>A timer of the event loop, made by \<open>setTimeout\<close>: its handle, the \<open>deviceId\<close> and
  \<open>effect\<close> its callback has captured, and its delay.\<close>

record pending_timer =
  t_id :: nat
  t_deviceId :: string
  t_effect :: light_effect
  t_delay :: int

text \<open>The two \<open>logger.error\<close> calls of the dispatcher.\<close>

datatype log_entry = ApplyFailed string error | RestoreFailed string error

text \<open>
  The adapter's fields, and with them the part of the runtime it acts on: \<open>timers\<close> are
  the pending timers of the event loop and \<open>next_timer\<close> the next fresh handle;
  \<open>issued\<close> records every command handed to the Light Manager and \<open>error_log\<close> every
  error logged, in order.
\<close>

record 's gamedin_adapter =
  lightManager :: "'s light_manager"
  effects :: "string \<rightharpoonup> light_effect list"
  deviceStates :: "string \<rightharpoonup> saved_state"
  activeEffects :: "string \<rightharpoonup> nat"
  timers :: "pending_timer list"
  next_timer :: nat
  issued :: "light_command list"
  error_log :: "log_entry list"

subsection \<open>Effect registry\<close>

text \<open>\<open>effect.priority || 0\<close>.\<close>

definition effect_priority :: "light_effect \<Rightarrow> int" where
  "effect_priority e = (case priority e of None \<Rightarrow> 0 | Some p \<Rightarrow> p)"

text \<open>\<open>effects.sort((a, b) => (b.priority || 0) - (a.priority || 0))\<close>:
  \<open>Array.prototype.sort\<close> is stable, and so is \<open>sort_key\<close>; the comparator puts the
  greater priority first.\<close>

definition sort_effects :: "light_effect list \<Rightarrow> light_effect list" where
  "sort_effects es = sort_key (\<lambda>e. - effect_priority e) es"

definition addEffect :: "light_effect \<Rightarrow> 's gamedin_adapter \<Rightarrow> 's gamedin_adapter" where
  "addEffect effect s =
     (let es = (case effects s (eventType effect) of None \<Rightarrow> [] | Some es \<Rightarrow> es)
      in s\<lparr>effects := (effects s)(eventType effect \<mapsto> sort_effects (es @ [effect]))\<rparr>)"

text \<open>\<open>removeEffect\<close>: \<open>effects[effectIndex]\<close> is defined exactly for an index of the
  array, and \<open>splice(effectIndex, 1)\<close> takes that element out.\<close>

definition removeEffect :: "string \<Rightarrow> int \<Rightarrow> 's gamedin_adapter \<Rightarrow> 's gamedin_adapter" where
  "removeEffect evType effectIndex s =
     (case effects s evType of
        None \<Rightarrow> s
      | Some es \<Rightarrow>
          if 0 \<le> effectIndex \<and> effectIndex < int (length es)
          then s\<lparr>effects := (effects s)(evType \<mapsto> take (nat effectIndex) es @ drop (Suc (nat effectIndex)) es)\<rparr>
          else s)"

subsection \<open>Dispatcher and state restorer\<close>

text \<open>
  The definitions of this subsection are the public methods and the timer callback run
  to completion: each is one step, as it is when no other call and no timer comes in
  between its \<open>await\<close>s. What happens when calls overlap is the matter of the
  subsection on the event loop below.
\<close>

text \<open>\<open>this.lightManager.<method>(...)\<close>: the call \<open>f\<close> on the manager, with the command
  it carries recorded in \<open>issued\<close>.\<close>

definition call_manager ::
  "light_command \<Rightarrow> ('s light_manager \<Rightarrow> (error + unit) \<times> 's light_manager) \<Rightarrow>
   's gamedin_adapter \<Rightarrow> (error + unit) \<times> 's gamedin_adapter" where
  "call_manager cmd f s =
     (let (res, m) = f (lightManager s)
      in (res, s\<lparr>lightManager := m, issued := issued s @ [cmd]\<rparr>))"

text \<open>\<open>clearDeviceEffect\<close>: \<open>clearTimeout\<close> takes the timer out of the event loop.\<close>

definition clearDeviceEffect :: "string \<Rightarrow> 's gamedin_adapter \<Rightarrow> 's gamedin_adapter" where
  "clearDeviceEffect deviceId s =
     (case activeEffects s deviceId of
        None \<Rightarrow> s
      | Some timeout \<Rightarrow>
          s\<lparr>timers := filter (\<lambda>t. t_id t \<noteq> timeout) (timers s),
            activeEffects := (activeEffects s)(deviceId := None)\<rparr>)"

text \<open>\<open>restoreDeviceState\<close>: a command that throws skips the rest of the \<open>try\<close> block, the
  deletion of the snapshot included.\<close>

definition restoreDeviceState :: "string \<Rightarrow> 's gamedin_adapter \<Rightarrow> 's gamedin_adapter" where
  "restoreDeviceState deviceId s =
     (case deviceStates s deviceId of
        None \<Rightarrow> s
      | Some st \<Rightarrow>
          (let (r1, s1) =
                 (case ss_color st of
                    None \<Rightarrow> (Inr (), s)
                  | Some c \<Rightarrow> call_manager (setColor_command deviceId c) (lm_setColor deviceId c) s)
           in case r1 of
                Inl e \<Rightarrow> s1\<lparr>error_log := error_log s1 @ [RestoreFailed deviceId e]\<rparr>
              | Inr _ \<Rightarrow>
                  (let (r2, s2) =
                         (case ss_brightness st of
                            None \<Rightarrow> (Inr (), s1)
                          | Some b \<Rightarrow>
                              call_manager (setBrightness_command deviceId b)
                                (lm_setBrightness deviceId b) s1)
                   in case r2 of
                        Inl e \<Rightarrow> s2\<lparr>error_log := error_log s2 @ [RestoreFailed deviceId e]\<rparr>
                      | Inr _ \<Rightarrow> s2\<lparr>deviceStates := (deviceStates s2)(deviceId := None)\<rparr>)))"

text \<open>\<open>effects.find(eff => !eff.condition || eff.condition(event))\<close>.\<close>

definition effect_matches :: "gamedin_event \<Rightarrow> light_effect \<Rightarrow> bool" where
  "effect_matches event eff = (case condition eff of None \<Rightarrow> True | Some c \<Rightarrow> c event)"

definition select_effect :: "light_effect list \<Rightarrow> gamedin_event \<Rightarrow> light_effect option" where
  "select_effect effs event = find (effect_matches event) effs"

text \<open>\<open>{...effect.command, deviceId}\<close>.\<close>

definition effect_light_command :: "light_effect \<Rightarrow> string \<Rightarrow> light_command" where
  "effect_light_command effect deviceId =
     \<lparr>cmd_type = ec_type (command effect), cmd_deviceId = deviceId,
      cmd_params = ec_params (command effect)\<rparr>"

text \<open>\<open>setTimeout(callback, effect.duration)\<close> followed by
  \<open>this.activeEffects.set(deviceId, timeout)\<close>.\<close>

definition schedule_restoration :: "string \<Rightarrow> light_effect \<Rightarrow> int \<Rightarrow> 's gamedin_adapter \<Rightarrow> 's gamedin_adapter" where
  "schedule_restoration deviceId effect d s =
     s\<lparr>timers := timers s @ [\<lparr>t_id = next_timer s, t_deviceId = deviceId, t_effect = effect, t_delay = d\<rparr>],
       next_timer := Suc (next_timer s),
       activeEffects := (activeEffects s)(deviceId \<mapsto> next_timer s)\<rparr>"

text \<open>
  \<open>applyEffectsToDevice\<close>, from the point where an effect has been found:
  \<open>store_state\<close> is its block "store current state if needed for restoration". The
  timer is set up inside the \<open>try\<close>, after the awaited command: a command that throws
  goes to the \<open>catch\<close> and no timer is set up.
\<close>

definition store_state :: "device \<Rightarrow> light_effect \<Rightarrow> 's gamedin_adapter \<Rightarrow> 's gamedin_adapter" where
  "store_state dev effect s =
     (if restorePreviousState effect = Some True \<and> deviceStates s (dev_id dev) = None
      then s\<lparr>deviceStates := (deviceStates s)(dev_id dev \<mapsto>
             \<lparr>ss_color = dev_color dev, ss_brightness = dev_brightness dev\<rparr>)\<rparr>
      else s)"

definition apply_effect :: "device \<Rightarrow> light_effect \<Rightarrow> 's gamedin_adapter \<Rightarrow> 's gamedin_adapter" where
  "apply_effect dev effect s =
     (let deviceId = dev_id dev;
          s1 = store_state dev effect s;
          s2 = clearDeviceEffect deviceId s1;
          cmd = effect_light_command effect deviceId;
          (res, s3) = call_manager cmd (lm_executeCommand cmd) s2
      in case res of
           Inl e \<Rightarrow> s3\<lparr>error_log := error_log s3 @ [ApplyFailed deviceId e]\<rparr>
         | Inr _ \<Rightarrow>
             (case duration effect of
                None \<Rightarrow> s3
              | Some d \<Rightarrow> if d > 0 then schedule_restoration deviceId effect d s3 else s3))"

definition applyEffectsToDevice ::
  "device \<Rightarrow> light_effect list \<Rightarrow> gamedin_event \<Rightarrow> 's gamedin_adapter \<Rightarrow> 's gamedin_adapter" where
  "applyEffectsToDevice dev effs event s =
     (case select_effect effs event of
        None \<Rightarrow> s
      | Some effect \<Rightarrow> apply_effect dev effect s)"

text \<open>\<open>this.effects.get(eventType) || []\<close>.\<close>

definition effects_for :: "'s gamedin_adapter \<Rightarrow> string \<Rightarrow> light_effect list" where
  "effects_for s evType = (case effects s evType of None \<Rightarrow> [] | Some es \<Rightarrow> es)"

text \<open>\<open>handleEvent\<close>: no effect registered for the event type means no call at all; else
  the devices of the manager are fetched and processed in order.\<close>

definition handleEvent :: "gamedin_event \<Rightarrow> 's gamedin_adapter \<Rightarrow> 's gamedin_adapter" where
  "handleEvent event s =
     (let effs = effects_for s (ev_type event)
      in if effs = [] then s
         else (let (devs, m) = lm_getDevices (lightManager s)
               in foldl (\<lambda>s1 dev. applyEffectsToDevice dev effs event s1) (s\<lparr>lightManager := m\<rparr>) devs))"

text \<open>
  A pending timer fires: the event loop drops it and runs its callback,
  \<open>if (effect.restorePreviousState) await restoreDeviceState(deviceId);
  clearDeviceEffect(deviceId)\<close>. A handle that is not pending does nothing.
\<close>

definition fire_timer :: "nat \<Rightarrow> 's gamedin_adapter \<Rightarrow> 's gamedin_adapter" where
  "fire_timer timeout s =
     (case find (\<lambda>t. t_id t = timeout) (timers s) of
        None \<Rightarrow> s
      | Some t \<Rightarrow>
          (let s0 = s\<lparr>timers := filter (\<lambda>u. t_id u \<noteq> timeout) (timers s)\<rparr>;
               s1 = (if restorePreviousState (t_effect t) = Some True
                     then restoreDeviceState (t_deviceId t) s0 else s0)
           in clearDeviceEffect (t_deviceId t) s1))"

text \<open>\<open>dispose\<close> clears every handle held in \<open>activeEffects\<close> (a handle is only ever
  stored under the device id its callback captured) and empties both maps.\<close>

definition dispose :: "'s gamedin_adapter \<Rightarrow> 's gamedin_adapter" where
  "dispose s =
     s\<lparr>timers := filter (\<lambda>t. activeEffects s (t_deviceId t) \<noteq> Some (t_id t)) (timers s),
       activeEffects := Map.empty, deviceStates := Map.empty\<rparr>"

text \<open>\<open>GameDinAdapter.initialize\<close> initialises the Light Manager.\<close>

definition gd_initialize :: "'s gamedin_adapter \<Rightarrow> 's gamedin_adapter" where
  "gd_initialize s = s\<lparr>lightManager := lm_initialize (lightManager s)\<rparr>"

subsection \<open>Construction and reachable states\<close>

definition player_join_effect :: light_effect where
  "player_join_effect =
     \<lparr>eventType = ''player:join'',
      command = \<lparr>ec_type = SetColor, ec_params = \<lparr>p_color = Some ''#00FF00'', p_brightness = None\<rparr>\<rparr>,
      condition = None, priority = Some 1, duration = Some 2000, restorePreviousState = Some True\<rparr>"

definition match_victory_effect :: light_effect where
  "match_victory_effect =
     \<lparr>eventType = ''match:victory'',
      command = \<lparr>ec_type = SetColor, ec_params = \<lparr>p_color = Some ''#FFFF00'', p_brightness = None\<rparr>\<rparr>,
      condition = None, priority = Some 10, duration = Some 5000, restorePreviousState = None\<rparr>"

definition match_defeat_effect :: light_effect where
  "match_defeat_effect =
     \<lparr>eventType = ''match:defeat'',
      command = \<lparr>ec_type = SetColor, ec_params = \<lparr>p_color = Some ''#FF0000'', p_brightness = None\<rparr>\<rparr>,
      condition = None, priority = Some 10, duration = Some 5000, restorePreviousState = None\<rparr>"

definition level_up_effect :: light_effect where
  "level_up_effect =
     \<lparr>eventType = ''player:levelUp'',
      command = \<lparr>ec_type = SetColor, ec_params = \<lparr>p_color = Some ''#9400D3'', p_brightness = None\<rparr>\<rparr>,
      condition = None, priority = Some 5, duration = Some 3000, restorePreviousState = None\<rparr>"

definition DEFAULT_EFFECTS :: "light_effect list" where
  "DEFAULT_EFFECTS = [player_join_effect, match_victory_effect, match_defeat_effect, level_up_effect]"

text \<open>The two fields of \<open>IGameDinAdapterConfig\<close> the constructor reads for the registry.\<close>

record gamedin_config =
  defaultEffects :: "light_effect list option"
  enableDefaultEffects :: "bool option"

definition registerEffects :: "light_effect list \<Rightarrow> 's gamedin_adapter \<Rightarrow> 's gamedin_adapter" where
  "registerEffects es s = foldl (\<lambda>s1 e. addEffect e s1) s es"

text \<open>The constructor: \<open>config.defaultEffects || DEFAULT_EFFECTS\<close>,
  \<open>config.enableDefaultEffects !== false\<close>.\<close>

definition new_GameDinAdapter :: "'s light_manager \<Rightarrow> gamedin_config \<Rightarrow> 's gamedin_adapter" where
  "new_GameDinAdapter lm config =
     (let s0 = \<lparr>lightManager = lm, effects = Map.empty, deviceStates = Map.empty,
                 activeEffects = Map.empty, timers = [], next_timer = 0, issued = [],
                 error_log = []\<rparr>
      in if enableDefaultEffects config \<noteq> Some False
         then registerEffects (case defaultEffects config of None \<Rightarrow> DEFAULT_EFFECTS | Some es \<Rightarrow> es) s0
         else s0)"

text \<open>
  The states an adapter can be in when every call runs to completion before the next
  begins: built by the constructor, then any sequence of its public methods and of
  timers firing. The Light Manager is shared with the rest of the
  application, which may use it between two steps (\<open>r_manager\<close>). The states inside the
  loop of \<open>handleEvent\<close>, after an effect has been applied to one more device, are
  included (\<open>r_apply_effect\<close>).
\<close>

inductive reachable :: "'s gamedin_adapter \<Rightarrow> bool" where
  r_new: "reachable (new_GameDinAdapter lm config)"
| r_initialize: "reachable s \<Longrightarrow> reachable (gd_initialize s)"
| r_addEffect: "reachable s \<Longrightarrow> reachable (addEffect effect s)"
| r_removeEffect: "reachable s \<Longrightarrow> reachable (removeEffect evType effectIndex s)"
| r_handleEvent: "reachable s \<Longrightarrow> reachable (handleEvent event s)"
| r_apply_effect: "reachable s \<Longrightarrow> reachable (apply_effect dev effect s)"
| r_fire: "reachable s \<Longrightarrow> reachable (fire_timer timeout s)"
| r_dispose: "reachable s \<Longrightarrow> reachable (dispose s)"
| r_manager: "reachable s \<Longrightarrow> reachable (s\<lparr>lightManager := m\<rparr>)"

subsection \<open>The dispatcher under the event loop\<close>

text \<open>
  \<open>handleEvent\<close> and the callback of a restoration timer are \<open>async\<close>: each gives up
  control at every \<open>await\<close>, and nothing in the adapter keeps another call from starting
  or another timer from firing meanwhile. A call that has reached an \<open>await\<close> is a
  suspended task, which records the \<open>await\<close> it waits at and the locals its continuation
  reads:

  \<^item> \<open>AwaitDevices\<close>: \<open>handleEvent\<close> at \<open>await this.lightManager.getDevices()\<close>, with the
    devices the call settles with;
  \<^item> \<open>AwaitCommand\<close>: \<open>applyEffectsToDevice\<close> at \<open>await this.lightManager.executeCommand(command)\<close>,
    with the devices still to come, the device, the effect found and the outcome the
    command settles with;
  \<^item> \<open>AwaitApplied\<close>: \<open>handleEvent\<close> at \<open>await this.applyEffectsToDevice(...)\<close>, once that
    call has returned, with the devices still to come;
  \<^item> \<open>AwaitColor\<close>, \<open>AwaitBrightness\<close>: \<open>restoreDeviceState\<close> at \<open>await setColor\<close> and at
    \<open>await setBrightness\<close>, with the snapshot read at its start and the outcome;
  \<^item> \<open>AwaitRestored\<close>: the timer callback at \<open>await this.restoreDeviceState(deviceId)\<close>,
    once that call has returned.

  A call on the Light Manager is taken at the moment it is made, and the outcome it
  settles with is kept by the task until the task resumes; what other calls can change
  in between is the state of the dispatcher. The array \<open>effects\<close> that \<open>handleEvent\<close>
  holds is the one stored in the registry, which \<open>addEffect\<close> and \<open>removeEffect\<close> change
  in place, so the loop reads it from the state.
\<close>

datatype dispatch_task =
    AwaitDevices gamedin_event "device list"
  | AwaitCommand gamedin_event "device list" device light_effect "error + unit"
  | AwaitApplied gamedin_event "device list"
  | AwaitColor string saved_state "error + unit"
  | AwaitBrightness string "error + unit"
  | AwaitRestored string

text \<open>\<open>applyEffectsToDevice\<close> up to its \<open>await\<close> (snapshot, \<open>clearDeviceEffect\<close>, the
  command handed to the manager), and from it on (the timer, or the \<open>catch\<close>).\<close>

definition begin_apply :: "device \<Rightarrow> light_effect \<Rightarrow> 's gamedin_adapter \<Rightarrow> (error + unit) \<times> 's gamedin_adapter" where
  "begin_apply dev effect s =
     (let deviceId = dev_id dev;
          s1 = store_state dev effect s;
          s2 = clearDeviceEffect deviceId s1;
          cmd = effect_light_command effect deviceId
      in call_manager cmd (lm_executeCommand cmd) s2)"

definition finish_apply :: "device \<Rightarrow> light_effect \<Rightarrow> error + unit \<Rightarrow> 's gamedin_adapter \<Rightarrow> 's gamedin_adapter" where
  "finish_apply dev effect res s =
     (case res of
        Inl e \<Rightarrow> s\<lparr>error_log := error_log s @ [ApplyFailed (dev_id dev) e]\<rparr>
      | Inr _ \<Rightarrow>
          (case duration effect of
             None \<Rightarrow> s
           | Some d \<Rightarrow> if d > 0 then schedule_restoration (dev_id dev) effect d s else s))"

text \<open>The loop of \<open>handleEvent\<close> from the device list on: it runs up to the next
  \<open>await\<close>. \<open>start_handleEvent\<close> is the call up to its first \<open>await\<close>.\<close>

fun next_device :: "gamedin_event \<Rightarrow> device list \<Rightarrow> 's gamedin_adapter \<Rightarrow> dispatch_task option \<times> 's gamedin_adapter" where
  "next_device event [] s = (None, s)"
| "next_device event (dev # rest) s =
     (case select_effect (effects_for s (ev_type event)) event of
        None \<Rightarrow> (Some (AwaitApplied event rest), s)
      | Some effect \<Rightarrow>
          (let (res, s1) = begin_apply dev effect s
           in (Some (AwaitCommand event rest dev effect res), s1)))"

definition start_handleEvent :: "gamedin_event \<Rightarrow> 's gamedin_adapter \<Rightarrow> dispatch_task option \<times> 's gamedin_adapter" where
  "start_handleEvent event s =
     (if effects_for s (ev_type event) = [] then (None, s)
      else (let (devs, m) = lm_getDevices (lightManager s)
            in (Some (AwaitDevices event devs), s\<lparr>lightManager := m\<rparr>)))"

text \<open>\<open>restoreDeviceState\<close> in its pieces between two \<open>await\<close>s, and a pending timer
  that fires: the event loop drops it and runs its callback up to the first \<open>await\<close>.\<close>

definition restore_brightness :: "string \<Rightarrow> saved_state \<Rightarrow> 's gamedin_adapter \<Rightarrow> dispatch_task option \<times> 's gamedin_adapter" where
  "restore_brightness deviceId st s =
     (case ss_brightness st of
        None \<Rightarrow> (Some (AwaitRestored deviceId), s\<lparr>deviceStates := (deviceStates s)(deviceId := None)\<rparr>)
      | Some b \<Rightarrow>
          (let (res, s1) = call_manager (setBrightness_command deviceId b) (lm_setBrightness deviceId b) s
           in (Some (AwaitBrightness deviceId res), s1)))"

definition start_restore :: "string \<Rightarrow> 's gamedin_adapter \<Rightarrow> dispatch_task option \<times> 's gamedin_adapter" where
  "start_restore deviceId s =
     (case deviceStates s deviceId of
        None \<Rightarrow> (Some (AwaitRestored deviceId), s)
      | Some st \<Rightarrow>
          (case ss_color st of
             None \<Rightarrow> restore_brightness deviceId st s
           | Some c \<Rightarrow>
               (let (res, s1) = call_manager (setColor_command deviceId c) (lm_setColor deviceId c) s
                in (Some (AwaitColor deviceId st res), s1))))"

definition start_timer :: "nat \<Rightarrow> 's gamedin_adapter \<Rightarrow> dispatch_task option \<times> 's gamedin_adapter" where
  "start_timer timeout s =
     (case find (\<lambda>t. t_id t = timeout) (timers s) of
        None \<Rightarrow> (None, s)
      | Some t \<Rightarrow>
          (let s0 = s\<lparr>timers := filter (\<lambda>u. t_id u \<noteq> timeout) (timers s)\<rparr>
           in if restorePreviousState (t_effect t) = Some True
              then start_restore (t_deviceId t) s0
              else (None, clearDeviceEffect (t_deviceId t) s0)))"

text \<open>A suspended task resumes and runs up to its next \<open>await\<close>, or to its end.\<close>

fun resume_task :: "dispatch_task \<Rightarrow> 's gamedin_adapter \<Rightarrow> dispatch_task option \<times> 's gamedin_adapter" where
  "resume_task (AwaitDevices event devs) s = next_device event devs s"
| "resume_task (AwaitCommand event rest dev effect res) s =
     (Some (AwaitApplied event rest), finish_apply dev effect res s)"
| "resume_task (AwaitApplied event rest) s = next_device event rest s"
| "resume_task (AwaitColor deviceId st res) s =
     (case res of
        Inl e \<Rightarrow> (Some (AwaitRestored deviceId), s\<lparr>error_log := error_log s @ [RestoreFailed deviceId e]\<rparr>)
      | Inr _ \<Rightarrow> restore_brightness deviceId st s)"
| "resume_task (AwaitBrightness deviceId res) s =
     (case res of
        Inl e \<Rightarrow> (Some (AwaitRestored deviceId), s\<lparr>error_log := error_log s @ [RestoreFailed deviceId e]\<rparr>)
      | Inr _ \<Rightarrow> (Some (AwaitRestored deviceId), s\<lparr>deviceStates := (deviceStates s)(deviceId := None)\<rparr>))"
| "resume_task (AwaitRestored deviceId) s = (None, clearDeviceEffect deviceId s)"

text \<open>
  What can happen next: a call of \<open>handleEvent\<close>, a pending timer firing, the \<open>i\<close>-th
  suspended task resuming, a call of one of the methods without an \<open>await\<close> of their
  own, or the rest of the application using the Light Manager. A configuration is the
  list of suspended tasks and the adapter's state.
\<close>

datatype 's dispatch_action =
    HandleEvent gamedin_event
  | Fire nat
  | Resume nat
  | AddEffect light_effect
  | RemoveEffect string int
  | Dispose
  | Initialize
  | UseManager "'s light_manager"

definition spawn :: "dispatch_task list \<Rightarrow> dispatch_task option \<times> 's gamedin_adapter \<Rightarrow> dispatch_task list \<times> 's gamedin_adapter" where
  "spawn tasks r = (case r of (None, s) \<Rightarrow> (tasks, s) | (Some t, s) \<Rightarrow> (tasks @ [t], s))"

fun act :: "'s dispatch_action \<Rightarrow> dispatch_task list \<times> 's gamedin_adapter \<Rightarrow> dispatch_task list \<times> 's gamedin_adapter" where
  "act (HandleEvent event) (tasks, s) = spawn tasks (start_handleEvent event s)"
| "act (Fire timeout) (tasks, s) = spawn tasks (start_timer timeout s)"
| "act (Resume i) (tasks, s) =
     (if i < length tasks
      then (case resume_task (tasks ! i) s of
              (None, s1) \<Rightarrow> (take i tasks @ drop (Suc i) tasks, s1)
            | (Some t, s1) \<Rightarrow> (tasks[i := t], s1))
      else (tasks, s))"
| "act (AddEffect effect) (tasks, s) = (tasks, addEffect effect s)"
| "act (RemoveEffect evType effectIndex) (tasks, s) = (tasks, removeEffect evType effectIndex s)"
| "act Dispose (tasks, s) = (tasks, dispose s)"
| "act Initialize (tasks, s) = (tasks, gd_initialize s)"
| "act (UseManager m) (tasks, s) = (tasks, s\<lparr>lightManager := m\<rparr>)"

definition run :: "'s dispatch_action list \<Rightarrow> dispatch_task list \<times> 's gamedin_adapter \<Rightarrow> dispatch_task list \<times> 's gamedin_adapter" where
  "run actions c = foldl (\<lambda>c1 a. act a c1) c actions"

text \<open>
  \<open>in_handleEvent\<close> holds of the tasks of a \<open>handleEvent\<close> call. A sequence of actions is
  \<open>one_at_a_time\<close> when no call of \<open>handleEvent\<close> starts while another is still in
  flight; timers may fire and every other action may happen at any \<open>await\<close>.
\<close>

fun in_handleEvent :: "dispatch_task \<Rightarrow> bool" where
  "in_handleEvent (AwaitDevices event devs) = True"
| "in_handleEvent (AwaitCommand event rest dev effect res) = True"
| "in_handleEvent (AwaitApplied event rest) = True"
| "in_handleEvent _ = False"

fun admitted :: "'s dispatch_action \<Rightarrow> dispatch_task list \<Rightarrow> bool" where
  "admitted (HandleEvent event) tasks = (\<not> list_ex in_handleEvent tasks)"
| "admitted _ tasks = True"

fun one_at_a_time :: "'s dispatch_action list \<Rightarrow> dispatch_task list \<times> 's gamedin_adapter \<Rightarrow> bool" where
  "one_at_a_time [] c = True"
| "one_at_a_time (a # as) c = (admitted a (fst c) \<and> one_at_a_time as (act a c))"

text \<open>A task resumed \<open>n\<close> times in a row, nothing else happening in between.\<close>

fun drive :: "nat \<Rightarrow> dispatch_task option \<times> 's gamedin_adapter \<Rightarrow> dispatch_task option \<times> 's gamedin_adapter" where
  "drive n (None, s) = (None, s)"
| "drive 0 (Some t, s) = (Some t, s)"
| "drive (Suc n) (Some t, s) = drive n (resume_task t s)"

section \<open>The profile sync loop (services/sync/profile-sync.service.ts)\<close>

text \<open>
  \<open>syncAll\<close> awaits three steps in turn. A call runs up to its first \<open>await\<close> and is
  then a suspended task that waits for the step named; it resumes when that step's
  promise settles. The steps are placeholders in the source, so how a step settles is an
  input of \<open>resume\<close>. \<open>sync_trace\<close> records what the service did, in order.
\<close>

datatype sync_step = SyncProfileFromDivina | SyncGameStateFromGameDin | ApplyPendingUpdates

datatype sync_event =
    AlreadyInProgress | StartingSync | StepCalled sync_step | SyncCompleted | SyncFailed error

record profile_sync =
  isSyncing :: bool
  sync_trace :: "sync_event list"

definition syncAll :: "profile_sync \<Rightarrow> sync_step option \<times> profile_sync" where
  "syncAll s =
     (if isSyncing s then (None, s\<lparr>sync_trace := sync_trace s @ [AlreadyInProgress]\<rparr>)
      else (Some SyncProfileFromDivina,
            s\<lparr>isSyncing := True,
              sync_trace := sync_trace s @ [StartingSync, StepCalled SyncProfileFromDivina]\<rparr>))"

text \<open>The task waiting for \<open>step\<close> resumes with the step's outcome: a rejection goes to
  \<open>catch\<close>, and \<open>finally\<close> clears the flag on both ways out.\<close>

definition resume :: "sync_step \<Rightarrow> error + unit \<Rightarrow> profile_sync \<Rightarrow> sync_step option \<times> profile_sync" where
  "resume step outcome s =
     (case outcome of
        Inl e \<Rightarrow> (None, s\<lparr>isSyncing := False, sync_trace := sync_trace s @ [SyncFailed e]\<rparr>)
      | Inr _ \<Rightarrow>
          (case step of
             SyncProfileFromDivina \<Rightarrow>
               (Some SyncGameStateFromGameDin,
                s\<lparr>sync_trace := sync_trace s @ [StepCalled SyncGameStateFromGameDin]\<rparr>)
           | SyncGameStateFromGameDin \<Rightarrow>
               (Some ApplyPendingUpdates,
                s\<lparr>sync_trace := sync_trace s @ [StepCalled ApplyPendingUpdates]\<rparr>)
           | ApplyPendingUpdates \<Rightarrow>
               (None, s\<lparr>isSyncing := False, sync_trace := sync_trace s @ [SyncCompleted]\<rparr>)))"

text \<open>A tick driven to its end by the outcomes of its steps; the task is None once the
  tick has finished.\<close>

fun run_tick :: "sync_step option \<Rightarrow> (error + unit) list \<Rightarrow> profile_sync \<Rightarrow> sync_step option \<times> profile_sync" where
  "run_tick None outcomes s = (None, s)"
| "run_tick (Some step) [] s = (Some step, s)"
| "run_tick (Some step) (r # rs) s = (let (task, s1) = resume step r s in run_tick task rs s1)"

text \<open>
  The service under the event loop: \<open>Tick\<close> is a call of \<open>syncAll\<close> (by the interval
  timer or by a caller), \<open>Settle i r\<close> lets the step awaited by the \<open>i\<close>-th suspended tick
  settle with \<open>r\<close>. The suspended ticks are kept in a list.
\<close>

datatype sync_action = Tick | Settle nat "error + unit"

fun sync_act :: "sync_action \<Rightarrow> sync_step list \<times> profile_sync \<Rightarrow> sync_step list \<times> profile_sync" where
  "sync_act Tick (tasks, s) =
     (case syncAll s of
        (None, s1) \<Rightarrow> (tasks, s1)
      | (Some step, s1) \<Rightarrow> (tasks @ [step], s1))"
| "sync_act (Settle i r) (tasks, s) =
     (if i < length tasks
      then (case resume (tasks ! i) r s of
              (None, s1) \<Rightarrow> (take i tasks @ drop (Suc i) tasks, s1)
            | (Some step, s1) \<Rightarrow> (tasks[i := step], s1))
      else (tasks, s))"

definition sync_run :: "sync_action list \<Rightarrow> sync_step list \<times> profile_sync \<Rightarrow> sync_step list \<times> profile_sync" where
  "sync_run actions st = foldl (\<lambda>st1 a. sync_act a st1) st actions"

text \<open>The service as its constructor leaves it.\<close>

definition new_ProfileSyncService :: profile_sync where
  "new_ProfileSyncService = \<lparr>isSyncing = False, sync_trace = []\<rparr>"

section \<open>A vendor for the scenarios\<close>

text \<open>
  A vendor with one lamp that does what it is told: its state is the lamp's properties,
  a control request the predicate \<open>accepts\<close> admits changes them (any other is
  rejected), and both read requests report them.
\<close>

definition lamp_info :: "properties \<Rightarrow> device_info" where
  "lamp_info v =
     \<lparr>di_device = ''X'', di_model = ''H6001'', di_deviceName = ''Lamp'', di_controllable = True,
      di_retrievable = True, di_supportCmds = [''turn'', ''brightness'', ''color''],
      di_properties = v\<rparr>"

definition lamp_http :: "(vendor_cmd \<Rightarrow> bool) \<Rightarrow> request \<Rightarrow> properties \<Rightarrow> response \<times> properties" where
  "lamp_http accepts req v =
     (case req of
        GetDevices \<Rightarrow> (Reply 200 (DevicesData [lamp_info v]), v)
      | PutControl _ _ c \<Rightarrow>
          if accepts c
          then (Reply 200 NoData,
                case c of
                  Turn b \<Rightarrow> v\<lparr>powerState := b\<rparr>
                | Color x \<Rightarrow> v\<lparr>prop_color := Some x\<rparr>
                | Brightness n \<Rightarrow> v\<lparr>prop_brightness := Some n\<rparr>)
          else (Rejected, v)
      | GetState _ _ \<Rightarrow> (Reply 200 (StateData v), v))"

text \<open>A Govee adapter that has not been initialised, in front of that vendor, and a
  Light Manager that holds it.\<close>

definition lamp_adapter :: "(vendor_cmd \<Rightarrow> bool) \<Rightarrow> properties \<Rightarrow> properties govee_adapter" where
  "lamp_adapter accepts v =
     \<lparr>isInitialized = False, devices = Map.empty, http = lamp_http accepts, remote = v, sent = []\<rparr>"

definition lamp_manager :: "(vendor_cmd \<Rightarrow> bool) \<Rightarrow> properties \<Rightarrow> properties govee_adapter light_manager" where
  "lamp_manager accepts v =
     \<lparr>adapters = [(''govee:1'', govee_light_adapter (lamp_adapter accepts v))], lm_isInitialized = False\<rparr>"

text \<open>The lamp's manager once it has been used: initialised, with the lamp in the
  adapter's cache as the vendor state \<open>v\<close> reports it, and \<open>log\<close> the requests sent so
  far.\<close>

definition lamp_ready ::
  "(vendor_cmd \<Rightarrow> bool) \<Rightarrow> properties \<Rightarrow> request list \<Rightarrow> properties govee_adapter light_manager" where
  "lamp_ready accepts v log =
     \<lparr>adapters = [(''govee:1'', govee_light_adapter
          \<lparr>isInitialized = True, devices = [''X'' \<mapsto> mapToDevice (lamp_info v)],
           http = lamp_http accepts, remote = v, sent = log\<rparr>)],
      lm_isInitialized = True\<rparr>"

text \<open>A second Govee account, without devices and with no control over any, and a Light
  Manager that holds its adapter first and the lamp's adapter second.\<close>

definition bare_http :: "request \<Rightarrow> properties \<Rightarrow> response \<times> properties" where
  "bare_http req v =
     (case req of GetDevices \<Rightarrow> (Reply 200 (DevicesData []), v) | _ \<Rightarrow> (Rejected, v))"

definition bare_adapter :: "properties \<Rightarrow> properties govee_adapter" where
  "bare_adapter v =
     \<lparr>isInitialized = False, devices = Map.empty, http = bare_http, remote = v, sent = []\<rparr>"

definition two_adapter_manager :: "properties \<Rightarrow> properties govee_adapter light_manager" where
  "two_adapter_manager v =
     \<lparr>adapters = [(''govee:A'', govee_light_adapter (bare_adapter v)),
                  (''govee:B'', govee_light_adapter (lamp_adapter (\<lambda>c. True) v))],
      lm_isInitialized = False\<rparr>"

text \<open>The lamp of the scenarios (white, brightness 80), events that carry only their
  type, and the adapter the constructor builds over the lamp's manager with the default
  configuration.\<close>

definition white_lamp :: properties where
  "white_lamp = \<lparr>online = True, powerState = True, prop_brightness = Some 80,
                  prop_color = Some (255, 255, 255)\<rparr>"

text \<open>A vendor account with two lamps, \<open>X\<close> and \<open>Y\<close>, that accepts control requests
  for \<open>Y\<close> only and does not report single states; its adapter's manager, fresh and
  once it has been used.\<close>

definition twin_http :: "request \<Rightarrow> properties \<Rightarrow> response \<times> properties" where
  "twin_http req v =
     (case req of
        GetDevices \<Rightarrow>
          (Reply 200 (DevicesData [lamp_info v, (lamp_info v)\<lparr>di_device := ''Y''\<rparr>]), v)
      | PutControl dev mdl c \<Rightarrow> (if dev = ''Y'' then Reply 200 NoData else Rejected, v)
      | GetState dev mdl \<Rightarrow> (Rejected, v))"

definition twin_manager :: "properties \<Rightarrow> properties govee_adapter light_manager" where
  "twin_manager v =
     \<lparr>adapters = [(''govee:1'', govee_light_adapter
          \<lparr>isInitialized = False, devices = Map.empty, http = twin_http, remote = v, sent = []\<rparr>)],
      lm_isInitialized = False\<rparr>"

definition twin_ready :: "(string \<rightharpoonup> device) \<Rightarrow> request list \<Rightarrow> properties govee_adapter light_manager" where
  "twin_ready cache log =
     \<lparr>adapters = [(''govee:1'', govee_light_adapter
          \<lparr>isInitialized = True, devices = cache, http = twin_http, remote = white_lamp, sent = log\<rparr>)],
      lm_isInitialized = True\<rparr>"

text \<open>The same lamp in a mode in which it reports no colour, and a vendor that refuses
  to set a lamp to white.\<close>

definition dark_lamp :: properties where
  "dark_lamp = \<lparr>online = True, powerState = True, prop_brightness = Some 80, prop_color = None\<rparr>"

definition refuses_white :: "vendor_cmd \<Rightarrow> bool" where
  "refuses_white c = (c \<noteq> Color (255, 255, 255))"

definition plain_event :: "string \<Rightarrow> gamedin_event" where
  "plain_event evType =
     \<lparr>ev_type = evType, ev_playerId = None, ev_playerName = None, ev_matchId = None,
      ev_gameId = None, ev_timestamp = 0\<rparr>"

text \<open>Two effects for chat messages, which the defaults do not cover.\<close>

definition chat_dim_effect :: light_effect where
  "chat_dim_effect =
     \<lparr>eventType = ''chat:message'',
      command = \<lparr>ec_type = SetBrightness, ec_params = \<lparr>p_color = None, p_brightness = Some 10\<rparr>\<rparr>,
      condition = None, priority = None, duration = Some 1000, restorePreviousState = Some True\<rparr>"

definition chat_flash_effect :: light_effect where
  "chat_flash_effect =
     \<lparr>eventType = ''chat:message'',
      command = \<lparr>ec_type = SetColor, ec_params = \<lparr>p_color = Some ''#FF0000'', p_brightness = None\<rparr>\<rparr>,
      condition = Some (\<lambda>event. ev_playerId event = None), priority = Some 5, duration = None,
      restorePreviousState = None\<rparr>"

definition default_config :: gamedin_config where
  "default_config = \<lparr>defaultEffects = None, enableDefaultEffects = None\<rparr>"

definition lamp_dispatcher :: "(vendor_cmd \<Rightarrow> bool) \<Rightarrow> properties \<Rightarrow> properties govee_adapter gamedin_adapter" where
  "lamp_dispatcher accepts v = new_GameDinAdapter (lamp_manager accepts v) default_config"

text \<open>The lamp's manager before it is initialised, with the lamp already in the
  adapter's cache; and two \<open>player:join\<close> events handled at once: the second call starts
  while the first awaits its devices, both go on to their command before either command
  settles, then both commands settle and both calls end.\<close>

definition lamp_cached ::
  "(vendor_cmd \<Rightarrow> bool) \<Rightarrow> properties \<Rightarrow> request list \<Rightarrow> properties govee_adapter light_manager" where
  "lamp_cached accepts v log =
     \<lparr>adapters = [(''govee:1'', govee_light_adapter
          \<lparr>isInitialized = False, devices = [''X'' \<mapsto> mapToDevice (lamp_info v)],
           http = lamp_http accepts, remote = v, sent = log\<rparr>)],
      lm_isInitialized = False\<rparr>"

definition overlapping_joins :: "properties govee_adapter dispatch_action list" where
  "overlapping_joins =
     [HandleEvent (plain_event ''player:join''), HandleEvent (plain_event ''player:join''),
      Resume 0, Resume 1, Resume 0, Resume 1, Resume 0, Resume 0]"

section \<open>Specifications\<close>

text \<open>Every list of the registry is in descending order of priority.\<close>

definition effects_sorted :: "'s gamedin_adapter \<Rightarrow> bool" where
  "effects_sorted s \<longleftrightarrow> (\<forall>t. sorted (map (\<lambda>e. - effect_priority e) (effects_for s t)))"

text \<open>
  Selection as the specification words it: among the effects registered for the event
  type, in registration order, those whose condition is absent or holds; of these the
  first whose priority none of them exceeds.
\<close>

definition spec_select :: "light_effect list \<Rightarrow> gamedin_event \<Rightarrow> light_effect option" where
  "spec_select registered event =
     (let ms = filter (effect_matches event) registered
      in find (\<lambda>e. \<forall>e' \<in> set ms. effect_priority e' \<le> effect_priority e) ms)"

text \<open>
  The timer discipline of the dispatcher: no two pending timers belong to one device or
  share a handle; every pending timer is the one \<open>activeEffects\<close> holds for its device,
  its handle is older than the next fresh one, and if its effect restores, the device
  has a snapshot.
\<close>

definition timers_ok :: "'s gamedin_adapter \<Rightarrow> bool" where
  "timers_ok s \<longleftrightarrow>
     distinct (map t_deviceId (timers s)) \<and> distinct (map t_id (timers s)) \<and>
     (\<forall>t \<in> set (timers s).
        t_id t < next_timer s \<and> activeEffects s (t_deviceId t) = Some (t_id t) \<and>
        (restorePreviousState (t_effect t) = Some True \<longrightarrow> deviceStates s (t_deviceId t) \<noteq> None))"

text \<open>
  The same discipline under the event loop. \<open>one_timer_each\<close>: no two pending timers
  belong to one device, and every pending timer is the one \<open>activeEffects\<close> holds for its
  device. \<open>fresh_handles\<close>: no two pending timers share a handle, and every handle is
  older than the next fresh one. \<open>orderly\<close> adds what holds of the suspended tasks as
  long as \<open>handleEvent\<close> calls do not overlap: at most one of them belongs to
  \<open>handleEvent\<close>, and a device whose command is awaited (\<open>commanded\<close>) has no pending
  timer.
\<close>

definition one_timer_each :: "'s gamedin_adapter \<Rightarrow> bool" where
  "one_timer_each s \<longleftrightarrow>
     distinct (map t_deviceId (timers s)) \<and>
     (\<forall>t \<in> set (timers s). activeEffects s (t_deviceId t) = Some (t_id t))"

definition fresh_handles :: "'s gamedin_adapter \<Rightarrow> bool" where
  "fresh_handles s \<longleftrightarrow> distinct (map t_id (timers s)) \<and> (\<forall>t \<in> set (timers s). t_id t < next_timer s)"

fun commanded :: "dispatch_task \<Rightarrow> string option" where
  "commanded (AwaitCommand event rest dev effect res) = Some (dev_id dev)"
| "commanded _ = None"

definition orderly :: "dispatch_task list \<times> 's gamedin_adapter \<Rightarrow> bool" where
  "orderly c \<longleftrightarrow>
     one_timer_each (snd c) \<and> fresh_handles (snd c) \<and>
     length (filter in_handleEvent (fst c)) \<le> 1 \<and>
     (\<forall>task \<in> set (fst c). \<forall>t \<in> set (timers (snd c)). commanded task \<noteq> Some (t_deviceId t))"

text \<open>
  Restoration as the specification words it. \<open>restore_commands\<close> are the commands for
  the fields present in a snapshot, colour first. \<open>restore_outcome\<close> is how reissuing
  them through the manager \<open>m\<close> ends: the first error, or success. \<open>restore_issued\<close> are
  the commands that go out before the first error.
\<close>

definition restore_commands :: "string \<Rightarrow> saved_state \<Rightarrow> light_command list" where
  "restore_commands deviceId st =
     (case ss_color st of None \<Rightarrow> [] | Some c \<Rightarrow> [setColor_command deviceId c]) @
     (case ss_brightness st of None \<Rightarrow> [] | Some b \<Rightarrow> [setBrightness_command deviceId b])"

definition restore_outcome :: "string \<Rightarrow> saved_state \<Rightarrow> 's light_manager \<Rightarrow> error + unit" where
  "restore_outcome deviceId st m =
     (case ss_color st of
        None \<Rightarrow>
          (case ss_brightness st of None \<Rightarrow> Inr () | Some b \<Rightarrow> fst (lm_setBrightness deviceId b m))
      | Some c \<Rightarrow>
          (case lm_setColor deviceId c m of
             (Inl e, m1) \<Rightarrow> Inl e
           | (Inr u, m1) \<Rightarrow>
               (case ss_brightness st of
                  None \<Rightarrow> Inr ()
                | Some b \<Rightarrow> fst (lm_setBrightness deviceId b m1))))"

definition restore_issued :: "string \<Rightarrow> saved_state \<Rightarrow> 's light_manager \<Rightarrow> light_command list" where
  "restore_issued deviceId st m =
     (case ss_color st of
        None \<Rightarrow> restore_commands deviceId st
      | Some c \<Rightarrow>
          (case fst (lm_setColor deviceId c m) of
             Inl e \<Rightarrow> [setColor_command deviceId c]
           | Inr u \<Rightarrow> restore_commands deviceId st))"

text \<open>
  What the Light Manager asks of an adapter: \<open>recognises\<close> when the adapter's \<open>getDevice\<close>
  returns a device for the id, \<open>executes\<close> when its \<open>executeCommand\<close> returns without
  throwing. \<open>initialized_manager\<close> is the manager after the initialisation that
  \<open>executeCommand\<close> starts with, \<open>after_lookup\<close> the manager after that and the device
  lookup, when the loop over the adapters begins.
\<close>

definition recognises :: "string \<Rightarrow> 's light_adapter \<Rightarrow> bool" where
  "recognises deviceId ad =
     (case fst (call_getDevice deviceId ad) of Inr (Some d) \<Rightarrow> True | _ \<Rightarrow> False)"

definition executes :: "light_command \<Rightarrow> 's light_adapter \<Rightarrow> bool" where
  "executes cmd ad = (case fst (call_executeCommand cmd ad) of Inr u \<Rightarrow> True | Inl e \<Rightarrow> False)"

definition initialized_manager :: "'s light_manager \<Rightarrow> 's light_manager" where
  "initialized_manager m = (if \<not> lm_isInitialized m then lm_initialize m else m)"

definition after_lookup :: "light_command \<Rightarrow> 's light_manager \<Rightarrow> 's light_manager" where
  "after_lookup cmd m = snd (lm_getDevice (cmd_deviceId cmd) (initialized_manager m))"

text \<open>The steps a suspended tick still has to await, and the discipline of the sync
  loop: at most one tick is suspended, and the flag is set exactly while one is.\<close>

fun steps_left :: "sync_step \<Rightarrow> nat" where
  "steps_left SyncProfileFromDivina = 3"
| "steps_left SyncGameStateFromGameDin = 2"
| "steps_left ApplyPendingUpdates = 1"

definition sync_ok :: "sync_step list \<times> profile_sync \<Rightarrow> bool" where
  "sync_ok st \<longleftrightarrow> length (fst st) \<le> 1 \<and> (isSyncing (snd st) \<longleftrightarrow> fst st \<noteq> [])"

section \<open>Evaluation rules\<close>

declare hex_digits.simps [simp del]

lemma hex_digits_small: "n < 16 \<Longrightarrow> hex_digits n = [digit_char n]"
  by (subst hex_digits.simps) simp

lemma hex_digits_large:
  "\<not> n < 16 \<Longrightarrow> hex_digits n = hex_digits (n div 16) @ [digit_char (n mod 16)]"
  by (subst hex_digits.simps) simp

lemmas color_defs = rgbToHex_def shl32_def toString16_def digit_char_def hex_digits_small
  hex_digits_large hexToRgb_def parseInt16_def strip_0x_def hex_digit_def is_space_def

lemmas govee_defs = http_call_def mapToDevice_def updateDeviceCache_def updateDevice_def
  getDevices_def getDevice_def initialize_def sendDeviceCommand_def setPowerState_def
  setColor_def setBrightness_def refreshDeviceState_def runCommand_def executeCommand_def

lemmas manager_defs = call_initialize_def call_getDevices_def call_getDevice_def
  call_executeCommand_def govee_light_adapter_def lm_initialize_def lm_getDevices_def
  lm_getDevice_def lm_executeCommand_def setColor_command_def setBrightness_command_def
  lm_setColor_def lm_setBrightness_def

lemmas registry_defs = effect_priority_def sort_effects_def addEffect_def removeEffect_def
  effects_for_def registerEffects_def new_GameDinAdapter_def DEFAULT_EFFECTS_def
  player_join_effect_def match_victory_effect_def match_defeat_effect_def level_up_effect_def
  default_config_def

lemmas dispatcher_defs = call_manager_def clearDeviceEffect_def restoreDeviceState_def
  effect_matches_def select_effect_def effect_light_command_def schedule_restoration_def
  store_state_def apply_effect_def applyEffectsToDevice_def handleEvent_def fire_timer_def
  dispose_def gd_initialize_def

lemmas lamp_defs = lamp_info_def lamp_http_def lamp_adapter_def lamp_manager_def white_lamp_def
  plain_event_def lamp_dispatcher_def chat_dim_effect_def chat_flash_effect_def bare_http_def
  bare_adapter_def two_adapter_manager_def lamp_ready_def dark_lamp_def refuses_white_def
  twin_http_def twin_manager_def twin_ready_def

section \<open>Lemmas on the effect registry\<close>

lemma sort_effects_snoc: "sort_effects (sort_effects xs @ [e]) = sort_effects (xs @ [e])"
  unfolding sort_effects_def
proof (rule properties_for_sort_key)
  let ?f = "\<lambda>e. - effect_priority e"
  show "mset (sort_key ?f (xs @ [e])) = mset (sort_key ?f xs @ [e])" by simp
  show "sorted (map ?f (sort_key ?f (xs @ [e])))" by (rule sorted_sort_key)
  fix k
  have "filter (\<lambda>x. ?f k = ?f x) (sort_key ?f (xs @ [e])) = filter (\<lambda>x. ?f k = ?f x) (xs @ [e])"
    using sort_key_stable[of ?f "?f k" "xs @ [e]"] by (simp add: eq_commute)
  moreover have "filter (\<lambda>x. ?f k = ?f x) (sort_key ?f xs @ [e]) = filter (\<lambda>x. ?f k = ?f x) (xs @ [e])"
    using sort_key_stable[of ?f "?f k" xs] by (simp add: eq_commute)
  ultimately show "filter (\<lambda>x. ?f k = ?f x) (sort_key ?f (xs @ [e])) =
      filter (\<lambda>x. ?f k = ?f x) (sort_key ?f xs @ [e])"
    by simp
qed

lemma registerEffects_snoc: "registerEffects (es @ [e]) s = addEffect e (registerEffects es s)"
  by (simp add: registerEffects_def)

lemma effects_for_addEffect:
  "effects_for (addEffect e s) t =
     (if eventType e = t then sort_effects (effects_for s t @ [e]) else effects_for s t)"
  by (simp add: addEffect_def effects_for_def Let_def)

lemma effects_for_registerEffects:
  "effects_for (registerEffects es s) t =
     (if filter (\<lambda>e. eventType e = t) es = [] then effects_for s t
      else sort_effects (effects_for s t @ filter (\<lambda>e. eventType e = t) es))"
proof (induction es rule: rev_induct)
  case Nil
  then show ?case by (simp add: registerEffects_def)
next
  case (snoc e es)
  show ?case
  proof (cases "eventType e = t")
    case False
    then show ?thesis using snoc by (simp add: registerEffects_snoc effects_for_addEffect)
  next
    case True
    then show ?thesis using snoc
      by (cases "filter (\<lambda>e. eventType e = t) es = []")
        (simp_all add: registerEffects_snoc effects_for_addEffect sort_effects_snoc)
  qed
qed

lemma find_filter_hd: "find P xs = (case filter P xs of [] \<Rightarrow> None | x # _ \<Rightarrow> Some x)"
  by (induction xs) auto

lemma find_least_key_stable:
  assumes "ms \<noteq> []"
  shows "find (\<lambda>e. \<forall>e' \<in> set ms. f e \<le> f e') ms = Some (hd (sort_key f ms))"
proof -
  let ?ys = "sort_key f ms"
  have "?ys \<noteq> []" using assms by (metis length_0_conv length_sort)
  then obtain y ys where ys: "?ys = y # ys" by (cases ?ys) auto
  have srt: "sorted (map f ?ys)" by (rule sorted_sort_key)
  have ymin: "\<forall>e' \<in> set ms. f y \<le> f e'"
  proof
    fix e' assume "e' \<in> set ms"
    then have "e' \<in> set ?ys" by simp
    then show "f y \<le> f e'" using srt ys by auto
  qed
  have yin: "y \<in> set ms" using ys by (metis list.set_intros(1) set_sort)
  have "filter (\<lambda>e. \<forall>e' \<in> set ms. f e \<le> f e') ms = filter (\<lambda>x. f x = f y) ms"
  proof (rule filter_cong[OF refl])
    fix x assume "x \<in> set ms"
    then show "(\<forall>e' \<in> set ms. f x \<le> f e') = (f x = f y)"
      using ymin yin by (auto intro: antisym)
  qed
  also have "\<dots> = filter (\<lambda>x. f x = f y) ?ys" by (simp add: sort_key_stable)
  also have "\<dots> = y # filter (\<lambda>x. f x = f y) ys" using ys by simp
  finally show ?thesis using ys by (simp add: find_filter_hd)
qed

lemma select_sorted_spec: "select_effect (sort_effects es) event = spec_select es event"
proof (cases "filter (effect_matches event) es = []")
  case True
  then show ?thesis
    by (simp add: select_effect_def spec_select_def sort_effects_def find_filter_hd filter_sort)
next
  case False
  let ?ms = "filter (effect_matches event) es"
  let ?f = "\<lambda>e. - effect_priority e"
  have "find (\<lambda>e. \<forall>e' \<in> set ?ms. ?f e \<le> ?f e') ?ms = Some (hd (sort_key ?f ?ms))"
    by (rule find_least_key_stable[OF False])
  moreover have "sort_key ?f ?ms \<noteq> []" using False by (metis length_0_conv length_sort)
  ultimately show ?thesis
    by (simp add: select_effect_def spec_select_def sort_effects_def
        find_filter_hd[of _ "sort_key _ _"] filter_sort Let_def split: list.splits)
qed

lemma select_registered_spec:
  assumes "effects s t = None"
  shows "select_effect (effects_for (registerEffects es s) t) event =
         spec_select (filter (\<lambda>e. eventType e = t) es) event"
proof -
  have "effects_for s t = []" using assms by (simp add: effects_for_def)
  then show ?thesis
    by (simp add: effects_for_registerEffects select_sorted_spec)
      (simp add: select_effect_def spec_select_def)
qed

lemma sorted_remove_nth:
  "sorted (map f xs) \<Longrightarrow> sorted (map f (take n xs @ drop (Suc n) xs))"
proof (induction xs arbitrary: n)
  case Nil
  then show ?case by simp
next
  case (Cons x xs)
  show ?case
  proof (cases n)
    case 0
    then show ?thesis using Cons.prems by simp
  next
    case (Suc m)
    have "sorted (map f (take m xs @ drop (Suc m) xs))" using Cons by simp
    moreover have "\<forall>y \<in> set (take m xs @ drop (Suc m) xs). f x \<le> f y"
      using Cons.prems by (auto dest: in_set_takeD in_set_dropD)
    ultimately show ?thesis using Suc by auto
  qed
qed

lemma find_sorted_least:
  "sorted (map f xs) \<Longrightarrow> find P xs = Some e \<Longrightarrow> P e \<and> (\<forall>e' \<in> set xs. P e' \<longrightarrow> f e \<le> f e')"
  by (induction xs) (auto split: if_splits)

lemma effects_sorted_addEffect: "effects_sorted s \<Longrightarrow> effects_sorted (addEffect e s)"
  by (simp add: effects_sorted_def effects_for_addEffect sort_effects_def)

lemma effects_sorted_removeEffect: "effects_sorted s \<Longrightarrow> effects_sorted (removeEffect t i s)"
  unfolding effects_sorted_def
proof
  fix t'
  assume a: "\<forall>t. sorted (map (\<lambda>e. - effect_priority e) (effects_for s t))"
  show "sorted (map (\<lambda>e. - effect_priority e) (effects_for (removeEffect t i s) t'))"
  proof (cases "effects s t")
    case None
    then show ?thesis using a by (simp add: removeEffect_def)
  next
    case (Some es)
    then have "sorted (map (\<lambda>e. - effect_priority e) es)" using a[rule_format, of t]
      by (simp add: effects_for_def)
    then have "sorted (map (\<lambda>e. - effect_priority e) (take (nat i) es @ drop (Suc (nat i)) es))"
      by (rule sorted_remove_nth)
    then show ?thesis using Some a[rule_format, of t']
      by (simp add: removeEffect_def effects_for_def)
  qed
qed

lemma effects_apply_effect [simp]: "effects (apply_effect dev e s) = effects s"
  by (simp add: apply_effect_def Let_def call_manager_def split_beta clearDeviceEffect_def
      store_state_def schedule_restoration_def split: sum.splits option.splits)

lemma effects_applyEffectsToDevice [simp]: "effects (applyEffectsToDevice dev effs ev s) = effects s"
  by (simp add: applyEffectsToDevice_def split: option.splits)

lemma effects_handleEvent [simp]: "effects (handleEvent ev s) = effects s"
proof -
  have "effects (foldl (\<lambda>s1 dev. applyEffectsToDevice dev effs ev s1) s0 devs) = effects s0"
    for effs devs and s0 :: "'a gamedin_adapter"
    by (induction devs arbitrary: s0) simp_all
  then show ?thesis by (simp add: handleEvent_def Let_def split_beta)
qed

lemma effects_restoreDeviceState [simp]: "effects (restoreDeviceState d s) = effects s"
  by (simp add: restoreDeviceState_def call_manager_def split_beta Let_def
      split: option.splits sum.splits)

lemma effects_clearDeviceEffect [simp]: "effects (clearDeviceEffect d s) = effects s"
  by (simp add: clearDeviceEffect_def split: option.splits)

lemma effects_fire_timer [simp]: "effects (fire_timer k s) = effects s"
  by (simp add: fire_timer_def Let_def split: option.splits)

lemma effects_sorted_cong: "effects s' = effects s \<Longrightarrow> effects_sorted s' = effects_sorted s"
  by (simp add: effects_sorted_def effects_for_def)

lemma effects_sorted_new: "effects_sorted (new_GameDinAdapter lm cfg)"
proof -
  have "effects_sorted (registerEffects es s)" if "effects_sorted s" for es and s :: "'a gamedin_adapter"
    unfolding registerEffects_def using that
    by (induction es arbitrary: s) (simp_all add: effects_sorted_addEffect)
  moreover have "effects_sorted \<lparr>lightManager = lm, effects = Map.empty, deviceStates = Map.empty,
                 activeEffects = Map.empty, timers = [], next_timer = 0, issued = [],
                 error_log = []\<rparr>"
    by (simp add: effects_sorted_def effects_for_def)
  ultimately show ?thesis by (simp add: new_GameDinAdapter_def Let_def)
qed

lemma reachable_effects_sorted: "reachable s \<Longrightarrow> effects_sorted s"
proof (induction rule: reachable.induct)
  case (r_new lm config) show ?case by (rule effects_sorted_new)
next
  case (r_initialize s) then show ?case by (simp add: gd_initialize_def effects_sorted_cong[of "s\<lparr>lightManager := _\<rparr>" s])
next
  case (r_addEffect s effect) from r_addEffect.IH show ?case by (rule effects_sorted_addEffect)
next
  case (r_removeEffect s evType effectIndex)
  from r_removeEffect.IH show ?case by (rule effects_sorted_removeEffect)
next
  case (r_handleEvent s event) then show ?case by (simp add: effects_sorted_cong[of "handleEvent event s" s])
next
  case (r_apply_effect s dev effect)
  then show ?case by (simp add: effects_sorted_cong[of "apply_effect dev effect s" s])
next
  case (r_fire s timeout) then show ?case by (simp add: effects_sorted_cong[of "fire_timer timeout s" s])
next
  case (r_dispose s) then show ?case by (simp add: dispose_def effects_sorted_cong[of "s\<lparr>timers := _, activeEffects := _, deviceStates := _\<rparr>" s])
next
  case (r_manager s m) then show ?case by (simp add: effects_sorted_cong[of "s\<lparr>lightManager := m\<rparr>" s])
qed

lemma select_after_registering:
  assumes "effects_sorted s"
  shows "select_effect (effects_for (registerEffects es s) t) event =
         spec_select (effects_for s t @ filter (\<lambda>e. eventType e = t) es) event"
proof (cases "filter (\<lambda>e. eventType e = t) es = []")
  case True
  have "sort_effects (effects_for s t) = effects_for s t"
    using assms by (simp add: effects_sorted_def sort_effects_def sort_key_id_if_sorted)
  then have "select_effect (effects_for s t) event = spec_select (effects_for s t) event"
    using select_sorted_spec[of "effects_for s t" event] by simp
  then show ?thesis using True by (simp add: effects_for_registerEffects)
next
  case False
  then show ?thesis by (simp add: effects_for_registerEffects select_sorted_spec)
qed

section \<open>Claims on the effect registry\<close>

text \<open>
  C2. On an event, for each device the dispatcher takes the first effect of the event
  type's list whose condition is absent or holds (\<open>applyEffectsToDevice\<close> applies what
  \<open>select_effect\<close> finds, and nothing when it finds none). After any registrations on a
  reachable adapter that list is the stable descending sort of the registration
  sequence, so the effect found is the one \<open>spec_select\<close> describes: of the matching
  effects the first registered among those of greatest priority. In every reachable
  state the effect found matches and no matching effect of the list has a greater
  priority; in particular, of two matching effects with priorities p1 > p2 registered in
  either order, the one with p1 is selected.
\<close>

theorem dispatcher_selects_by_priority:
  fixes s :: "'s gamedin_adapter"
  shows
  "(reachable s \<longrightarrow>
      select_effect (effects_for (registerEffects es s) t) event =
      spec_select (effects_for s t @ filter (\<lambda>e. eventType e = t) es) event) \<and>
   (reachable s \<and> select_effect (effects_for s t) event = Some e \<longrightarrow>
      effect_matches event e \<and>
      (\<forall>e' \<in> set (effects_for s t). effect_matches event e' \<longrightarrow> effect_priority e' \<le> effect_priority e)) \<and>
   (effects s t = None \<and> eventType e1 = t \<and> eventType e2 = t \<and>
    effect_matches event e1 \<and> effect_matches event e2 \<and> effect_priority e2 < effect_priority e1 \<longrightarrow>
      select_effect (effects_for (registerEffects [e1, e2] s) t) event = Some e1 \<and>
      select_effect (effects_for (registerEffects [e2, e1] s) t) event = Some e1) \<and>
   applyEffectsToDevice dev (effects_for s t) event s =
     (case select_effect (effects_for s t) event of None \<Rightarrow> s | Some e \<Rightarrow> apply_effect dev e s)"
proof (intro conjI impI)
  assume "reachable s"
  then have "effects_sorted s" by (rule reachable_effects_sorted)
  then show "select_effect (effects_for (registerEffects es s) t) event =
      spec_select (effects_for s t @ filter (\<lambda>e. eventType e = t) es) event"
    by (rule select_after_registering)
next
  assume a: "reachable s \<and> select_effect (effects_for s t) event = Some e"
  then have "sorted (map (\<lambda>e. - effect_priority e) (effects_for s t))"
    using reachable_effects_sorted by (auto simp: effects_sorted_def)
  from find_sorted_least[OF this, of "effect_matches event" e] a
  show "effect_matches event e" 
    and "\<forall>e' \<in> set (effects_for s t). effect_matches event e' \<longrightarrow> effect_priority e' \<le> effect_priority e"
    by (auto simp: select_effect_def)
next
  assume a: "effects s t = None \<and> eventType e1 = t \<and> eventType e2 = t \<and>
    effect_matches event e1 \<and> effect_matches event e2 \<and> effect_priority e2 < effect_priority e1"
  then show "select_effect (effects_for (registerEffects [e1, e2] s) t) event = Some e1"
    by (simp add: select_registered_spec spec_select_def)
  from a show "select_effect (effects_for (registerEffects [e2, e1] s) t) event = Some e1"
    by (simp add: select_registered_spec spec_select_def)
next
  show "applyEffectsToDevice dev (effects_for s t) event s =
     (case select_effect (effects_for s t) event of None \<Rightarrow> s | Some e \<Rightarrow> apply_effect dev e s)"
    by (simp add: applyEffectsToDevice_def)
qed

lemma reachable_lamp_dispatcher: "reachable (lamp_dispatcher accepts v)"
  unfolding lamp_dispatcher_def by (rule r_new)

lemma lamp_dispatcher_effects:
  "effects (lamp_dispatcher accepts v) ''player:join'' = Some [player_join_effect]"
  "effects (lamp_dispatcher accepts v) ''chat:message'' = None"
  by (simp_all add: lamp_dispatcher_def registry_defs)

theorem dispatcher_selects_by_priority_witness:
  "reachable (lamp_dispatcher (\<lambda>c. True) white_lamp) \<and>
   select_effect (effects_for (lamp_dispatcher (\<lambda>c. True) white_lamp) ''player:join'')
     (plain_event ''player:join'') = Some player_join_effect \<and>
   effect_matches (plain_event ''player:join'') player_join_effect \<and>
   effects (lamp_dispatcher (\<lambda>c. True) white_lamp) ''chat:message'' = None \<and>
   effect_priority chat_dim_effect < effect_priority chat_flash_effect \<and>
   select_effect (effects_for (registerEffects [chat_flash_effect, chat_dim_effect]
       (lamp_dispatcher (\<lambda>c. True) white_lamp)) ''chat:message'') (plain_event ''chat:message'')
     = Some chat_flash_effect \<and>
   select_effect (effects_for (registerEffects [chat_dim_effect, chat_flash_effect]
       (lamp_dispatcher (\<lambda>c. True) white_lamp)) ''chat:message'') (plain_event ''chat:message'')
     = Some chat_flash_effect \<and>
   spec_select [chat_dim_effect, chat_flash_effect] (plain_event ''chat:message'') = Some chat_flash_effect"
proof -
  let ?S = "lamp_dispatcher (\<lambda>c. True) white_lamp"
  have r: "reachable ?S" by (rule reachable_lamp_dispatcher)
  have sel: "select_effect (effects_for ?S ''player:join'') (plain_event ''player:join'') = Some player_join_effect"
    by (simp add: effects_for_def lamp_dispatcher_effects select_effect_def effect_matches_def
        player_join_effect_def)
  have none: "effects ?S ''chat:message'' = None" by (rule lamp_dispatcher_effects)
  have m1: "effect_matches (plain_event ''chat:message'') chat_flash_effect"
    and m2: "effect_matches (plain_event ''chat:message'') chat_dim_effect"
    and ty: "eventType chat_flash_effect = ''chat:message''" "eventType chat_dim_effect = ''chat:message''"
    and pr: "effect_priority chat_dim_effect < effect_priority chat_flash_effect"
    by (simp_all add: effect_matches_def chat_flash_effect_def chat_dim_effect_def plain_event_def
        effect_priority_def)
  have spec: "spec_select (effects_for ?S ''chat:message'' @
       filter (\<lambda>e. eventType e = ''chat:message'') [chat_dim_effect, chat_flash_effect])
       (plain_event ''chat:message'') = spec_select [chat_dim_effect, chat_flash_effect] (plain_event ''chat:message'')"
    using none ty by (simp add: effects_for_def)
  have sv: "spec_select [chat_dim_effect, chat_flash_effect] (plain_event ''chat:message'') = Some chat_flash_effect"
    using m1 m2 pr by (simp add: spec_select_def)
  show ?thesis
    using dispatcher_selects_by_priority[of ?S "[chat_dim_effect, chat_flash_effect]" "''player:join''"
        "plain_event ''player:join''" player_join_effect]
      dispatcher_selects_by_priority[of ?S "[chat_dim_effect, chat_flash_effect]" "''chat:message''"
        "plain_event ''chat:message''" _ chat_flash_effect chat_dim_effect]
      r sel none m1 m2 ty pr spec sv
    by simp
qed

text \<open>
  C8 (amended). For an index \<open>i\<close> of the event type's current list
  (\<open>0 \<le> i < length\<close>), \<open>removeEffect\<close> removes exactly the effect at position \<open>i\<close>: the
  effects before it keep their positions, the effects after it move up by one, the
  list is shorter by exactly 1, and the lists of other event types are untouched. For
  any other index, or an event type without a list, \<open>removeEffect\<close> changes nothing.
\<close>

theorem removeEffect_removes_position:
  "(0 \<le> i \<and> i < int (length (effects_for s evType)) \<longrightarrow>
      effects_for (removeEffect evType i s) evType =
        take (nat i) (effects_for s evType) @ drop (Suc (nat i)) (effects_for s evType) \<and>
      length (effects_for (removeEffect evType i s) evType) = length (effects_for s evType) - 1 \<and>
      (\<forall>j. j < nat i \<longrightarrow> effects_for (removeEffect evType i s) evType ! j = effects_for s evType ! j) \<and>
      (\<forall>j. nat i \<le> j \<and> j < length (effects_for s evType) - 1 \<longrightarrow>
         effects_for (removeEffect evType i s) evType ! j = effects_for s evType ! Suc j) \<and>
      (\<forall>t. t \<noteq> evType \<longrightarrow> effects_for (removeEffect evType i s) t = effects_for s t)) \<and>
   (\<not> (0 \<le> i \<and> i < int (length (effects_for s evType))) \<longrightarrow> removeEffect evType i s = s)"
proof (intro conjI impI allI)
  assume r: "0 \<le> i \<and> i < int (length (effects_for s evType))"
  then obtain es where es: "effects s evType = Some es" and len: "nat i < length es"
    by (cases "effects s evType") (auto simp: effects_for_def)
  have eff: "effects_for s evType = es" using es by (simp add: effects_for_def)
  show eq: "effects_for (removeEffect evType i s) evType =
        take (nat i) (effects_for s evType) @ drop (Suc (nat i)) (effects_for s evType)"
    using r es by (simp add: removeEffect_def effects_for_def)
  show "length (effects_for (removeEffect evType i s) evType) = length (effects_for s evType) - 1"
    using len by (simp add: eq eff)
  show "effects_for (removeEffect evType i s) evType ! j = effects_for s evType ! j" if "j < nat i" for j
    using that len by (simp add: eq eff nth_append)
  show "effects_for (removeEffect evType i s) evType ! j = effects_for s evType ! Suc j"
    if "nat i \<le> j \<and> j < length (effects_for s evType) - 1" for j
    using that len by (simp add: eq eff nth_append min_def)
  show "effects_for (removeEffect evType i s) t = effects_for s t" if "t \<noteq> evType" for t
    using that r es by (simp add: removeEffect_def effects_for_def)
next
  assume "\<not> (0 \<le> i \<and> i < int (length (effects_for s evType)))"
  then show "removeEffect evType i s = s"
    by (auto simp: removeEffect_def effects_for_def split: option.splits)
qed

theorem removeEffect_removes_position_witness:
  "0 \<le> (0::int) \<and> 0 < int (length (effects_for (lamp_dispatcher (\<lambda>c. True) white_lamp) ''player:join'')) \<and>
   effects_for (removeEffect ''player:join'' 0 (lamp_dispatcher (\<lambda>c. True) white_lamp)) ''player:join'' = [] \<and>
   effects_for (removeEffect ''player:join'' 0 (lamp_dispatcher (\<lambda>c. True) white_lamp)) ''match:victory''
     = [match_victory_effect] \<and>
   \<not> (0 \<le> (-1::int) \<and> -1 < int (length (effects_for (lamp_dispatcher (\<lambda>c. True) white_lamp) ''player:join''))) \<and>
   removeEffect ''player:join'' (-1) (lamp_dispatcher (\<lambda>c. True) white_lamp) = lamp_dispatcher (\<lambda>c. True) white_lamp"
proof -
  let ?S = "lamp_dispatcher (\<lambda>c. True) white_lamp"
  have a: "effects_for ?S ''player:join'' = [player_join_effect]"
    by (simp add: effects_for_def lamp_dispatcher_effects)
  have b: "effects_for ?S ''match:victory'' = [match_victory_effect]"
    by (simp add: lamp_dispatcher_def registry_defs)
  show ?thesis
    using removeEffect_removes_position[of 0 ?S "''player:join''"]
      removeEffect_removes_position[of "-1" ?S "''player:join''"] a b
    by simp
qed

text \<open>The claim as stated, for every index: index 1 of a list of length 1 removes nothing.\<close>

theorem removeEffect_out_of_range_counterexample:
  "length (effects_for (lamp_dispatcher (\<lambda>c. True) white_lamp) ''player:join'') = 1 \<and>
   length (effects_for (removeEffect ''player:join'' 1 (lamp_dispatcher (\<lambda>c. True) white_lamp)) ''player:join'') = 1 \<and>
   length (effects_for (removeEffect ''player:join'' 1 (lamp_dispatcher (\<lambda>c. True) white_lamp)) ''player:join'')
     \<noteq> length (effects_for (lamp_dispatcher (\<lambda>c. True) white_lamp) ''player:join'') - 1"
  by (simp add: effects_for_def lamp_dispatcher_effects removeEffect_def)

section \<open>Lemmas on the Govee adapter\<close>

lemma http_call_eq:
  "http_call req a =
     (fst (http a req (remote a)), a\<lparr>remote := snd (http a req (remote a)), sent := sent a @ [req]\<rparr>)"
  by (simp add: http_call_def split_beta)

lemma sendDeviceCommand_sent:
  "sent (snd (sendDeviceCommand dev vc a)) = sent a @ [PutControl (dev_address dev) (dev_model dev) vc]"
  by (simp add: sendDeviceCommand_def http_call_eq split: response.splits)

lemma sendDeviceCommand_devices:
  "devices (snd (sendDeviceCommand dev vc a)) = devices a"
  by (simp add: sendDeviceCommand_def http_call_eq split: response.splits)

lemma sendDeviceCommand_accepted:
  "fst (http a (PutControl (dev_address dev) (dev_model dev) vc) (remote a)) = Reply 200 body \<Longrightarrow>
   fst (sendDeviceCommand dev vc a) = Inr ()"
  by (simp add: sendDeviceCommand_def http_call_eq)

lemma sendDeviceCommand_error:
  "fst (sendDeviceCommand dev vc a) = Inl e \<Longrightarrow>
   e = AdapterError COMMAND_SEND_FAILED (Some TransportError) \<or>
   e = AdapterError COMMAND_SEND_FAILED (Some (AdapterError COMMAND_FAILED None))"
  by (auto simp: sendDeviceCommand_def http_call_eq split: response.splits if_splits)

lemma setBrightness_unfold:
  "setBrightness dev b a =
     (case fst (sendDeviceCommand dev (Brightness (max 0 (min 100 b))) a) of
        Inl e \<Rightarrow> (Inl e, snd (sendDeviceCommand dev (Brightness (max 0 (min 100 b))) a))
      | Inr _ \<Rightarrow> (Inr (), updateDevice (dev_id dev) (\<lambda>d. d\<lparr>dev_brightness := Some (max 0 (min 100 b))\<rparr>)
                          (snd (sendDeviceCommand dev (Brightness (max 0 (min 100 b))) a))))"
  by (simp add: setBrightness_def Let_def split: prod.splits sum.splits)

lemma updateDevice_sent [simp]: "sent (updateDevice k upd a) = sent a"
  by (simp add: updateDevice_def split: option.splits)

lemma updateDevice_devices:
  "devices a k = Some d \<Longrightarrow> devices (updateDevice k upd a) k = Some (upd d)"
  by (simp add: updateDevice_def)

lemma setBrightness_sent:
  "sent (snd (setBrightness dev b a)) =
     sent a @ [PutControl (dev_address dev) (dev_model dev) (Brightness (max 0 (min 100 b)))]"
  by (simp add: setBrightness_unfold sendDeviceCommand_sent split: sum.splits)

lemma setBrightness_accepted:
  assumes "fst (http a (PutControl (dev_address dev) (dev_model dev) (Brightness (max 0 (min 100 b)))) (remote a))
           = Reply 200 body"
    and "devices a (dev_id dev) = Some d"
  shows "fst (setBrightness dev b a) = Inr ()"
    and "devices (snd (setBrightness dev b a)) (dev_id dev) = Some (d\<lparr>dev_brightness := Some (max 0 (min 100 b))\<rparr>)"
  using sendDeviceCommand_accepted[OF assms(1)] assms(2)
  by (simp_all add: setBrightness_unfold updateDevice_devices sendDeviceCommand_devices)

lemma setBrightness_error:
  "fst (setBrightness dev b a) = Inl e \<Longrightarrow>
   e = AdapterError COMMAND_SEND_FAILED (Some TransportError) \<or>
   e = AdapterError COMMAND_SEND_FAILED (Some (AdapterError COMMAND_FAILED None))"
  using sendDeviceCommand_error[of dev "Brightness (max 0 (min 100 b))" a e]
  by (simp add: setBrightness_unfold split: sum.splits)

lemma refreshDeviceState_sent:
  "sent (refreshDeviceState dev a) = sent a @ [GetState (dev_address dev) (dev_model dev)]"
  by (simp add: refreshDeviceState_def http_call_eq split: response.splits payload.splits)

lemma executeCommand_setBrightness:
  assumes "isInitialized a" and "devices a deviceId = Some dev"
  shows "executeCommand (setBrightness_command deviceId b) a =
     (case fst (setBrightness dev b a) of
        Inl e \<Rightarrow> (Inl (AdapterError COMMAND_EXECUTION_FAILED (Some e)), snd (setBrightness dev b a))
      | Inr _ \<Rightarrow> (Inr (), refreshDeviceState dev (snd (setBrightness dev b a))))"
  using assms
  by (simp add: executeCommand_def runCommand_def setBrightness_command_def split: prod.splits sum.splits)


lemma refreshDeviceState_devices:
  "devices (refreshDeviceState dev a) (dev_id dev) =
     (case fst (http a (GetState (dev_address dev) (dev_model dev)) (remote a)) of
        Reply code (StateData st) \<Rightarrow>
          if code = 200
          then map_option (\<lambda>d. d\<lparr>dev_isOn := powerState st, dev_brightness := prop_brightness st,
                                 dev_color := map_option rgbToHex (prop_color st)\<rparr>)
                 (devices a (dev_id dev))
          else devices a (dev_id dev)
      | _ \<Rightarrow> devices a (dev_id dev))"
  by (simp add: refreshDeviceState_def http_call_eq updateDevice_def
      split: response.splits payload.splits option.splits)

lemma getDevices_flag:
  "getDevices (a\<lparr>isInitialized := flag\<rparr>) = (fst (getDevices a), (snd (getDevices a))\<lparr>isInitialized := flag\<rparr>)"
  by (simp add: getDevices_def http_call_eq updateDeviceCache_def Let_def
      split: response.splits payload.splits)

lemma getDevices_ok:
  "http a GetDevices (remote a) = (Reply 200 (DevicesData infos), v) \<Longrightarrow>
   fst (getDevices a) = Inr (map mapToDevice infos)"
  by (simp add: getDevices_def http_call_eq Let_def)

lemma getDevices_error:
  "fst (getDevices a) = Inl e \<Longrightarrow> \<exists>cause. e = AdapterError DEVICE_FETCH_FAILED cause"
  by (auto simp: getDevices_def http_call_eq Let_def split: response.splits payload.splits if_splits)

section \<open>Claims on the Govee adapter\<close>

text \<open>
  C7. Whatever the brightness \<open>b\<close>, \<open>setBrightness\<close> sends the clamped value
  \<open>max 0 (min 100 b)\<close> to the vendor and fails only when the sending fails, never for
  the range of \<open>b\<close>; when the vendor accepts, the device's cached brightness becomes the
  clamped value. \<open>executeCommand\<close> on an initialised adapter that has the device runs
  exactly this for a \<open>setBrightness\<close> command, and afterwards refreshes the device
  from the vendor (the cache then holds the clamped value unless the vendor answers the
  refresh with code 200, in which case it holds what the vendor reports). With
  brightness 150 the value sent and cached is 100.
\<close>

theorem setBrightness_sends_and_caches_clamped:
  "sent (snd (setBrightness dev b a)) =
     sent a @ [PutControl (dev_address dev) (dev_model dev) (Brightness (max 0 (min 100 b)))] \<and>
   (\<forall>e. fst (setBrightness dev b a) = Inl e \<longrightarrow> (\<exists>cause. e = AdapterError COMMAND_SEND_FAILED cause)) \<and>
   (fst (http a (PutControl (dev_address dev) (dev_model dev) (Brightness (max 0 (min 100 b)))) (remote a))
      = Reply 200 body \<and> devices a (dev_id dev) = Some d \<longrightarrow>
      fst (setBrightness dev b a) = Inr () \<and>
      devices (snd (setBrightness dev b a)) (dev_id dev) =
        Some (d\<lparr>dev_brightness := Some (max 0 (min 100 b))\<rparr>)) \<and>
   (isInitialized a \<and> devices a deviceId = Some dev \<longrightarrow>
      executeCommand (setBrightness_command deviceId b) a =
        (case fst (setBrightness dev b a) of
           Inl e \<Rightarrow> (Inl (AdapterError COMMAND_EXECUTION_FAILED (Some e)), snd (setBrightness dev b a))
         | Inr _ \<Rightarrow> (Inr (), refreshDeviceState dev (snd (setBrightness dev b a))))) \<and>
   devices (refreshDeviceState dev a) (dev_id dev) =
     (case fst (http a (GetState (dev_address dev) (dev_model dev)) (remote a)) of
        Reply code (StateData st) \<Rightarrow>
          if code = 200
          then map_option (\<lambda>d. d\<lparr>dev_isOn := powerState st, dev_brightness := prop_brightness st,
                                 dev_color := map_option rgbToHex (prop_color st)\<rparr>)
                 (devices a (dev_id dev))
          else devices a (dev_id dev)
      | _ \<Rightarrow> devices a (dev_id dev)) \<and>
   max 0 (min 100 (150::int)) = 100"
proof (intro conjI impI allI)
  show "sent (snd (setBrightness dev b a)) =
     sent a @ [PutControl (dev_address dev) (dev_model dev) (Brightness (max 0 (min 100 b)))]"
    by (rule setBrightness_sent)
  show "\<exists>cause. e = AdapterError COMMAND_SEND_FAILED cause" if "fst (setBrightness dev b a) = Inl e" for e
    using setBrightness_error[OF that] by auto
  show "fst (setBrightness dev b a) = Inr ()"
    if "fst (http a (PutControl (dev_address dev) (dev_model dev) (Brightness (max 0 (min 100 b)))) (remote a))
      = Reply 200 body \<and> devices a (dev_id dev) = Some d"
    using that setBrightness_accepted(1) by blast
  show "devices (snd (setBrightness dev b a)) (dev_id dev) =
        Some (d\<lparr>dev_brightness := Some (max 0 (min 100 b))\<rparr>)"
    if "fst (http a (PutControl (dev_address dev) (dev_model dev) (Brightness (max 0 (min 100 b)))) (remote a))
      = Reply 200 body \<and> devices a (dev_id dev) = Some d"
    using that setBrightness_accepted(2) by blast
  show "executeCommand (setBrightness_command deviceId b) a =
        (case fst (setBrightness dev b a) of
           Inl e \<Rightarrow> (Inl (AdapterError COMMAND_EXECUTION_FAILED (Some e)), snd (setBrightness dev b a))
         | Inr _ \<Rightarrow> (Inr (), refreshDeviceState dev (snd (setBrightness dev b a))))"
    if "isInitialized a \<and> devices a deviceId = Some dev"
    using that executeCommand_setBrightness by blast
  show "devices (refreshDeviceState dev a) (dev_id dev) =
     (case fst (http a (GetState (dev_address dev) (dev_model dev)) (remote a)) of
        Reply code (StateData st) \<Rightarrow>
          if code = 200
          then map_option (\<lambda>d. d\<lparr>dev_isOn := powerState st, dev_brightness := prop_brightness st,
                                 dev_color := map_option rgbToHex (prop_color st)\<rparr>)
                 (devices a (dev_id dev))
          else devices a (dev_id dev)
      | _ \<Rightarrow> devices a (dev_id dev))"
    by (rule refreshDeviceState_devices)
  show "max 0 (min 100 (150::int)) = 100" by simp
qed

lemma lamp_initialized:
  "initialize (lamp_adapter accepts v) =
     (Inr (), \<lparr>isInitialized = True, devices = [''X'' \<mapsto> mapToDevice (lamp_info v)],
               http = lamp_http accepts, remote = v, sent = [GetDevices]\<rparr>)"
  by (simp add: initialize_def getDevices_def http_call_def updateDeviceCache_def lamp_adapter_def
      lamp_http_def Let_def mapToDevice_def lamp_info_def)

lemma lamp_device:
  "mapToDevice (lamp_info white_lamp) =
     \<lparr>dev_id = ''X'', dev_name = ''Lamp'', dev_type = ''light'', dev_brand = ''govee'',
      dev_model = ''H6001'', dev_address = ''X'', dev_isOn = True, dev_brightness = Some 80,
      dev_color = Some ''#ffffff'', dev_isReachable = True\<rparr>"
  by (simp add: mapToDevice_def lamp_info_def white_lamp_def color_defs)

theorem setBrightness_sends_and_caches_clamped_witness:
  "isInitialized (snd (initialize (lamp_adapter (\<lambda>c. True) white_lamp))) \<and>
   devices (snd (initialize (lamp_adapter (\<lambda>c. True) white_lamp))) ''X'' = Some (mapToDevice (lamp_info white_lamp)) \<and>
   fst (executeCommand (setBrightness_command ''X'' 150) (snd (initialize (lamp_adapter (\<lambda>c. True) white_lamp))))
     = Inr () \<and>
   sent (snd (executeCommand (setBrightness_command ''X'' 150) (snd (initialize (lamp_adapter (\<lambda>c. True) white_lamp)))))
     = [GetDevices, PutControl ''X'' ''H6001'' (Brightness 100), GetState ''X'' ''H6001''] \<and>
   map_option dev_brightness
     (devices (snd (setBrightness (mapToDevice (lamp_info white_lamp)) 150
        (snd (initialize (lamp_adapter (\<lambda>c. True) white_lamp))))) ''X'') = Some (Some 100) \<and>
   map_option dev_brightness
     (devices (snd (executeCommand (setBrightness_command ''X'' 150)
        (snd (initialize (lamp_adapter (\<lambda>c. True) white_lamp))))) ''X'') = Some (Some 100)"
proof -
  let ?a = "snd (initialize (lamp_adapter (\<lambda>c. True) white_lamp))"
  let ?dev = "mapToDevice (lamp_info white_lamp)"
  have a: "?a = \<lparr>isInitialized = True, devices = [''X'' \<mapsto> ?dev],
               http = lamp_http (\<lambda>c. True), remote = white_lamp, sent = [GetDevices]\<rparr>"
    by (simp add: lamp_initialized)
  have i: "isInitialized ?a" and d: "devices ?a ''X'' = Some ?dev" by (simp_all add: a)
  have id: "dev_id ?dev = ''X''" "dev_address ?dev = ''X''" "dev_model ?dev = ''H6001''"
    by (simp_all add: lamp_device)
  have put: "fst (http ?a (PutControl (dev_address ?dev) (dev_model ?dev) (Brightness (max 0 (min 100 150)))) (remote ?a))
      = Reply 200 NoData"
    by (simp add: a lamp_http_def)
  note t = setBrightness_sends_and_caches_clamped[of ?dev 150 ?a NoData ?dev "''X''"]
  have ok: "fst (setBrightness ?dev 150 ?a) = Inr ()"
    and cache: "devices (snd (setBrightness ?dev 150 ?a)) ''X'' = Some (?dev\<lparr>dev_brightness := Some 100\<rparr>)"
    and snt: "sent (snd (setBrightness ?dev 150 ?a)) = [GetDevices, PutControl ''X'' ''H6001'' (Brightness 100)]"
    using t put d id by (simp_all add: a)
  have ex: "executeCommand (setBrightness_command ''X'' 150) ?a =
      (Inr (), refreshDeviceState ?dev (snd (setBrightness ?dev 150 ?a)))"
    using t i d ok by simp
  have rem: "remote (snd (setBrightness ?dev 150 ?a)) = white_lamp\<lparr>prop_brightness := Some 100\<rparr>"
    and ht: "http (snd (setBrightness ?dev 150 ?a)) = lamp_http (\<lambda>c. True)"
    by (simp_all add: a setBrightness_def sendDeviceCommand_def http_call_def lamp_http_def
        updateDevice_def lamp_device Let_def)
  have fin: "map_option dev_brightness
      (devices (refreshDeviceState ?dev (snd (setBrightness ?dev 150 ?a))) ''X'') = Some (Some 100)"
    using setBrightness_sends_and_caches_clamped[of ?dev 150 "snd (setBrightness ?dev 150 ?a)"] id cache rem ht
    by (simp add: lamp_http_def)
  show ?thesis
    using i d ex ok cache snt fin id by (simp add: refreshDeviceState_sent)
qed

text \<open>
  C10. \<open>getDevices\<close> of the Govee adapter has no initialisation guard: it does the same
  whether the flag is set or not, succeeds whenever the vendor answers with code 200 and
  a device list, and never fails with \<open>NOT_INITIALIZED\<close>; \<open>initialize\<close> on an
  uninitialised adapter is exactly a call of \<open>getDevices\<close> followed by setting the flag.
  \<open>getDevice\<close> and \<open>executeCommand\<close> on an uninitialised adapter throw
  \<open>NOT_INITIALIZED\<close> and leave the adapter as it was: no request sent, no cache entry
  changed.
\<close>

theorem uninitialized_adapter_guard:
  "(\<not> isInitialized a \<longrightarrow>
      getDevice deviceId a = (Inl (AdapterError NOT_INITIALIZED None), a) \<and>
      executeCommand cmd a = (Inl (AdapterError NOT_INITIALIZED None), a)) \<and>
   getDevices (a\<lparr>isInitialized := flag\<rparr>) =
     (fst (getDevices a), (snd (getDevices a))\<lparr>isInitialized := flag\<rparr>) \<and>
   (http a GetDevices (remote a) = (Reply 200 (DevicesData infos), v) \<longrightarrow>
      fst (getDevices a) = Inr (map mapToDevice infos)) \<and>
   (\<forall>e. fst (getDevices a) = Inl e \<longrightarrow> e \<noteq> AdapterError NOT_INITIALIZED None) \<and>
   (\<not> isInitialized a \<longrightarrow>
      initialize a =
        (case getDevices a of
           (Inl e, a1) \<Rightarrow> (Inl (AdapterError INITIALIZATION_FAILED (Some e)), a1)
         | (Inr ds, a1) \<Rightarrow> (Inr (), a1\<lparr>isInitialized := True\<rparr>)))"
proof (intro conjI impI allI)
  assume "\<not> isInitialized a"
  then show "getDevice deviceId a = (Inl (AdapterError NOT_INITIALIZED None), a)"
    and "executeCommand cmd a = (Inl (AdapterError NOT_INITIALIZED None), a)"
    and "initialize a =
        (case getDevices a of
           (Inl e, a1) \<Rightarrow> (Inl (AdapterError INITIALIZATION_FAILED (Some e)), a1)
         | (Inr ds, a1) \<Rightarrow> (Inr (), a1\<lparr>isInitialized := True\<rparr>))"
    by (simp_all add: getDevice_def executeCommand_def initialize_def)
next
  show "getDevices (a\<lparr>isInitialized := flag\<rparr>) =
     (fst (getDevices a), (snd (getDevices a))\<lparr>isInitialized := flag\<rparr>)"
    by (rule getDevices_flag)
next
  assume "http a GetDevices (remote a) = (Reply 200 (DevicesData infos), v)"
  then show "fst (getDevices a) = Inr (map mapToDevice infos)" by (rule getDevices_ok)
next
  fix e assume "fst (getDevices a) = Inl e"
  then show "e \<noteq> AdapterError NOT_INITIALIZED None" using getDevices_error by fastforce
qed

theorem uninitialized_adapter_guard_witness:
  "\<not> isInitialized (lamp_adapter (\<lambda>c. True) white_lamp) \<and>
   getDevice ''X'' (lamp_adapter (\<lambda>c. True) white_lamp) =
     (Inl (AdapterError NOT_INITIALIZED None), lamp_adapter (\<lambda>c. True) white_lamp) \<and>
   executeCommand (setBrightness_command ''X'' 150) (lamp_adapter (\<lambda>c. True) white_lamp) =
     (Inl (AdapterError NOT_INITIALIZED None), lamp_adapter (\<lambda>c. True) white_lamp) \<and>
   http (lamp_adapter (\<lambda>c. True) white_lamp) GetDevices (remote (lamp_adapter (\<lambda>c. True) white_lamp)) =
     (Reply 200 (DevicesData [lamp_info white_lamp]), white_lamp) \<and>
   fst (getDevices (lamp_adapter (\<lambda>c. True) white_lamp)) = Inr [mapToDevice (lamp_info white_lamp)] \<and>
   fst (initialize (lamp_adapter (\<lambda>c. True) white_lamp)) = Inr () \<and>
   isInitialized (snd (initialize (lamp_adapter (\<lambda>c. True) white_lamp)))"
proof -
  let ?a = "lamp_adapter (\<lambda>c. True) white_lamp"
  have u: "\<not> isInitialized ?a" by (simp add: lamp_adapter_def)
  have h: "http ?a GetDevices (remote ?a) = (Reply 200 (DevicesData [lamp_info white_lamp]), white_lamp)"
    by (simp add: lamp_adapter_def lamp_http_def)
  note t = uninitialized_adapter_guard[of ?a "''X''" "setBrightness_command ''X'' 150" _
        "[lamp_info white_lamp]" white_lamp]
  have c1: "getDevice ''X'' ?a = (Inl (AdapterError NOT_INITIALIZED None), ?a)"
    and c2: "executeCommand (setBrightness_command ''X'' 150) ?a = (Inl (AdapterError NOT_INITIALIZED None), ?a)"
    and c3: "fst (getDevices ?a) = Inr [mapToDevice (lamp_info white_lamp)]"
    and c4: "initialize ?a =
        (case getDevices ?a of
           (Inl e, a1) \<Rightarrow> (Inl (AdapterError INITIALIZATION_FAILED (Some e)), a1)
         | (Inr ds, a1) \<Rightarrow> (Inr (), a1\<lparr>isInitialized := True\<rparr>))"
    using t u h by simp_all
  have c5: "fst (initialize ?a) = Inr ()" and c6: "isInitialized (snd (initialize ?a))"
    using c3 by (auto simp: c4 split: prod.splits)
  show ?thesis using u c1 c2 h c3 c5 c6 by simp
qed

section \<open>Lemmas on the profile sync loop\<close>

lemma resume_progress:
  "resume step r s = (task, s1) \<Longrightarrow>
     (case task of None \<Rightarrow> \<not> isSyncing s1 | Some step1 \<Rightarrow> steps_left step1 < steps_left step)"
  by (cases step; cases r) (auto simp: resume_def)

lemma run_tick_finishes:
  "steps_left step \<le> length outcomes \<Longrightarrow>
   fst (run_tick (Some step) outcomes s) = None \<and> \<not> isSyncing (snd (run_tick (Some step) outcomes s))"
proof (induction outcomes arbitrary: step s)
  case Nil
  then show ?case by (cases step) simp_all
next
  case (Cons r rs)
  obtain task s1 where res: "resume step r s = (task, s1)" by (cases "resume step r s")
  show ?case
  proof (cases task)
    case None
    then show ?thesis using res resume_progress[OF res] by simp
  next
    case (Some step1)
    then have "steps_left step1 < steps_left step" using resume_progress[OF res] by simp
    then have "steps_left step1 \<le> length rs" using Cons.prems by simp
    from Cons.IH[OF this, of s1] show ?thesis using res Some by simp
  qed
qed

lemma sync_ok_act: "sync_ok st \<Longrightarrow> sync_ok (sync_act a st)"
proof (cases st)
  case (Pair tasks s)
  assume ok: "sync_ok st"
  show ?thesis
  proof (cases a)
    case Tick
    then show ?thesis using ok Pair
      by (auto simp: sync_ok_def syncAll_def split: if_splits)
  next
    case (Settle i r)
    show ?thesis
    proof (cases "i < length tasks")
      case False
      then show ?thesis using ok Pair Settle by simp
    next
      case True
      then have t: "tasks = [tasks ! 0]" and i: "i = 0" using ok Pair
        by (cases tasks; auto simp: sync_ok_def)+
      obtain task s1 where res: "resume (tasks ! i) r s = (task, s1)" by (cases "resume (tasks ! i) r s")
      have fl: "isSyncing s" using ok Pair t by (auto simp: sync_ok_def)
      show ?thesis
      proof (cases task)
        case None
        then have "\<not> isSyncing s1" using resume_progress[OF res] by simp
        moreover have "take i tasks @ drop (Suc i) tasks = []" using t i by (metis append_Nil drop0 drop_Suc_Cons take_0)
        ultimately show ?thesis using Pair Settle True res None i by (simp add: sync_ok_def)
      next
        case (Some step1)
        have "isSyncing s1" using res Some fl
          by (cases "tasks ! i"; cases r) (auto simp: resume_def)
        then show ?thesis using Pair Settle True res Some ok by (auto simp: sync_ok_def)
      qed
    qed
  qed
qed

lemma sync_ok_run: "sync_ok st \<Longrightarrow> sync_ok (sync_run actions st)"
  unfolding sync_run_def by (induction actions arbitrary: st) (simp_all add: sync_ok_act)


section \<open>Claims on the profile sync loop\<close>

text \<open>
  C9. A call of \<open>syncAll\<close> that finds the \<open>isSyncing\<close> flag set is skipped entirely:
  it only logs that a sync is in progress, calls no sync step, starts no task (nothing is
  queued) and leaves the flag set for the tick in progress. A tick that resumes clears
  the flag whenever it finishes, by success or by the failure of a step, and a tick
  always finishes once its (at most three) awaited steps have settled. Hence, under any
  interleaving of calls and settled steps from the initial service, at most one tick is
  in progress, and the flag is set exactly while one is.
\<close>

theorem syncAll_skips_overlapping_tick:
  "(isSyncing s \<longrightarrow> syncAll s = (None, s\<lparr>sync_trace := sync_trace s @ [AlreadyInProgress]\<rparr>)) \<and>
   (\<not> isSyncing s \<longrightarrow>
      syncAll s = (Some SyncProfileFromDivina,
                   s\<lparr>isSyncing := True,
                     sync_trace := sync_trace s @ [StartingSync, StepCalled SyncProfileFromDivina]\<rparr>)) \<and>
   resume step (Inl e) s = (None, s\<lparr>isSyncing := False, sync_trace := sync_trace s @ [SyncFailed e]\<rparr>) \<and>
   (fst (resume step r s) = None \<longrightarrow> \<not> isSyncing (snd (resume step r s))) \<and>
   (3 \<le> length outcomes \<longrightarrow>
      fst (run_tick (Some step) outcomes s) = None \<and>
      \<not> isSyncing (snd (run_tick (Some step) outcomes s))) \<and>
   length (fst (sync_run actions ([], new_ProfileSyncService))) \<le> 1 \<and>
   (isSyncing (snd (sync_run actions ([], new_ProfileSyncService))) \<longleftrightarrow>
      fst (sync_run actions ([], new_ProfileSyncService)) \<noteq> [])"
proof (intro conjI impI)
  show "syncAll s = (None, s\<lparr>sync_trace := sync_trace s @ [AlreadyInProgress]\<rparr>)" if "isSyncing s"
    using that by (simp add: syncAll_def)
  show "syncAll s = (Some SyncProfileFromDivina,
                   s\<lparr>isSyncing := True,
                     sync_trace := sync_trace s @ [StartingSync, StepCalled SyncProfileFromDivina]\<rparr>)"
    if "\<not> isSyncing s"
    using that by (simp add: syncAll_def)
  show "resume step (Inl e) s = (None, s\<lparr>isSyncing := False, sync_trace := sync_trace s @ [SyncFailed e]\<rparr>)"
    by (simp add: resume_def)
  show "\<not> isSyncing (snd (resume step r s))" if "fst (resume step r s) = None"
    using that by (cases step; cases r) (auto simp: resume_def)
  have "steps_left step \<le> 3" by (cases step) simp_all
  then show "fst (run_tick (Some step) outcomes s) = None" 
    and "\<not> isSyncing (snd (run_tick (Some step) outcomes s))" if "3 \<le> length outcomes"
    using that run_tick_finishes[of step outcomes s] by simp_all
  have "sync_ok ([], new_ProfileSyncService)" by (simp add: sync_ok_def new_ProfileSyncService_def)
  then have "sync_ok (sync_run actions ([], new_ProfileSyncService))" by (rule sync_ok_run)
  then show "length (fst (sync_run actions ([], new_ProfileSyncService))) \<le> 1"
    and "isSyncing (snd (sync_run actions ([], new_ProfileSyncService))) \<longleftrightarrow>
      fst (sync_run actions ([], new_ProfileSyncService)) \<noteq> []"
    by (simp_all add: sync_ok_def)
qed

theorem syncAll_skips_overlapping_tick_witness:
  "isSyncing (snd (syncAll new_ProfileSyncService)) \<and>
   syncAll (snd (syncAll new_ProfileSyncService)) =
     (None, \<lparr>isSyncing = True,
             sync_trace = [StartingSync, StepCalled SyncProfileFromDivina, AlreadyInProgress]\<rparr>) \<and>
   \<not> isSyncing new_ProfileSyncService \<and>
   fst (resume ApplyPendingUpdates (Inr ()) (snd (syncAll new_ProfileSyncService))) = None \<and>
   \<not> isSyncing (snd (resume ApplyPendingUpdates (Inr ()) (snd (syncAll new_ProfileSyncService)))) \<and>
   3 \<le> length [Inr (), Inl TransportError, Inr ()] \<and>
   run_tick (Some SyncProfileFromDivina) [Inr (), Inl TransportError, Inr ()] (snd (syncAll new_ProfileSyncService)) =
     (None, \<lparr>isSyncing = False,
             sync_trace = [StartingSync, StepCalled SyncProfileFromDivina,
                           StepCalled SyncGameStateFromGameDin, SyncFailed TransportError]\<rparr>) \<and>
   sync_run [Tick, Tick, Settle 0 (Inr ()), Tick] ([], new_ProfileSyncService) =
     ([SyncGameStateFromGameDin],
      \<lparr>isSyncing = True,
       sync_trace = [StartingSync, StepCalled SyncProfileFromDivina, AlreadyInProgress,
                     StepCalled SyncGameStateFromGameDin, AlreadyInProgress]\<rparr>)"
proof -
  let ?s0 = "new_ProfileSyncService"
  let ?s1 = "snd (syncAll ?s0)"
  have s1: "?s1 = \<lparr>isSyncing = True, sync_trace = [StartingSync, StepCalled SyncProfileFromDivina]\<rparr>"
    using syncAll_skips_overlapping_tick[of ?s0] by (simp add: new_ProfileSyncService_def)
  have f: "isSyncing ?s1" by (simp add: s1)
  have r: "fst (resume ApplyPendingUpdates (Inr ()) ?s1) = None" by (simp add: resume_def)
  have run: "run_tick (Some SyncProfileFromDivina) [Inr (), Inl TransportError, Inr ()] ?s1 =
     (None, \<lparr>isSyncing = False,
             sync_trace = [StartingSync, StepCalled SyncProfileFromDivina,
                           StepCalled SyncGameStateFromGameDin, SyncFailed TransportError]\<rparr>)"
    by (simp add: s1 resume_def)
  have sched: "sync_run [Tick, Tick, Settle 0 (Inr ()), Tick] ([], ?s0) =
     ([SyncGameStateFromGameDin],
      \<lparr>isSyncing = True,
       sync_trace = [StartingSync, StepCalled SyncProfileFromDivina, AlreadyInProgress,
                     StepCalled SyncGameStateFromGameDin, AlreadyInProgress]\<rparr>)"
    by (simp add: sync_run_def syncAll_def resume_def new_ProfileSyncService_def)
  note t = syncAll_skips_overlapping_tick[of ?s1 ApplyPendingUpdates _ "Inr ()"
        "[Inr (), Inl TransportError, Inr ()]" "[Tick, Tick, Settle 0 (Inr ()), Tick]"]
  have skip: "syncAll ?s1 = (None, ?s1\<lparr>sync_trace := sync_trace ?s1 @ [AlreadyInProgress]\<rparr>)"
    using t f by blast
  have skip': "syncAll ?s1 = (None, \<lparr>isSyncing = True,
             sync_trace = [StartingSync, StepCalled SyncProfileFromDivina, AlreadyInProgress]\<rparr>)"
    by (subst skip) (simp add: s1)
  have fin: "\<not> isSyncing (snd (resume ApplyPendingUpdates (Inr ()) ?s1))"
    using t r by blast
  have n: "\<not> isSyncing ?s0" by (simp add: new_ProfileSyncService_def)
  show ?thesis using f skip' n r fin run sched by simp
qed

section \<open>Lemmas on the Light Manager\<close>

lemma getDevice_loop_found:
  "snd (getDevice_loop deviceId ads) \<noteq> None \<longleftrightarrow> (\<exists>(k, ad) \<in> set ads. recognises deviceId ad)"
proof (induction ads)
  case Nil
  then show ?case by simp
next
  case (Cons p ads)
  obtain k ad where p: "p = (k, ad)" by (cases p)
  show ?case
  proof (cases "recognises deviceId ad")
    case True
    then show ?thesis using p
      by (auto simp: recognises_def split_beta split: sum.splits option.splits)
  next
    case False
    then have "snd (getDevice_loop deviceId (p # ads)) = snd (getDevice_loop deviceId ads)"
      using p by (auto simp: recognises_def split_beta split: sum.splits option.splits)
    then show ?thesis using Cons False p by simp
  qed
qed

lemma executeCommand_loop_ok:
  "fst (executeCommand_loop cmd ads) \<longleftrightarrow> (\<exists>(k, ad) \<in> set ads. executes cmd ad)"
proof (induction ads)
  case Nil
  then show ?case by simp
next
  case (Cons p ads)
  obtain k ad where p: "p = (k, ad)" by (cases p)
  show ?case
  proof (cases "executes cmd ad")
    case True
    then show ?thesis using p by (auto simp: executes_def split_beta split: sum.splits)
  next
    case False
    then have "fst (executeCommand_loop cmd (p # ads)) = fst (executeCommand_loop cmd ads)"
      using p by (auto simp: executes_def split_beta split: sum.splits)
    then show ?thesis using Cons False p by simp
  qed
qed

lemma lm_executeCommand_result:
  "fst (lm_executeCommand cmd m) =
     (if snd (getDevice_loop (cmd_deviceId cmd) (adapters (initialized_manager m))) = None
      then Inl (DeviceNotFoundError (cmd_deviceId cmd))
      else if fst (executeCommand_loop cmd (adapters (after_lookup cmd m))) then Inr ()
      else Inl (NoAdapterError (cmd_deviceId cmd)))"
  by (auto simp: lm_executeCommand_def initialized_manager_def after_lookup_def lm_getDevice_def
      Let_def split_beta split: option.splits)

section \<open>Claims on the Light Manager\<close>

text \<open>
  C6. \<open>LightManager.executeCommand\<close> ends in exactly one of three ways. It succeeds
  exactly when some adapter recognises the device id and some registered adapter
  executes the command without error, wherever that adapter stands in the list and
  however the adapters tried before it fail. It fails with the device-not-found error
  exactly when no adapter recognises the device id. It raises "no adapter could handle
  the command" exactly when the device was recognised and every adapter fails to
  execute the command.
\<close>

theorem lm_executeCommand_outcomes:
  "(fst (lm_executeCommand cmd m) = Inr () \<longleftrightarrow>
      (\<exists>(k, ad) \<in> set (adapters (initialized_manager m)). recognises (cmd_deviceId cmd) ad) \<and>
      (\<exists>(k, ad) \<in> set (adapters (after_lookup cmd m)). executes cmd ad)) \<and>
   (fst (lm_executeCommand cmd m) = Inl (DeviceNotFoundError (cmd_deviceId cmd)) \<longleftrightarrow>
      \<not> (\<exists>(k, ad) \<in> set (adapters (initialized_manager m)). recognises (cmd_deviceId cmd) ad)) \<and>
   (fst (lm_executeCommand cmd m) = Inl (NoAdapterError (cmd_deviceId cmd)) \<longleftrightarrow>
      (\<exists>(k, ad) \<in> set (adapters (initialized_manager m)). recognises (cmd_deviceId cmd) ad) \<and>
      (\<forall>(k, ad) \<in> set (adapters (after_lookup cmd m)). \<not> executes cmd ad))"
  using getDevice_loop_found[of "cmd_deviceId cmd" "adapters (initialized_manager m)"]
    executeCommand_loop_ok[of cmd "adapters (after_lookup cmd m)"]
  by (auto simp: lm_executeCommand_result)


lemma two_adapter_initialized:
  "initialized_manager (two_adapter_manager v) =
     \<lparr>adapters = [(''govee:A'', govee_light_adapter ((bare_adapter v)\<lparr>isInitialized := True, sent := [GetDevices]\<rparr>)),
                  (''govee:B'', govee_light_adapter
                     \<lparr>isInitialized = True, devices = [''X'' \<mapsto> mapToDevice (lamp_info v)],
                      http = lamp_http (\<lambda>c. True), remote = v, sent = [GetDevices]\<rparr>)],
      lm_isInitialized = True\<rparr>"
  by (simp add: initialized_manager_def two_adapter_manager_def lm_initialize_def call_initialize_def
      govee_light_adapter_def lamp_initialized)
    (simp add: initialize_def getDevices_def http_call_def bare_adapter_def bare_http_def
      updateDeviceCache_def)

lemma two_adapter_recognition:
  "\<not> recognises ''X'' (govee_light_adapter ((bare_adapter v)\<lparr>isInitialized := True, sent := [GetDevices]\<rparr>))"
  "recognises ''X'' (govee_light_adapter
                     \<lparr>isInitialized = True, devices = [''X'' \<mapsto> mapToDevice (lamp_info v)],
                      http = lamp_http (\<lambda>c. True), remote = v, sent = [GetDevices]\<rparr>)"
  by (simp_all add: recognises_def call_getDevice_def govee_light_adapter_def getDevice_def
      getDevices_def http_call_def bare_adapter_def bare_http_def updateDeviceCache_def)

lemma two_adapter_after_lookup:
  "after_lookup (setBrightness_command ''X'' b) (two_adapter_manager v) =
     \<lparr>adapters = [(''govee:A'', govee_light_adapter ((bare_adapter v)\<lparr>isInitialized := True, sent := [GetDevices, GetDevices]\<rparr>)),
                  (''govee:B'', govee_light_adapter
                     \<lparr>isInitialized = True, devices = [''X'' \<mapsto> mapToDevice (lamp_info v)],
                      http = lamp_http (\<lambda>c. True), remote = v, sent = [GetDevices]\<rparr>)],
      lm_isInitialized = True\<rparr>"
  by (simp add: after_lookup_def two_adapter_initialized lm_getDevice_def setBrightness_command_def
      call_getDevice_def govee_light_adapter_def getDevice_def getDevices_def http_call_def
      bare_adapter_def bare_http_def updateDeviceCache_def)

lemma two_adapter_execution:
  "\<not> executes (setBrightness_command ''X'' b)
       (govee_light_adapter ((bare_adapter v)\<lparr>isInitialized := True, sent := [GetDevices, GetDevices]\<rparr>))"
  "executes (setBrightness_command ''X'' b) (govee_light_adapter
                     \<lparr>isInitialized = True, devices = [''X'' \<mapsto> mapToDevice (lamp_info v)],
                      http = lamp_http (\<lambda>c. True), remote = v, sent = [GetDevices]\<rparr>)"
  by (simp_all add: executes_def call_executeCommand_def govee_light_adapter_def executeCommand_def
      runCommand_def setBrightness_command_def setBrightness_def sendDeviceCommand_def http_call_def
      bare_adapter_def lamp_http_def Let_def)

theorem lm_executeCommand_outcomes_witness:
  "fst (lm_executeCommand (setBrightness_command ''X'' 150) (two_adapter_manager white_lamp)) = Inr () \<and>
   fst (call_executeCommand (setBrightness_command ''X'' 150)
         (snd (hd (adapters (after_lookup (setBrightness_command ''X'' 150) (two_adapter_manager white_lamp))))))
     = Inl (AdapterError DEVICE_NOT_FOUND None) \<and>
   fst (lm_executeCommand (setBrightness_command ''Y'' 150) (two_adapter_manager white_lamp))
     = Inl (DeviceNotFoundError ''Y'') \<and>
   fst (lm_executeCommand (setBrightness_command ''X'' 150) (lamp_manager (\<lambda>c. False) white_lamp))
     = Inl (NoAdapterError ''X'')"
proof -
  let ?cmd = "setBrightness_command ''X'' 150"
  let ?M = "two_adapter_manager white_lamp"
  have id: "cmd_deviceId ?cmd = ''X''" by (simp add: setBrightness_command_def)
  have rec: "\<exists>(k, ad) \<in> set (adapters (initialized_manager ?M)). recognises ''X'' ad"
    by (simp add: two_adapter_initialized two_adapter_recognition)
  have ex: "\<exists>(k, ad) \<in> set (adapters (after_lookup ?cmd ?M)). executes ?cmd ad"
    by (simp add: two_adapter_after_lookup two_adapter_execution)
  have ok: "fst (lm_executeCommand ?cmd ?M) = Inr ()"
    using lm_executeCommand_outcomes[of ?cmd ?M] rec ex id by simp
  have first: "fst (call_executeCommand ?cmd (snd (hd (adapters (after_lookup ?cmd ?M)))))
     = Inl (AdapterError DEVICE_NOT_FOUND None)"
    unfolding two_adapter_after_lookup
    by (simp add: call_executeCommand_def govee_light_adapter_def
        executeCommand_def bare_adapter_def setBrightness_command_def)
  let ?cmdY = "setBrightness_command ''Y'' 150"
  have idY: "cmd_deviceId ?cmdY = ''Y''" by (simp add: setBrightness_command_def)
  have norec: "\<not> (\<exists>(k, ad) \<in> set (adapters (initialized_manager ?M)). recognises ''Y'' ad)"
    by (simp add: two_adapter_initialized recognises_def call_getDevice_def govee_light_adapter_def
        getDevice_def getDevices_def http_call_def bare_adapter_def bare_http_def lamp_http_def
        updateDeviceCache_def mapToDevice_def lamp_info_def)
  have nf: "fst (lm_executeCommand ?cmdY ?M) = Inl (DeviceNotFoundError ''Y'')"
    using lm_executeCommand_outcomes[of ?cmdY ?M] norec idY by simp
  let ?N = "lamp_manager (\<lambda>c. False) white_lamp"
  have initN: "initialized_manager ?N =
      \<lparr>adapters = [(''govee:1'', govee_light_adapter
                     \<lparr>isInitialized = True, devices = [''X'' \<mapsto> mapToDevice (lamp_info white_lamp)],
                      http = lamp_http (\<lambda>c. False), remote = white_lamp, sent = [GetDevices]\<rparr>)],
       lm_isInitialized = True\<rparr>"
    by (simp add: initialized_manager_def lamp_manager_def lm_initialize_def call_initialize_def
        govee_light_adapter_def lamp_initialized)
  have recN: "\<exists>(k, ad) \<in> set (adapters (initialized_manager ?N)). recognises ''X'' ad"
    by (simp add: initN recognises_def call_getDevice_def govee_light_adapter_def getDevice_def)
  have afterN: "after_lookup ?cmd ?N = initialized_manager ?N"
    by (simp add: after_lookup_def initN lm_getDevice_def setBrightness_command_def
        call_getDevice_def govee_light_adapter_def getDevice_def)
  have noex: "\<forall>(k, ad) \<in> set (adapters (after_lookup ?cmd ?N)). \<not> executes ?cmd ad"
    unfolding afterN initN
    by (simp add: executes_def call_executeCommand_def govee_light_adapter_def
        executeCommand_def runCommand_def setBrightness_command_def setBrightness_def
        sendDeviceCommand_def http_call_def lamp_http_def Let_def)
  have na: "fst (lm_executeCommand ?cmd ?N) = Inl (NoAdapterError ''X'')"
    using lm_executeCommand_outcomes[of ?cmd ?N] recN noex id by simp
  show ?thesis using ok first nf na by simp
qed

section \<open>Lemmas on the dispatcher\<close>

lemma call_manager_eq:
  "call_manager cmd f s =
     (fst (f (lightManager s)), s\<lparr>lightManager := snd (f (lightManager s)), issued := issued s @ [cmd]\<rparr>)"
  by (simp add: call_manager_def split_beta)

lemma timers_ok_clear:
  assumes "timers_ok s"
  shows "timers_ok (clearDeviceEffect d s)"
    and "\<forall>t \<in> set (timers (clearDeviceEffect d s)). t_deviceId t \<noteq> d"
    and "activeEffects (clearDeviceEffect d s) d = None"
    and "next_timer (clearDeviceEffect d s) = next_timer s"
    and "deviceStates (clearDeviceEffect d s) = deviceStates s"
  using assms
  by (auto simp: timers_ok_def clearDeviceEffect_def distinct_map_filter split: option.splits)

lemma restore_fields:
  "timers (restoreDeviceState d s) = timers s"
  "next_timer (restoreDeviceState d s) = next_timer s"
  "activeEffects (restoreDeviceState d s) = activeEffects s"
  "d' \<noteq> d \<Longrightarrow> deviceStates (restoreDeviceState d s) d' = deviceStates s d'"
  by (simp_all add: restoreDeviceState_def call_manager_eq Let_def split: option.splits sum.splits)

lemma timers_ok_manager [simp]: "timers_ok (s\<lparr>lightManager := m\<rparr>) = timers_ok s"
  by (simp add: timers_ok_def)

lemma timers_ok_issued [simp]: "timers_ok (s\<lparr>issued := x\<rparr>) = timers_ok s"
  by (simp add: timers_ok_def)

lemma timers_ok_log [simp]: "timers_ok (s\<lparr>error_log := x\<rparr>) = timers_ok s"
  by (simp add: timers_ok_def)

lemma timers_ok_effects [simp]: "timers_ok (s\<lparr>effects := x\<rparr>) = timers_ok s"
  by (simp add: timers_ok_def)

lemma timers_ok_snapshot:
  "timers_ok s \<Longrightarrow> timers_ok (s\<lparr>deviceStates := (deviceStates s)(d \<mapsto> st)\<rparr>)"
  by (auto simp: timers_ok_def)

lemma timers_ok_schedule:
  assumes "timers_ok s" and "\<forall>t \<in> set (timers s). t_deviceId t \<noteq> d"
    and "restorePreviousState e = Some True \<longrightarrow> deviceStates s d \<noteq> None"
  shows "timers_ok (schedule_restoration d e k s)"
  using assms by (auto simp: timers_ok_def schedule_restoration_def)

lemma timers_ok_store_state:
  assumes "timers_ok s"
  shows "timers_ok (store_state dev e s)"
    and "restorePreviousState e = Some True \<longrightarrow> deviceStates (store_state dev e s) (dev_id dev) \<noteq> None"
  using assms by (auto simp: store_state_def timers_ok_snapshot)

lemma apply_effect_unfold:
  "apply_effect dev e s =
     (let s2 = clearDeviceEffect (dev_id dev) (store_state dev e s);
          cmd = effect_light_command e (dev_id dev);
          s3 = s2\<lparr>lightManager := snd (lm_executeCommand cmd (lightManager s2)), issued := issued s2 @ [cmd]\<rparr>
      in case fst (lm_executeCommand cmd (lightManager s2)) of
           Inl err \<Rightarrow> s3\<lparr>error_log := error_log s3 @ [ApplyFailed (dev_id dev) err]\<rparr>
         | Inr _ \<Rightarrow>
             (case duration e of
                None \<Rightarrow> s3
              | Some k \<Rightarrow> if k > 0 then schedule_restoration (dev_id dev) e k s3 else s3))"
  by (simp add: apply_effect_def Let_def call_manager_eq)

lemma timers_ok_apply_effect:
  assumes "timers_ok s"
  shows "timers_ok (apply_effect dev e s)"
proof -
  let ?d = "dev_id dev"
  define s1 where "s1 = store_state dev e s"
  define s2 where "s2 = clearDeviceEffect ?d s1"
  define cmd where "cmd = effect_light_command e ?d"
  define s3 where "s3 = s2\<lparr>lightManager := snd (lm_executeCommand cmd (lightManager s2)), issued := issued s2 @ [cmd]\<rparr>"
  have ok1: "timers_ok s1"
    and snap1: "restorePreviousState e = Some True \<longrightarrow> deviceStates s1 ?d \<noteq> None"
    using timers_ok_store_state[OF assms, where dev=dev and e=e] by (simp_all add: s1_def)
  have ok2: "timers_ok s2" and none2: "\<forall>t \<in> set (timers s2). t_deviceId t \<noteq> ?d"
    and snap2: "deviceStates s2 = deviceStates s1"
    using timers_ok_clear[OF ok1, where d="?d"] by (simp_all add: s2_def)
  have ok3: "timers_ok s3" and none3: "\<forall>t \<in> set (timers s3). t_deviceId t \<noteq> ?d"
    and snap3: "deviceStates s3 = deviceStates s1"
    using ok2 none2 snap2 by (simp_all add: s3_def)
  have sched: "timers_ok (schedule_restoration ?d e k s3)" for k
    using timers_ok_schedule[OF ok3 none3] snap1 snap3 by simp
  have "apply_effect dev e s =
      (case fst (lm_executeCommand cmd (lightManager s2)) of
           Inl err \<Rightarrow> s3\<lparr>error_log := error_log s3 @ [ApplyFailed ?d err]\<rparr>
         | Inr _ \<Rightarrow>
             (case duration e of
                None \<Rightarrow> s3
              | Some k \<Rightarrow> if k > 0 then schedule_restoration ?d e k s3 else s3))"
    unfolding apply_effect_unfold Let_def s1_def s2_def s3_def cmd_def by (rule refl)
  then show ?thesis
    using ok3 sched by (simp split: sum.splits option.splits)
qed

lemma timers_ok_applyEffectsToDevice:
  "timers_ok s \<Longrightarrow> timers_ok (applyEffectsToDevice dev effs ev s)"
  by (simp add: applyEffectsToDevice_def timers_ok_apply_effect split: option.splits)

lemma timers_ok_handleEvent:
  assumes "timers_ok s"
  shows "timers_ok (handleEvent ev s)"
proof -
  have "timers_ok (foldl (\<lambda>s1 dev. applyEffectsToDevice dev effs ev s1) s0 devs)"
    if "timers_ok s0" for effs devs and s0 :: "'a gamedin_adapter"
    using that by (induction devs arbitrary: s0) (simp_all add: timers_ok_applyEffectsToDevice)
  then show ?thesis using assms by (simp add: handleEvent_def Let_def split_beta)
qed

lemma timers_ok_restore:
  assumes "timers_ok s" and "\<forall>t \<in> set (timers s). t_deviceId t \<noteq> d"
  shows "timers_ok (restoreDeviceState d s)"
  using assms unfolding timers_ok_def
  by (auto simp: restore_fields)

lemma find_Some_id: "find (\<lambda>t. t_id t = k) ts = Some t \<Longrightarrow> t \<in> set ts \<and> t_id t = k"
  by (induction ts) (auto split: if_splits)

lemma timers_ok_fire:
  assumes "timers_ok s"
  shows "timers_ok (fire_timer k s)"
proof (cases "find (\<lambda>t. t_id t = k) (timers s)")
  case None
  then show ?thesis using assms by (simp add: fire_timer_def)
next
  case (Some t)
  then have tin: "t \<in> set (timers s)" and tid: "t_id t = k" using find_Some_id by fastforce+
  define s0 where "s0 = s\<lparr>timers := filter (\<lambda>u. t_id u \<noteq> k) (timers s)\<rparr>"
  have ok0: "timers_ok s0" using assms
    by (auto simp: timers_ok_def s0_def distinct_map_filter)
  have none0: "\<forall>u \<in> set (timers s0). t_deviceId u \<noteq> t_deviceId t"
  proof
    fix u assume "u \<in> set (timers s0)"
    then have uin: "u \<in> set (timers s)" and "t_id u \<noteq> k" by (auto simp: s0_def)
    show "t_deviceId u \<noteq> t_deviceId t"
    proof
      assume "t_deviceId u = t_deviceId t"
      moreover have "activeEffects s (t_deviceId u) = Some (t_id u)"
        using assms uin by (simp add: timers_ok_def)
      moreover have "activeEffects s (t_deviceId t) = Some (t_id t)"
        using assms tin by (simp add: timers_ok_def)
      ultimately have "t_id u = t_id t" by simp
      then show False using \<open>t_id u \<noteq> k\<close> tid by simp
    qed
  qed
  define s1 where "s1 = (if restorePreviousState (t_effect t) = Some True
                     then restoreDeviceState (t_deviceId t) s0 else s0)"
  have ok1: "timers_ok s1" using ok0 none0 by (simp add: s1_def timers_ok_restore)
  have "fire_timer k s = clearDeviceEffect (t_deviceId t) s1"
    using Some by (simp add: fire_timer_def s0_def s1_def Let_def)
  then show ?thesis using timers_ok_clear(1)[OF ok1] by simp
qed

lemma timers_ok_dispose: "timers_ok s \<Longrightarrow> timers_ok (dispose s)"
  by (auto simp: timers_ok_def dispose_def filter_empty_conv)

lemma timers_ok_addEffect: "timers_ok s \<Longrightarrow> timers_ok (addEffect e s)"
  by (simp add: addEffect_def Let_def)

lemma timers_ok_removeEffect: "timers_ok s \<Longrightarrow> timers_ok (removeEffect t i s)"
  by (simp add: removeEffect_def split: option.splits)

lemma timers_ok_new: "timers_ok (new_GameDinAdapter lm cfg)"
proof -
  have "timers_ok (registerEffects es s)" if "timers_ok s" for es and s :: "'a gamedin_adapter"
    unfolding registerEffects_def using that
    by (induction es arbitrary: s) (simp_all add: timers_ok_addEffect)
  moreover have "timers_ok \<lparr>lightManager = lm, effects = Map.empty, deviceStates = Map.empty,
                 activeEffects = Map.empty, timers = [], next_timer = 0, issued = [],
                 error_log = []\<rparr>"
    by (simp add: timers_ok_def)
  ultimately show ?thesis by (simp add: new_GameDinAdapter_def Let_def)
qed

lemma reachable_timers_ok: "reachable s \<Longrightarrow> timers_ok s"
proof (induction rule: reachable.induct)
  case (r_new lm config) show ?case by (rule timers_ok_new)
next
  case (r_initialize s) then show ?case by (simp add: gd_initialize_def)
next
  case (r_addEffect s effect) from r_addEffect.IH show ?case by (rule timers_ok_addEffect)
next
  case (r_removeEffect s evType effectIndex) from r_removeEffect.IH show ?case by (rule timers_ok_removeEffect)
next
  case (r_handleEvent s event) from r_handleEvent.IH show ?case by (rule timers_ok_handleEvent)
next
  case (r_apply_effect s dev effect) from r_apply_effect.IH show ?case by (rule timers_ok_apply_effect)
next
  case (r_fire s timeout) from r_fire.IH show ?case by (rule timers_ok_fire)
next
  case (r_dispose s) from r_dispose.IH show ?case by (rule timers_ok_dispose)
next
  case (r_manager s m) then show ?case by simp
qed


lemma clear_fields [simp]:
  "lightManager (clearDeviceEffect d s) = lightManager s"
  "issued (clearDeviceEffect d s) = issued s"
  "error_log (clearDeviceEffect d s) = error_log s"
  "next_timer (clearDeviceEffect d s) = next_timer s"
  "deviceStates (clearDeviceEffect d s) = deviceStates s"
  by (simp_all add: clearDeviceEffect_def split: option.splits)

lemma store_fields [simp]:
  "lightManager (store_state dev e s) = lightManager s"
  "issued (store_state dev e s) = issued s"
  "error_log (store_state dev e s) = error_log s"
  "next_timer (store_state dev e s) = next_timer s"
  "timers (store_state dev e s) = timers s"
  "activeEffects (store_state dev e s) = activeEffects s"
  by (simp_all add: store_state_def)

lemma store_state_snapshot:
  "deviceStates (store_state dev e s) d =
     (if d = dev_id dev \<and> restorePreviousState e = Some True \<and> deviceStates s d = None
      then Some \<lparr>ss_color = dev_color dev, ss_brightness = dev_brightness dev\<rparr>
      else deviceStates s d)"
  by (auto simp: store_state_def)

lemma apply_effect_issued:
  "issued (apply_effect dev e s) = issued s @ [effect_light_command e (dev_id dev)]"
  by (simp add: apply_effect_unfold Let_def schedule_restoration_def split: sum.splits option.splits)

lemma apply_effect_deviceStates:
  "deviceStates (apply_effect dev e s) = deviceStates (store_state dev e s)"
  by (simp add: apply_effect_unfold Let_def schedule_restoration_def split: sum.splits option.splits)


lemma apply_effect_failed:
  assumes "fst (lm_executeCommand (effect_light_command e (dev_id dev)) (lightManager s)) = Inl err"
  shows "error_log (apply_effect dev e s) = error_log s @ [ApplyFailed (dev_id dev) err]"
    and "timers (apply_effect dev e s) = timers (clearDeviceEffect (dev_id dev) s)"
    and "activeEffects (apply_effect dev e s) = (activeEffects s)(dev_id dev := None)"
    and "next_timer (apply_effect dev e s) = next_timer s"
  using assms
  by (simp_all add: apply_effect_unfold Let_def clearDeviceEffect_def store_state_def
      fun_upd_idem split: option.splits)

lemma apply_effect_succeeded:
  assumes "fst (lm_executeCommand (effect_light_command e (dev_id dev)) (lightManager s)) = Inr u"
  shows "error_log (apply_effect dev e s) = error_log s"
    and "timers (apply_effect dev e s) =
           timers (clearDeviceEffect (dev_id dev) s) @
           (case duration e of
              None \<Rightarrow> []
            | Some k \<Rightarrow> if k > 0 then [\<lparr>t_id = next_timer s, t_deviceId = dev_id dev, t_effect = e, t_delay = k\<rparr>]
                        else [])"
  using assms
  by (simp_all add: apply_effect_unfold Let_def clearDeviceEffect_def store_state_def
      schedule_restoration_def split: option.splits)

lemma apply_effect_device_timers:
  assumes "timers_ok s" and "t \<in> set (timers (apply_effect dev e s))" and "t_deviceId t = dev_id dev"
  shows "t_id t = next_timer s \<and> t_effect t = e"
proof -
  have none: "\<forall>u \<in> set (timers (clearDeviceEffect (dev_id dev) s)). t_deviceId u \<noteq> dev_id dev"
    using timers_ok_clear(2)[OF assms(1)] by simp
  show ?thesis
  proof (cases "fst (lm_executeCommand (effect_light_command e (dev_id dev)) (lightManager s))")
    case (Inl err)
    then show ?thesis using apply_effect_failed(2)[OF Inl] assms(2,3) none by auto
  next
    case (Inr u)
    then show ?thesis using apply_effect_succeeded(2)[OF Inr] assms(2,3) none
      by (auto split: option.splits if_splits)
  qed
qed

lemma find_unique_id:
  "distinct (map t_id ts) \<Longrightarrow> t \<in> set ts \<Longrightarrow> find (\<lambda>u. t_id u = t_id t) ts = Some t"
  by (induction ts) (auto simp: image_iff)

lemma clearDeviceEffect_timers_subset:
  "set (timers (clearDeviceEffect d s)) \<subseteq> set (timers s)"
  by (auto simp: clearDeviceEffect_def split: option.splits)

lemma fire_timer_gone: "find (\<lambda>u. t_id u = k) (timers (fire_timer k s)) = None"
proof (cases "find (\<lambda>t. t_id t = k) (timers s)")
  case None
  then show ?thesis by (simp add: fire_timer_def)
next
  case (Some t)
  define s0 where "s0 = s\<lparr>timers := filter (\<lambda>u. t_id u \<noteq> k) (timers s)\<rparr>"
  define s1 where "s1 = (if restorePreviousState (t_effect t) = Some True
                     then restoreDeviceState (t_deviceId t) s0 else s0)"
  have eq: "fire_timer k s = clearDeviceEffect (t_deviceId t) s1"
    using Some by (simp add: fire_timer_def Let_def s0_def s1_def)
  have "timers s1 = timers s0" by (simp add: s1_def restore_fields)
  then have "set (timers (fire_timer k s)) \<subseteq> set (timers s0)"
    using clearDeviceEffect_timers_subset[of "t_deviceId t" s1] by (simp add: eq)
  then have "\<forall>u \<in> set (timers (fire_timer k s)). t_id u \<noteq> k" by (auto simp: s0_def)
  then show ?thesis by (simp add: find_None_iff)
qed

lemma fire_timer_twice: "fire_timer k (fire_timer k s) = fire_timer k s"
  using fire_timer_gone[of k s] by (simp add: fire_timer_def[of k "fire_timer k s"])

lemma fire_timer_pending:
  assumes "timers_ok s" and "t \<in> set (timers s)"
  shows "fire_timer (t_id t) s =
     clearDeviceEffect (t_deviceId t)
       (if restorePreviousState (t_effect t) = Some True
        then restoreDeviceState (t_deviceId t) (s\<lparr>timers := filter (\<lambda>u. t_id u \<noteq> t_id t) (timers s)\<rparr>)
        else s\<lparr>timers := filter (\<lambda>u. t_id u \<noteq> t_id t) (timers s)\<rparr>)"
proof -
  have "find (\<lambda>u. t_id u = t_id t) (timers s) = Some t"
    using assms by (simp add: timers_ok_def find_unique_id)
  then show ?thesis by (simp add: fire_timer_def Let_def)
qed

lemma fire_timer_device_free:
  assumes "timers_ok s" and "t \<in> set (timers s)"
  shows "\<forall>u \<in> set (timers (fire_timer (t_id t) s)). t_deviceId u \<noteq> t_deviceId t"
    and "activeEffects (fire_timer (t_id t) s) (t_deviceId t) = None"
    and "next_timer (fire_timer (t_id t) s) = next_timer s"
proof -
  let ?s1 = "if restorePreviousState (t_effect t) = Some True
        then restoreDeviceState (t_deviceId t) (s\<lparr>timers := filter (\<lambda>u. t_id u \<noteq> t_id t) (timers s)\<rparr>)
        else s\<lparr>timers := filter (\<lambda>u. t_id u \<noteq> t_id t) (timers s)\<rparr>"
  have eq: "fire_timer (t_id t) s = clearDeviceEffect (t_deviceId t) ?s1"
    by (rule fire_timer_pending[OF assms])
  have "timers_ok (fire_timer (t_id t) s)" by (rule timers_ok_fire[OF assms(1)])
  then have ok: "timers_ok (clearDeviceEffect (t_deviceId t) ?s1)" by (simp only: eq)
  have act: "activeEffects (clearDeviceEffect (t_deviceId t) ?s1) (t_deviceId t) = None"
    by (simp add: clearDeviceEffect_def split: option.splits)
  show "activeEffects (fire_timer (t_id t) s) (t_deviceId t) = None" using act by (simp only: eq)
  show "\<forall>u \<in> set (timers (fire_timer (t_id t) s)). t_deviceId u \<noteq> t_deviceId t"
  proof
    fix u assume "u \<in> set (timers (fire_timer (t_id t) s))"
    then have "activeEffects (fire_timer (t_id t) s) (t_deviceId u) = Some (t_id u)"
      using \<open>timers_ok (fire_timer (t_id t) s)\<close> by (simp add: timers_ok_def)
    then show "t_deviceId u \<noteq> t_deviceId t"
      using \<open>activeEffects (fire_timer (t_id t) s) (t_deviceId t) = None\<close> by auto
  qed
  show "next_timer (fire_timer (t_id t) s) = next_timer s"
    by (simp add: eq restore_fields)
qed

section \<open>The scenarios, evaluated\<close>

lemma lamp_join_accepted:
  assumes "accepts (Color (0, 255, 0))"
  shows "handleEvent (plain_event ''player:join'') (lamp_dispatcher accepts v) =
     (lamp_dispatcher accepts v)
       \<lparr>lightManager := lamp_ready accepts (v\<lparr>prop_color := Some (0, 255, 0)\<rparr>)
          [GetDevices, GetDevices, PutControl ''X'' ''H6001'' (Color (0, 255, 0)), GetState ''X'' ''H6001''],
        deviceStates := [''X'' \<mapsto> \<lparr>ss_color = map_option rgbToHex (prop_color v), ss_brightness = prop_brightness v\<rparr>],
        activeEffects := [''X'' \<mapsto> 0],
        timers := [\<lparr>t_id = 0, t_deviceId = ''X'', t_effect = player_join_effect, t_delay = 2000\<rparr>],
        next_timer := 1,
        issued := [effect_light_command player_join_effect ''X'']\<rparr>"
  using assms
  by (simp add: lamp_defs registry_defs dispatcher_defs manager_defs govee_defs Let_def
      hexToRgb_def parseInt16_def strip_0x_def hex_digit_def is_space_def)


lemmas scenario_defs = lamp_defs registry_defs dispatcher_defs manager_defs govee_defs color_defs Let_def

lemma lamp_join_rejected:
  assumes "\<not> accepts (Color (0, 255, 0))"
  shows "handleEvent (plain_event ''player:join'') (lamp_dispatcher accepts v) =
     (lamp_dispatcher accepts v)
       \<lparr>lightManager := lamp_ready accepts v
          [GetDevices, GetDevices, PutControl ''X'' ''H6001'' (Color (0, 255, 0))],
        deviceStates := [''X'' \<mapsto> \<lparr>ss_color = map_option rgbToHex (prop_color v), ss_brightness = prop_brightness v\<rparr>],
        issued := [effect_light_command player_join_effect ''X''],
        error_log := [ApplyFailed ''X'' (NoAdapterError ''X'')]\<rparr>"
  using assms
  by (simp add: lamp_defs registry_defs dispatcher_defs manager_defs govee_defs Let_def
      hexToRgb_def parseInt16_def strip_0x_def hex_digit_def is_space_def)



lemma lamp_restore_refused:
  "fire_timer 0 (handleEvent (plain_event ''player:join'') (lamp_dispatcher refuses_white white_lamp)) =
     (lamp_dispatcher refuses_white white_lamp)
       \<lparr>lightManager := lamp_ready refuses_white (white_lamp\<lparr>prop_color := Some (0, 255, 0)\<rparr>)
          [GetDevices, GetDevices, PutControl ''X'' ''H6001'' (Color (0, 255, 0)), GetState ''X'' ''H6001'',
           PutControl ''X'' ''H6001'' (Color (255, 255, 255))],
        deviceStates := [''X'' \<mapsto> \<lparr>ss_color = Some ''#ffffff'', ss_brightness = Some 80\<rparr>],
        activeEffects := Map.empty,
        timers := [],
        next_timer := 1,
        issued := [effect_light_command player_join_effect ''X'', setColor_command ''X'' ''#ffffff''],
        error_log := [RestoreFailed ''X'' (NoAdapterError ''X'')]\<rparr>"
  by (simp add: lamp_join_accepted refuses_white_def) (simp add: scenario_defs)


lemma twin_getDevices:
  "lm_getDevices (twin_manager white_lamp) =
     ([mapToDevice (lamp_info white_lamp), mapToDevice ((lamp_info white_lamp)\<lparr>di_device := ''Y''\<rparr>)],
      \<lparr>adapters = [(''govee:1'', govee_light_adapter
          \<lparr>isInitialized = False,
           devices = [''X'' \<mapsto> mapToDevice (lamp_info white_lamp),
                      ''Y'' \<mapsto> mapToDevice ((lamp_info white_lamp)\<lparr>di_device := ''Y''\<rparr>)],
           http = twin_http, remote = white_lamp, sent = [GetDevices]\<rparr>)],
      lm_isInitialized = False\<rparr>)"
  by (simp add: twin_manager_def twin_http_def lm_getDevices_def call_getDevices_def
      govee_light_adapter_def getDevices_def http_call_def updateDeviceCache_def
      mapToDevice_def lamp_info_def)

lemma twin_command_X:
  "lm_executeCommand (effect_light_command player_join_effect ''X'')
      \<lparr>adapters = [(''govee:1'', govee_light_adapter
          \<lparr>isInitialized = False,
           devices = [''X'' \<mapsto> mapToDevice (lamp_info white_lamp),
                      ''Y'' \<mapsto> mapToDevice ((lamp_info white_lamp)\<lparr>di_device := ''Y''\<rparr>)],
           http = twin_http, remote = white_lamp, sent = [GetDevices]\<rparr>)],
      lm_isInitialized = False\<rparr> =
     (Inl (NoAdapterError ''X''),
      twin_ready [''X'' \<mapsto> mapToDevice (lamp_info white_lamp),
                  ''Y'' \<mapsto> mapToDevice ((lamp_info white_lamp)\<lparr>di_device := ''Y''\<rparr>)]
        [GetDevices, GetDevices, PutControl ''X'' ''H6001'' (Color (0, 255, 0))])"
  by (simp add: twin_ready_def twin_http_def manager_defs govee_defs effect_light_command_def
      player_join_effect_def lamp_info_def Let_def
      hexToRgb_def parseInt16_def strip_0x_def hex_digit_def is_space_def)

lemma twin_command_Y:
  "lm_executeCommand (effect_light_command player_join_effect ''Y'')
      (twin_ready [''X'' \<mapsto> mapToDevice (lamp_info white_lamp),
                  ''Y'' \<mapsto> mapToDevice ((lamp_info white_lamp)\<lparr>di_device := ''Y''\<rparr>)]
        [GetDevices, GetDevices, PutControl ''X'' ''H6001'' (Color (0, 255, 0))]) =
     (Inr (),
      twin_ready [''X'' \<mapsto> mapToDevice (lamp_info white_lamp),
                  ''Y'' \<mapsto> (mapToDevice ((lamp_info white_lamp)\<lparr>di_device := ''Y''\<rparr>))
                                \<lparr>dev_color := Some ''#00FF00''\<rparr>]
        [GetDevices, GetDevices, PutControl ''X'' ''H6001'' (Color (0, 255, 0)),
         PutControl ''Y'' ''H6001'' (Color (0, 255, 0)), GetState ''Y'' ''H6001''])"
  by (simp add: twin_ready_def twin_http_def manager_defs govee_defs effect_light_command_def
      player_join_effect_def lamp_info_def Let_def
      hexToRgb_def parseInt16_def strip_0x_def hex_digit_def is_space_def)


lemma mapToDevice_fields:
  "dev_id (mapToDevice i) = di_device i"
  "dev_color (mapToDevice i) = map_option rgbToHex (prop_color (di_properties i))"
  "dev_brightness (mapToDevice i) = prop_brightness (di_properties i)"
  by (simp_all add: mapToDevice_def)

lemma lamp_info_fields:
  "di_device (lamp_info v) = ''X''"
  "di_properties (lamp_info v) = v"
  by (simp_all add: lamp_info_def)

lemma white_hex: "rgbToHex (255, 255, 255) = ''#ffffff''"
  by (simp add: color_defs)

lemma white_lamp_fields:
  "prop_color white_lamp = Some (255, 255, 255)"
  "prop_brightness white_lamp = Some 80"
  by (simp_all add: white_lamp_def)

lemma twin_join:
  "handleEvent (plain_event ''player:join'') (new_GameDinAdapter (twin_manager white_lamp) default_config) =
     (new_GameDinAdapter (twin_manager white_lamp) default_config)
       \<lparr>lightManager :=
          twin_ready [''X'' \<mapsto> mapToDevice (lamp_info white_lamp),
                  ''Y'' \<mapsto> (mapToDevice ((lamp_info white_lamp)\<lparr>di_device := ''Y''\<rparr>))
                                \<lparr>dev_color := Some ''#00FF00''\<rparr>]
            [GetDevices, GetDevices, PutControl ''X'' ''H6001'' (Color (0, 255, 0)),
             PutControl ''Y'' ''H6001'' (Color (0, 255, 0)), GetState ''Y'' ''H6001''],
        deviceStates := [''X'' \<mapsto> \<lparr>ss_color = Some ''#ffffff'', ss_brightness = Some 80\<rparr>,
                         ''Y'' \<mapsto> \<lparr>ss_color = Some ''#ffffff'', ss_brightness = Some 80\<rparr>],
        activeEffects := [''Y'' \<mapsto> 0],
        timers := [\<lparr>t_id = 0, t_deviceId = ''Y'', t_effect = player_join_effect, t_delay = 2000\<rparr>],
        next_timer := 1,
        issued := [effect_light_command player_join_effect ''X'', effect_light_command player_join_effect ''Y''],
        error_log := [ApplyFailed ''X'' (NoAdapterError ''X'')]\<rparr>"
proof -
  have eff: "effects_for (new_GameDinAdapter (twin_manager white_lamp) default_config) ''player:join''
      = [player_join_effect]"
    by (simp add: registry_defs)
  have sel: "select_effect [player_join_effect] (plain_event ''player:join'') = Some player_join_effect"
    by (simp add: select_effect_def effect_matches_def player_join_effect_def)
  have pj: "restorePreviousState player_join_effect = Some True" "duration player_join_effect = Some 2000"
    by (simp_all add: player_join_effect_def)
  have ev: "ev_type (plain_event ''player:join'') = ''player:join''" by (simp add: plain_event_def)
  have fields: "lightManager (new_GameDinAdapter (twin_manager white_lamp) default_config) = twin_manager white_lamp"
    "deviceStates (new_GameDinAdapter (twin_manager white_lamp) default_config) = Map.empty"
    "activeEffects (new_GameDinAdapter (twin_manager white_lamp) default_config) = Map.empty"
    "timers (new_GameDinAdapter (twin_manager white_lamp) default_config) = []"
    "next_timer (new_GameDinAdapter (twin_manager white_lamp) default_config) = 0"
    "issued (new_GameDinAdapter (twin_manager white_lamp) default_config) = []"
    "error_log (new_GameDinAdapter (twin_manager white_lamp) default_config) = []"
    by (simp_all add: registry_defs)
  show ?thesis
    by (simp add: handleEvent_def ev eff Let_def twin_getDevices applyEffectsToDevice_def sel
        apply_effect_def store_state_def clearDeviceEffect_def call_manager_def
        schedule_restoration_def pj fields mapToDevice_fields lamp_info_fields
        twin_command_X twin_command_Y white_hex white_lamp_fields)
qed


section \<open>Lemmas on restoration\<close>

lemma restoreDeviceState_snapshot:
  assumes "deviceStates s d = Some st"
  shows "deviceStates (restoreDeviceState d s) d =
           (case restore_outcome d st (lightManager s) of Inr u \<Rightarrow> None | Inl e \<Rightarrow> Some st)"
  using assms
  by (simp add: restoreDeviceState_def call_manager_eq restore_outcome_def Let_def split_beta
      split: option.splits sum.splits)

lemma restoreDeviceState_log:
  assumes "deviceStates s d = Some st"
  shows "error_log (restoreDeviceState d s) =
           (case restore_outcome d st (lightManager s) of
              Inr u \<Rightarrow> error_log s | Inl e \<Rightarrow> error_log s @ [RestoreFailed d e])"
  using assms
  by (simp add: restoreDeviceState_def call_manager_eq restore_outcome_def Let_def split_beta
      split: option.splits sum.splits)

lemma restoreDeviceState_issued:
  assumes "deviceStates s d = Some st"
  shows "issued (restoreDeviceState d s) = issued s @ restore_issued d st (lightManager s)"
  using assms
  by (simp add: restoreDeviceState_def call_manager_eq restore_issued_def restore_commands_def
      Let_def split_beta split: option.splits sum.splits)



lemma fire_restoring:
  assumes "timers_ok s" and "t \<in> set (timers s)" and "restorePreviousState (t_effect t) = Some True"
    and "deviceStates s (t_deviceId t) = Some st"
  shows "deviceStates (fire_timer (t_id t) s) (t_deviceId t) =
           (case restore_outcome (t_deviceId t) st (lightManager s) of Inr u \<Rightarrow> None | Inl e \<Rightarrow> Some st)"
    and "error_log (fire_timer (t_id t) s) =
           (case restore_outcome (t_deviceId t) st (lightManager s) of
              Inr u \<Rightarrow> error_log s | Inl e \<Rightarrow> error_log s @ [RestoreFailed (t_deviceId t) e])"
    and "issued (fire_timer (t_id t) s) = issued s @ restore_issued (t_deviceId t) st (lightManager s)"
    and "d' \<noteq> t_deviceId t \<Longrightarrow> deviceStates (fire_timer (t_id t) s) d' = deviceStates s d'"
proof -
  let ?s0 = "s\<lparr>timers := filter (\<lambda>u. t_id u \<noteq> t_id t) (timers s)\<rparr>"
  have eq: "fire_timer (t_id t) s = clearDeviceEffect (t_deviceId t) (restoreDeviceState (t_deviceId t) ?s0)"
    using fire_timer_pending[OF assms(1,2)] assms(3) by simp
  have st0: "deviceStates ?s0 (t_deviceId t) = Some st" using assms(4) by simp
  show "deviceStates (fire_timer (t_id t) s) (t_deviceId t) =
           (case restore_outcome (t_deviceId t) st (lightManager s) of Inr u \<Rightarrow> None | Inl e \<Rightarrow> Some st)"
    using restoreDeviceState_snapshot[OF st0] by (simp add: eq split: sum.splits)
  show "error_log (fire_timer (t_id t) s) =
           (case restore_outcome (t_deviceId t) st (lightManager s) of
              Inr u \<Rightarrow> error_log s | Inl e \<Rightarrow> error_log s @ [RestoreFailed (t_deviceId t) e])"
    using restoreDeviceState_log[OF st0] by (simp add: eq split: sum.splits)
  show "issued (fire_timer (t_id t) s) = issued s @ restore_issued (t_deviceId t) st (lightManager s)"
    using restoreDeviceState_issued[OF st0] by (simp add: eq)
  show "deviceStates (fire_timer (t_id t) s) d' = deviceStates s d'" if "d' \<noteq> t_deviceId t"
    using that by (simp add: eq restore_fields)
qed

subsection \<open>Further facts on the dispatcher and the scenarios\<close>

lemma lamp_dispatcher_fields:
  "lightManager (lamp_dispatcher accepts v) = lamp_manager accepts v"
  "deviceStates (lamp_dispatcher accepts v) = Map.empty"
  "activeEffects (lamp_dispatcher accepts v) = Map.empty"
  "timers (lamp_dispatcher accepts v) = []"
  "next_timer (lamp_dispatcher accepts v) = 0"
  "issued (lamp_dispatcher accepts v) = []"
  "error_log (lamp_dispatcher accepts v) = []"
  by (simp_all add: lamp_dispatcher_def registry_defs)

lemma reachable_lamp_joined:
  "reachable (handleEvent (plain_event ''player:join'') (lamp_dispatcher accepts v))"
  by (rule r_handleEvent) (rule reachable_lamp_dispatcher)

lemma player_join_fields:
  "restorePreviousState player_join_effect = Some True"
  "duration player_join_effect = Some 2000"
  "eventType player_join_effect = ''player:join''"
  by (simp_all add: player_join_effect_def)

lemma handleEvent_issued:
  assumes "select_effect (effects_for s (ev_type event)) event = Some e"
  shows "issued (handleEvent event s) =
     issued s @ map (\<lambda>dev. effect_light_command e (dev_id dev)) (fst (lm_getDevices (lightManager s)))"
proof -
  let ?effs = "effects_for s (ev_type event)"
  have ne: "?effs \<noteq> []" using assms by (auto simp: select_effect_def)
  have loop: "issued (foldl (\<lambda>s1 dev. applyEffectsToDevice dev ?effs event s1) s0 devs) =
      issued s0 @ map (\<lambda>dev. effect_light_command e (dev_id dev)) devs"
    for devs and s0 :: "'a gamedin_adapter"
    by (induction devs arbitrary: s0) (simp_all add: applyEffectsToDevice_def assms apply_effect_issued)
  show ?thesis using ne by (simp add: handleEvent_def Let_def split_beta loop)
qed

lemma lamp_getDevices:
  "lm_getDevices (lamp_manager accepts v) =
     ([mapToDevice (lamp_info v)],
      \<lparr>adapters = [(''govee:1'', govee_light_adapter
          \<lparr>isInitialized = False, devices = [''X'' \<mapsto> mapToDevice (lamp_info v)],
           http = lamp_http accepts, remote = v, sent = [GetDevices]\<rparr>)],
      lm_isInitialized = False\<rparr>)"
  by (simp add: lamp_manager_def lamp_adapter_def lamp_http_def lm_getDevices_def call_getDevices_def
      govee_light_adapter_def getDevices_def http_call_def updateDeviceCache_def
      mapToDevice_def lamp_info_def)



section \<open>Lemmas on the dispatcher under the event loop\<close>

subsection \<open>The timer discipline is kept while events do not overlap\<close>

lemma apply_effect_split:
  "apply_effect dev e s = finish_apply dev e (fst (begin_apply dev e s)) (snd (begin_apply dev e s))"
  by (simp add: apply_effect_def begin_apply_def finish_apply_def Let_def split_beta)

lemma one_timer_each_fields [simp]:
  "one_timer_each (s\<lparr>lightManager := m\<rparr>) = one_timer_each s"
  "one_timer_each (s\<lparr>issued := i\<rparr>) = one_timer_each s"
  "one_timer_each (s\<lparr>error_log := l\<rparr>) = one_timer_each s"
  "one_timer_each (s\<lparr>effects := f\<rparr>) = one_timer_each s"
  "one_timer_each (s\<lparr>deviceStates := d\<rparr>) = one_timer_each s"
  by (simp_all add: one_timer_each_def)

lemma one_timer_each_clear:
  assumes "one_timer_each s"
  shows "one_timer_each (clearDeviceEffect d s)"
    and "\<forall>t \<in> set (timers (clearDeviceEffect d s)). t_deviceId t \<noteq> d"
  using assms
  by (auto simp: one_timer_each_def clearDeviceEffect_def distinct_map_filter split: option.splits)

lemma clear_timers_subset: "set (timers (clearDeviceEffect d s)) \<subseteq> set (timers s)"
  by (auto simp: clearDeviceEffect_def split: option.splits)

lemma timers_begin_apply:
  "timers (snd (begin_apply dev e s)) = timers (clearDeviceEffect (dev_id dev) s)"
  "activeEffects (snd (begin_apply dev e s)) = activeEffects (clearDeviceEffect (dev_id dev) s)"
  "next_timer (snd (begin_apply dev e s)) = next_timer s"
  by (simp_all add: begin_apply_def call_manager_eq Let_def clearDeviceEffect_def store_state_def
      split: option.splits)

lemma one_timer_each_cong:
  "timers s' = timers s \<Longrightarrow> activeEffects s' = activeEffects s \<Longrightarrow> one_timer_each s' = one_timer_each s"
  by (simp add: one_timer_each_def)

lemma one_timer_each_begin:
  assumes "one_timer_each s"
  shows "one_timer_each (snd (begin_apply dev e s))"
    and "\<forall>t \<in> set (timers (snd (begin_apply dev e s))). t_deviceId t \<noteq> dev_id dev"
proof -
  have "one_timer_each (snd (begin_apply dev e s)) = one_timer_each (clearDeviceEffect (dev_id dev) s)"
    by (rule one_timer_each_cong) (simp_all add: timers_begin_apply)
  then show "one_timer_each (snd (begin_apply dev e s))" using one_timer_each_clear(1)[OF assms] by simp
  show "\<forall>t \<in> set (timers (snd (begin_apply dev e s))). t_deviceId t \<noteq> dev_id dev"
    using one_timer_each_clear(2)[OF assms] by (simp add: timers_begin_apply)
qed

lemma one_timer_each_schedule:
  assumes "one_timer_each s" and "\<forall>t \<in> set (timers s). t_deviceId t \<noteq> d"
  shows "one_timer_each (schedule_restoration d e k s)"
  using assms by (auto simp: one_timer_each_def schedule_restoration_def)

lemma one_timer_each_finish:
  assumes "one_timer_each s" and "\<forall>t \<in> set (timers s). t_deviceId t \<noteq> dev_id dev"
  shows "one_timer_each (finish_apply dev e res s)"
  using assms by (simp add: finish_apply_def one_timer_each_schedule split: sum.splits option.splits)

lemma finish_timers_subset:
  "\<forall>t \<in> set (timers (finish_apply dev e res s)). t \<in> set (timers s) \<or> t_deviceId t = dev_id dev"
  by (auto simp: finish_apply_def schedule_restoration_def split: sum.splits option.splits if_splits)


lemma commanded_in_handleEvent: "commanded task = Some d \<Longrightarrow> in_handleEvent task"
  by (cases task) simp_all

lemma next_device_orderly:
  assumes "one_timer_each s" and "next_device ev devs s = (task, s')"
  shows "one_timer_each s'"
    and "set (timers s') \<subseteq> set (timers s)"
    and "\<forall>x. task = Some x \<longrightarrow> in_handleEvent x \<and> (\<forall>t \<in> set (timers s'). commanded x \<noteq> Some (t_deviceId t))"
proof -
  show "one_timer_each s'"
    using assms one_timer_each_begin(1)[OF assms(1)]
    by (cases devs) (auto simp: split_beta Let_def split: option.splits)
  have sub: "set (timers (snd (begin_apply a e s))) \<subseteq> set (timers s)" for a e
    using clear_timers_subset[of "dev_id a" s] by (simp add: timers_begin_apply)
  show "set (timers s') \<subseteq> set (timers s)"
  proof (cases devs)
    case Nil
    then show ?thesis using assms(2) by simp
  next
    case (Cons a rest)
    show ?thesis
    proof (cases "select_effect (effects_for s (ev_type ev)) ev")
      case None
      then show ?thesis using assms(2) Cons by simp
    next
      case (Some e)
      then have "s' = snd (begin_apply a e s)" using assms(2) Cons by (simp add: split_beta)
      then show ?thesis using sub by simp
    qed
  qed
  show "\<forall>x. task = Some x \<longrightarrow> in_handleEvent x \<and> (\<forall>t \<in> set (timers s'). commanded x \<noteq> Some (t_deviceId t))"
  proof (cases devs)
    case Nil
    then show ?thesis using assms(2) by simp
  next
    case (Cons a rest)
    show ?thesis
    proof (cases "select_effect (effects_for s (ev_type ev)) ev")
      case None
      then show ?thesis using assms(2) Cons by auto
    next
      case (Some e)
      then have eq: "s' = snd (begin_apply a e s)"
        "task = Some (AwaitCommand ev rest a e (fst (begin_apply a e s)))"
        using assms(2) Cons by (auto simp: split_beta)
      show ?thesis using one_timer_each_begin(2)[OF assms(1), of a e] by (auto simp: eq)
    qed
  qed
qed

lemma restore_brightness_orderly:
  assumes "restore_brightness d st s = (task, s')"
  shows "timers s' = timers s" and "activeEffects s' = activeEffects s"
    and "\<forall>x. task = Some x \<longrightarrow> \<not> in_handleEvent x"
  using assms
  by (auto simp: restore_brightness_def call_manager_eq Let_def split: option.splits)

lemma start_restore_orderly:
  assumes "start_restore d s = (task, s')"
  shows "timers s' = timers s" and "activeEffects s' = activeEffects s"
    and "\<forall>x. task = Some x \<longrightarrow> \<not> in_handleEvent x"
  using assms
  by (auto simp: start_restore_def restore_brightness_def call_manager_eq Let_def split: option.splits)

lemma one_timer_each_fired:
  assumes "one_timer_each s"
  shows "one_timer_each (s\<lparr>timers := filter (\<lambda>u. t_id u \<noteq> k) (timers s)\<rparr>)"
  using assms by (auto simp: one_timer_each_def distinct_map_filter)

lemma start_timer_cases:
  assumes "start_timer k s = (task, s')"
  shows "(task = None \<and> s' = s \<and> find (\<lambda>t. t_id t = k) (timers s) = None) \<or>
         (\<exists>d. start_restore d (s\<lparr>timers := filter (\<lambda>u. t_id u \<noteq> k) (timers s)\<rparr>) = (task, s')) \<or>
         (\<exists>d. task = None \<and> s' = clearDeviceEffect d (s\<lparr>timers := filter (\<lambda>u. t_id u \<noteq> k) (timers s)\<rparr>))"
proof (cases "find (\<lambda>t. t_id t = k) (timers s)")
  case None
  then show ?thesis using assms by (simp add: start_timer_def)
next
  case (Some t)
  show ?thesis
  proof (cases "restorePreviousState (t_effect t) = Some True")
    case True
    then have "start_restore (t_deviceId t) (s\<lparr>timers := filter (\<lambda>u. t_id u \<noteq> k) (timers s)\<rparr>) = (task, s')"
      using assms Some by (simp add: start_timer_def)
    then show ?thesis by blast
  next
    case False
    then have "task = None \<and> s' = clearDeviceEffect (t_deviceId t) (s\<lparr>timers := filter (\<lambda>u. t_id u \<noteq> k) (timers s)\<rparr>)"
      using assms Some by (simp add: start_timer_def)
    then show ?thesis by blast
  qed
qed

lemma start_timer_orderly:
  assumes "one_timer_each s" and "start_timer k s = (task, s')"
  shows "one_timer_each s' \<and> set (timers s') \<subseteq> set (timers s) \<and>
         (\<forall>x. task = Some x \<longrightarrow> \<not> in_handleEvent x)"
proof -
  let ?s0 = "s\<lparr>timers := filter (\<lambda>u. t_id u \<noteq> k) (timers s)\<rparr>"
  have ok0: "one_timer_each ?s0" using assms(1) by (rule one_timer_each_fired)
  consider "task = None \<and> s' = s"
    | d where "start_restore d ?s0 = (task, s')"
    | d where "task = None \<and> s' = clearDeviceEffect d ?s0"
    using start_timer_cases[OF assms(2)] by blast
  then show ?thesis
  proof cases
    case 1
    then show ?thesis using assms(1) by simp
  next
    case 2
    have "one_timer_each s' = one_timer_each ?s0"
      by (rule one_timer_each_cong) (simp_all add: start_restore_orderly[OF 2])
    then show ?thesis using ok0 start_restore_orderly[OF 2] by auto
  next
    case 3
    then show ?thesis
      using one_timer_each_clear(1)[OF ok0, of d] clear_timers_subset[of d ?s0] by auto
  qed
qed

lemma one_timer_each_dispose: "one_timer_each s \<Longrightarrow> timers (dispose s) = []"
  by (auto simp: one_timer_each_def dispose_def filter_empty_conv)

lemma list_at:
  assumes "i < length xs"
  shows "\<exists>A B. xs = A @ (xs ! i) # B \<and> take i xs @ drop (Suc i) xs = A @ B \<and> xs[i := y] = A @ y # B"
  using assms id_take_nth_drop[OF assms] upd_conv_take_nth_drop[OF assms] by blast


lemma fresh_cong:
  "timers s' = timers s \<Longrightarrow> next_timer s' = next_timer s \<Longrightarrow> fresh_handles s' = fresh_handles s"
  by (simp add: fresh_handles_def)

lemma fresh_clear: "fresh_handles s \<Longrightarrow> fresh_handles (clearDeviceEffect d s)"
  by (auto simp: fresh_handles_def clearDeviceEffect_def distinct_map_filter split: option.splits)

lemma fresh_fired: "fresh_handles s \<Longrightarrow> fresh_handles (s\<lparr>timers := filter (\<lambda>u. t_id u \<noteq> k) (timers s)\<rparr>)"
  by (auto simp: fresh_handles_def distinct_map_filter)

lemma fresh_schedule: "fresh_handles s \<Longrightarrow> fresh_handles (schedule_restoration d e k s)"
  by (fastforce simp: fresh_handles_def schedule_restoration_def)

lemma fresh_begin: "fresh_handles s \<Longrightarrow> fresh_handles (snd (begin_apply dev e s))"
proof -
  assume a: "fresh_handles s"
  have "fresh_handles (snd (begin_apply dev e s)) = fresh_handles (clearDeviceEffect (dev_id dev) s)"
    by (rule fresh_cong) (simp_all add: timers_begin_apply)
  then show ?thesis using fresh_clear[OF a] by simp
qed

lemma fresh_fields [simp]:
  "fresh_handles (s\<lparr>lightManager := m\<rparr>) = fresh_handles s"
  "fresh_handles (s\<lparr>issued := i\<rparr>) = fresh_handles s"
  "fresh_handles (s\<lparr>error_log := l\<rparr>) = fresh_handles s"
  "fresh_handles (s\<lparr>effects := f\<rparr>) = fresh_handles s"
  "fresh_handles (s\<lparr>deviceStates := d\<rparr>) = fresh_handles s"
  by (simp_all add: fresh_handles_def)

lemma fresh_finish: "fresh_handles s \<Longrightarrow> fresh_handles (finish_apply dev e res s)"
  by (simp add: finish_apply_def fresh_schedule split: sum.splits option.splits)

lemma fresh_dispose: "fresh_handles s \<Longrightarrow> fresh_handles (dispose s)"
  by (auto simp: fresh_handles_def dispose_def distinct_map_filter)

lemma next_device_fresh:
  assumes "fresh_handles s" and "next_device ev devs s = (task, s')"
  shows "fresh_handles s'"
proof (cases devs)
  case Nil
  then show ?thesis using assms by simp
next
  case (Cons a rest)
  show ?thesis
  proof (cases "select_effect (effects_for s (ev_type ev)) ev")
    case None
    then show ?thesis using assms Cons by simp
  next
    case (Some e)
    then have "s' = snd (begin_apply a e s)" using assms(2) Cons by (simp add: split_beta)
    then show ?thesis using fresh_begin[OF assms(1)] by simp
  qed
qed

lemma start_timer_fresh:
  assumes "fresh_handles s" and "start_timer k s = (task, s')"
  shows "fresh_handles s'"
proof -
  let ?s0 = "s\<lparr>timers := filter (\<lambda>u. t_id u \<noteq> k) (timers s)\<rparr>"
  have ok0: "fresh_handles ?s0" using assms(1) by (rule fresh_fired)
  consider "task = None \<and> s' = s"
    | d where "start_restore d ?s0 = (task, s')"
    | d where "task = None \<and> s' = clearDeviceEffect d ?s0"
    using start_timer_cases[OF assms(2)] by blast
  then show ?thesis
  proof cases
    case 1
    then show ?thesis using assms(1) by simp
  next
    case 2
    have "next_timer s' = next_timer ?s0"
      using 2 by (auto simp: start_restore_def restore_brightness_def call_manager_eq Let_def split: option.splits)
    then have "fresh_handles s' = fresh_handles ?s0"
      by (intro fresh_cong) (simp_all add: start_restore_orderly[OF 2])
    then show ?thesis using ok0 by simp
  next
    case 3
    then show ?thesis using fresh_clear[OF ok0, of d] by simp
  qed
qed

lemma not_commanded: "\<not> in_handleEvent task \<Longrightarrow> commanded task = None"
  by (cases task) simp_all

lemma restore_brightness_next:
  "restore_brightness d st s = (task, s') \<Longrightarrow> next_timer s' = next_timer s"
  by (auto simp: restore_brightness_def call_manager_eq Let_def split: option.splits)

lemma resume_task_orderly:
  assumes "one_timer_each s" and "fresh_handles s"
    and "\<forall>t \<in> set (timers s). commanded x \<noteq> Some (t_deviceId t)"
    and "resume_task x s = (task, s')"
  shows "one_timer_each s' \<and> fresh_handles s' \<and>
         (\<forall>t \<in> set (timers s'). t \<in> set (timers s) \<or> commanded x = Some (t_deviceId t)) \<and>
         (\<forall>y. task = Some y \<longrightarrow>
            (in_handleEvent y \<longrightarrow> in_handleEvent x) \<and>
            (\<forall>t \<in> set (timers s'). commanded y \<noteq> Some (t_deviceId t)))"
proof (cases x)
  case (AwaitDevices ev devs)
  then have eq: "next_device ev devs s = (task, s')" using assms(4) by simp
  show ?thesis
    using next_device_orderly[OF assms(1) eq] next_device_fresh[OF assms(2) eq] AwaitDevices
    by auto
next
  case (AwaitApplied ev devs)
  then have eq: "next_device ev devs s = (task, s')" using assms(4) by simp
  show ?thesis
    using next_device_orderly[OF assms(1) eq] next_device_fresh[OF assms(2) eq] AwaitApplied
    by auto
next
  case (AwaitCommand ev rest dev e res)
  then have eq: "task = Some (AwaitApplied ev rest)" "s' = finish_apply dev e res s"
    using assms(4) by auto
  have no: "\<forall>t \<in> set (timers s). t_deviceId t \<noteq> dev_id dev"
    using assms(3) AwaitCommand by auto
  show ?thesis
    using one_timer_each_finish[OF assms(1) no, of e res] fresh_finish[OF assms(2), of dev e res]
      finish_timers_subset[of dev e res s] AwaitCommand
    by (auto simp: eq)
next
  case (AwaitColor d st res)
  show ?thesis
  proof (cases res)
    case (Inl err)
    then show ?thesis using assms AwaitColor by auto
  next
    case (Inr u)
    then have eq: "restore_brightness d st s = (task, s')" using assms(4) AwaitColor by simp
    have a: "one_timer_each s' = one_timer_each s"
      by (rule one_timer_each_cong) (simp_all add: restore_brightness_orderly[OF eq])
    have b: "fresh_handles s' = fresh_handles s"
      by (rule fresh_cong) (simp_all add: restore_brightness_orderly[OF eq] restore_brightness_next[OF eq])
    show ?thesis
      using a b assms(1,2) restore_brightness_orderly[OF eq] AwaitColor not_commanded
      by auto
  qed
next
  case (AwaitBrightness d res)
  then show ?thesis using assms by (cases res) auto
next
  case (AwaitRestored d)
  then have eq: "task = None" "s' = clearDeviceEffect d s" using assms(4) by auto
  show ?thesis
    using one_timer_each_clear(1)[OF assms(1), of d] fresh_clear[OF assms(2), of d]
      clear_timers_subset[of d s]
    by (auto simp: eq)
qed


lemma orderly_spawn:
  assumes "one_timer_each s'" and "fresh_handles s'"
    and "length (filter in_handleEvent tasks) \<le> 1"
    and "\<forall>task \<in> set tasks. \<forall>t \<in> set (timers s'). commanded task \<noteq> Some (t_deviceId t)"
    and "\<forall>x. task = Some x \<longrightarrow> \<not> in_handleEvent x"
  shows "orderly (spawn tasks (task, s'))"
  using assms by (cases task) (auto simp: orderly_def spawn_def not_commanded)

lemma orderly_same_timers:
  assumes "orderly (tasks, s)" and "timers s' = timers s" and "activeEffects s' = activeEffects s"
    and "next_timer s' = next_timer s"
  shows "orderly (tasks, s')"
proof -
  have "one_timer_each s' = one_timer_each s" using assms(2,3) by (rule one_timer_each_cong)
  moreover have "fresh_handles s' = fresh_handles s" using assms(2,4) by (rule fresh_cong)
  ultimately show ?thesis using assms by (simp add: orderly_def)
qed

lemma orderly_handleEvent:
  assumes "orderly (tasks, s)" and "\<not> list_ex in_handleEvent tasks"
  shows "orderly (act (HandleEvent ev) (tasks, s))"
proof (cases "effects_for s (ev_type ev) = []")
  case True
  then show ?thesis using assms(1) by (simp add: start_handleEvent_def spawn_def)
next
  case False
  have none: "filter in_handleEvent tasks = []"
    using assms(2) by (simp add: list_ex_iff filter_empty_conv)
  have ok: "orderly (tasks, s\<lparr>lightManager := snd (lm_getDevices (lightManager s))\<rparr>)"
    using assms(1) by (rule orderly_same_timers) simp_all
  show ?thesis
    using False ok none
    by (simp add: start_handleEvent_def spawn_def split_beta orderly_def)
qed

lemma orderly_fire:
  assumes "orderly (tasks, s)"
  shows "orderly (act (Fire k) (tasks, s))"
proof -
  obtain task s' where eq: "start_timer k s = (task, s')" by (cases "start_timer k s")
  have a: "one_timer_each s" and b: "fresh_handles s" using assms by (simp_all add: orderly_def)
  have c: "one_timer_each s'" "set (timers s') \<subseteq> set (timers s)" "\<forall>x. task = Some x \<longrightarrow> \<not> in_handleEvent x"
    using start_timer_orderly[OF a eq] by blast+
  have d: "fresh_handles s'" using b eq by (rule start_timer_fresh)
  have "orderly (spawn tasks (task, s'))"
    using c d assms by (intro orderly_spawn) (auto simp: orderly_def)
  then show ?thesis by (simp add: eq)
qed

lemma orderly_resume:
  assumes "orderly (tasks, s)"
  shows "orderly (act (Resume i) (tasks, s))"
proof (cases "i < length tasks")
  case False
  then show ?thesis using assms by simp
next
  case True
  let ?x = "tasks ! i"
  obtain task s' where eq: "resume_task ?x s = (task, s')" by (cases "resume_task ?x s")
  obtain A B where parts: "tasks = A @ ?x # B" "take i tasks @ drop (Suc i) tasks = A @ B"
      "\<And>y. tasks[i := y] = A @ y # B"
    using id_take_nth_drop[OF True] upd_conv_take_nth_drop[OF True] by blast
  have a: "one_timer_each s" and b: "fresh_handles s"
    and cnt: "length (filter in_handleEvent tasks) \<le> 1"
    and cmd: "\<forall>y \<in> set tasks. \<forall>t \<in> set (timers s). commanded y \<noteq> Some (t_deviceId t)"
    using assms by (simp_all add: orderly_def)
  have xin: "?x \<in> set tasks" using True by simp
  have cx: "\<forall>t \<in> set (timers s). commanded ?x \<noteq> Some (t_deviceId t)" using cmd xin by blast
  note r = resume_task_orderly[OF a b cx eq]
  have r1: "one_timer_each s'" and r2: "fresh_handles s'" using r by blast+
  have r3: "\<forall>t \<in> set (timers s'). t \<in> set (timers s) \<or> commanded ?x = Some (t_deviceId t)"
    using r by blast
  have r4: "\<forall>y. task = Some y \<longrightarrow> (in_handleEvent y \<longrightarrow> in_handleEvent ?x) \<and>
            (\<forall>t \<in> set (timers s'). commanded y \<noteq> Some (t_deviceId t))"
    using r by blast
  have cntAB: "length (filter in_handleEvent A) + (if in_handleEvent ?x then 1 else 0) +
      length (filter in_handleEvent B) \<le> 1"
    using cnt by (subst (asm) parts(1)) (auto split: if_splits)
  have others: "\<forall>y \<in> set A \<union> set B. \<forall>t \<in> set (timers s'). commanded y \<noteq> Some (t_deviceId t)"
  proof (intro ballI)
    fix y t assume y: "y \<in> set A \<union> set B" and t: "t \<in> set (timers s')"
    have yin: "y \<in> set tasks" using y by (subst parts(1)) auto
    show "commanded y \<noteq> Some (t_deviceId t)"
    proof (cases "t \<in> set (timers s)")
      case True
      then show ?thesis using cmd yin by blast
    next
      case False
      then have "commanded ?x = Some (t_deviceId t)" using r3 t by blast
      then have "in_handleEvent ?x" by (rule commanded_in_handleEvent)
      then have "filter in_handleEvent A = []" "filter in_handleEvent B = []" using cntAB by simp_all
      then have "\<not> in_handleEvent y" using y by (auto simp: filter_empty_conv)
      then show ?thesis by (simp add: not_commanded)
    qed
  qed
  show ?thesis
  proof (cases task)
    case None
    have "orderly (A @ B, s')"
      using r1 r2 cntAB others by (auto simp: orderly_def split: if_splits)
    then show ?thesis using True eq None parts(2) by simp
  next
    case (Some y)
    have "orderly (A @ y # B, s')"
      using r1 r2 cntAB others r4 Some by (auto simp: orderly_def split: if_splits)
    then show ?thesis using True eq Some parts(3) by simp
  qed
qed

lemma orderly_dispose:
  assumes "orderly (tasks, s)"
  shows "orderly (tasks, dispose s)"
proof -
  have "timers (dispose s) = []" using assms by (simp add: orderly_def one_timer_each_dispose)
  moreover have "fresh_handles (dispose s)" using assms by (simp add: orderly_def fresh_dispose)
  ultimately show ?thesis using assms by (simp add: orderly_def one_timer_each_def)
qed

lemma orderly_act:
  assumes "orderly c" and "admitted a (fst c)"
  shows "orderly (act a c)"
proof -
  obtain tasks s where c: "c = (tasks, s)" by (cases c)
  have o: "orderly (tasks, s)" using assms(1) c by simp
  show ?thesis
  proof (cases a)
    case (HandleEvent ev)
    then show ?thesis using orderly_handleEvent[OF o] assms(2) c by simp
  next
    case (Fire k)
    then show ?thesis using orderly_fire[OF o] c by simp
  next
    case (Resume i)
    then show ?thesis using orderly_resume[OF o] c by simp
  next
    case (AddEffect e)
    have "orderly (tasks, addEffect e s)"
      using o by (rule orderly_same_timers) (simp_all add: addEffect_def Let_def)
    then show ?thesis using AddEffect c by simp
  next
    case (RemoveEffect ty i)
    have "orderly (tasks, removeEffect ty i s)"
      using o by (rule orderly_same_timers) (simp_all add: removeEffect_def split: option.splits)
    then show ?thesis using RemoveEffect c by simp
  next
    case Dispose
    then show ?thesis using orderly_dispose[OF o] c by simp
  next
    case Initialize
    have "orderly (tasks, gd_initialize s)"
      using o by (rule orderly_same_timers) (simp_all add: gd_initialize_def)
    then show ?thesis using Initialize c by simp
  next
    case (UseManager m)
    have "orderly (tasks, s\<lparr>lightManager := m\<rparr>)"
      using o by (rule orderly_same_timers) simp_all
    then show ?thesis using UseManager c by simp
  qed
qed

lemma orderly_run:
  "orderly c \<Longrightarrow> one_at_a_time acts c \<Longrightarrow> orderly (run acts c)"
proof (induction acts arbitrary: c)
  case Nil
  then show ?case by (simp add: run_def)
next
  case (Cons a acts)
  have "orderly (act a c)" using Cons.prems by (intro orderly_act) simp_all
  then have "orderly (run acts (act a c))" using Cons.prems by (intro Cons.IH) simp_all
  then show ?case by (simp add: run_def)
qed

lemma orderly_new: "orderly ([], new_GameDinAdapter lm cfg)"
  using timers_ok_new[of lm cfg]
  by (auto simp: orderly_def one_timer_each_def fresh_handles_def timers_ok_def)

lemma start_timer_gone:
  "\<forall>t \<in> set (timers (snd (start_timer k s))). t_id t \<noteq> k"
proof -
  obtain task s' where eq: "start_timer k s = (task, s')" by (cases "start_timer k s")
  let ?s0 = "s\<lparr>timers := filter (\<lambda>u. t_id u \<noteq> k) (timers s)\<rparr>"
  consider "task = None \<and> s' = s \<and> find (\<lambda>t. t_id t = k) (timers s) = None"
    | d where "start_restore d ?s0 = (task, s')"
    | d where "task = None \<and> s' = clearDeviceEffect d ?s0"
    using start_timer_cases[OF eq] by blast
  then have "\<forall>t \<in> set (timers s'). t_id t \<noteq> k"
  proof cases
    case 1
    then show ?thesis by (auto simp: find_None_iff)
  next
    case 2
    show ?thesis using start_restore_orderly(1)[OF 2] by simp
  next
    case 3
    then show ?thesis using clear_timers_subset[of d ?s0] by auto
  qed
  then show ?thesis by (simp add: eq)
qed

lemma start_timer_again: "start_timer k (snd (start_timer k s)) = (None, snd (start_timer k s))"
proof -
  have "find (\<lambda>t. t_id t = k) (timers (snd (start_timer k s))) = None"
    using start_timer_gone[of k s] by (auto simp: find_None_iff)
  then show ?thesis by (simp add: start_timer_def)
qed

lemma begin_apply_issued:
  "issued (snd (begin_apply dev e s)) = issued s @ [effect_light_command e (dev_id dev)]"
  by (simp add: begin_apply_def call_manager_eq Let_def)

lemma begin_apply_deviceStates:
  "deviceStates (snd (begin_apply dev e s)) = deviceStates (store_state dev e s)"
  by (simp add: begin_apply_def call_manager_eq Let_def)

lemma finish_apply_new_timer:
  assumes "\<forall>t \<in> set (timers s). t_deviceId t \<noteq> dev_id dev"
  shows "\<forall>t \<in> set (timers (finish_apply dev e res s)).
           t_deviceId t = dev_id dev \<longrightarrow> t_id t = next_timer s \<and> t_effect t = e"
  using assms
  by (auto simp: finish_apply_def schedule_restoration_def split: sum.splits option.splits if_splits)

subsection \<open>A call that is not interrupted does what its run-to-completion form does\<close>

lemma effects_begin_apply: "effects (snd (begin_apply dev e s)) = effects s"
  by (simp add: begin_apply_def call_manager_eq Let_def clearDeviceEffect_def store_state_def
      split: option.splits)

lemma effects_finish_apply: "effects (finish_apply dev e res s) = effects s"
  by (simp add: finish_apply_def schedule_restoration_def split: sum.splits option.splits)

lemma effects_for_apply_effect: "effects_for (apply_effect dev e s) t = effects_for s t"
  by (simp add: effects_for_def apply_effect_split effects_finish_apply effects_begin_apply)

lemma drive_loop:
  "2 * length devs \<le> n \<Longrightarrow>
   drive n (next_device ev devs s) =
     (None, foldl (\<lambda>s1 dev. applyEffectsToDevice dev (effects_for s (ev_type ev)) ev s1) s devs)"
proof (induction devs arbitrary: n s)
  case Nil
  then show ?case by simp
next
  case (Cons dev rest)
  then obtain m where n: "n = Suc (Suc m)" and m: "2 * length rest \<le> m"
    by (cases n) (auto, metis Suc_le_D Suc_le_mono)
  show ?case
  proof (cases "select_effect (effects_for s (ev_type ev)) ev")
    case None
    have "2 * length rest \<le> Suc m" using m by simp
    then show ?thesis
      using None Cons.IH[of "Suc m" s] by (simp add: n applyEffectsToDevice_def)
  next
    case (Some e)
    have eff: "effects_for (apply_effect dev e s) (ev_type ev) = effects_for s (ev_type ev)"
      by (rule effects_for_apply_effect)
    show ?thesis
      using Some Cons.IH[OF m, of "apply_effect dev e s"]
      by (simp add: n applyEffectsToDevice_def split_beta eff apply_effect_split[symmetric])
  qed
qed

lemma handleEvent_uninterrupted:
  assumes "2 * length (fst (lm_getDevices (lightManager s))) < n"
  shows "drive n (start_handleEvent ev s) = (None, handleEvent ev s)"
proof (cases "effects_for s (ev_type ev) = []")
  case True
  then show ?thesis by (simp add: start_handleEvent_def handleEvent_def)
next
  case False
  obtain m where n: "n = Suc m" and m: "2 * length (fst (lm_getDevices (lightManager s))) \<le> m"
    using assms by (cases n) auto
  let ?s1 = "s\<lparr>lightManager := snd (lm_getDevices (lightManager s))\<rparr>"
  have eff: "effects_for ?s1 (ev_type ev) = effects_for s (ev_type ev)" by (simp add: effects_for_def)
  show ?thesis
    using False drive_loop[OF m, of ev ?s1]
    by (simp add: start_handleEvent_def handleEvent_def split_beta n eff Let_def)
qed

lemma run_uninterrupted:
  "run (replicate n (Resume 0)) (spawn [] r) = spawn [] (drive n r)"
proof (induction n arbitrary: r)
  case 0
  then show ?case by (cases r; cases "fst r") (auto simp: run_def)
next
  case (Suc n)
  obtain task s where r: "r = (task, s)" by (cases r)
  show ?case
  proof (cases task)
    case None
    have idle: "run (replicate k (Resume 0)) ([], s) = ([], s)" for k
      by (induction k) (simp_all add: run_def)
    show ?thesis using idle[of "Suc n"] None r by (simp add: spawn_def)
  next
    case (Some t)
    have "act (Resume 0) ([t], s) = spawn [] (resume_task t s)"
      by (cases "resume_task t s"; cases "fst (resume_task t s)") (auto simp: spawn_def)
    then have "run (replicate (Suc n) (Resume 0)) (spawn [] r) = run (replicate n (Resume 0)) (spawn [] (resume_task t s))"
      using Some r by (simp add: run_def spawn_def)
    then show ?thesis using Suc.IH[of "resume_task t s"] Some r by simp
  qed
qed

lemma fire_timer_uninterrupted:
  "drive 3 (start_timer k s) = (None, fire_timer k s)"
proof (cases "find (\<lambda>t. t_id t = k) (timers s)")
  case None
  then show ?thesis by (simp add: start_timer_def fire_timer_def)
next
  case (Some t)
  let ?s0 = "s\<lparr>timers := filter (\<lambda>u. t_id u \<noteq> k) (timers s)\<rparr>"
  have three: "(3::nat) = Suc (Suc (Suc 0))" by simp
  have "drive 3 (start_restore d ?s0) = (None, clearDeviceEffect d (restoreDeviceState d ?s0))" for d
    unfolding three
    by (simp add: start_restore_def restore_brightness_def restoreDeviceState_def call_manager_eq
        Let_def split: option.splits sum.splits)
  then show ?thesis using Some by (simp add: start_timer_def fire_timer_def Let_def)
qed

lemma handleEvent_run:
  assumes "2 * length (fst (lm_getDevices (lightManager s))) < n"
  shows "run (HandleEvent ev # replicate n (Resume 0)) ([], s) = ([], handleEvent ev s)"
proof -
  have "run (HandleEvent ev # replicate n (Resume 0)) ([], s) =
        run (replicate n (Resume 0)) (spawn [] (start_handleEvent ev s))"
    by (simp add: run_def)
  also have "\<dots> = spawn [] (drive n (start_handleEvent ev s))" by (rule run_uninterrupted)
  also have "\<dots> = ([], handleEvent ev s)"
    by (simp add: handleEvent_uninterrupted[OF assms] spawn_def)
  finally show ?thesis .
qed

lemma fire_timer_run:
  "run (Fire k # replicate 3 (Resume 0)) ([], s) = ([], fire_timer k s)"
proof -
  have "run (Fire k # replicate 3 (Resume 0)) ([], s) =
        run (replicate 3 (Resume 0)) (spawn [] (start_timer k s))"
    by (simp add: run_def)
  also have "\<dots> = spawn [] (drive 3 (start_timer k s))" by (rule run_uninterrupted)
  also have "\<dots> = ([], fire_timer k s)"
    by (simp add: fire_timer_uninterrupted spawn_def)
  finally show ?thesis .
qed

subsection \<open>Two events handled at once, evaluated\<close>

lemma lamp_getDevices_first:
  "lm_getDevices (lamp_manager accepts v) = ([mapToDevice (lamp_info v)], lamp_cached accepts v [GetDevices])"
  by (simp add: lamp_getDevices lamp_cached_def)

lemma lamp_getDevices_cached:
  "lm_getDevices (lamp_cached accepts v log) =
     ([mapToDevice (lamp_info v)], lamp_cached accepts v (log @ [GetDevices]))"
  by (simp add: lamp_cached_def lamp_http_def lm_getDevices_def call_getDevices_def
      govee_light_adapter_def getDevices_def http_call_def updateDeviceCache_def
      mapToDevice_def lamp_info_def)

lemma lamp_command_cached:
  "accepts (Color (0, 255, 0)) \<Longrightarrow>
   lm_executeCommand (effect_light_command player_join_effect ''X'') (lamp_cached accepts v log) =
     (Inr (), lamp_ready accepts (v\<lparr>prop_color := Some (0, 255, 0)\<rparr>)
        (log @ [GetDevices, PutControl ''X'' ''H6001'' (Color (0, 255, 0)), GetState ''X'' ''H6001'']))"
  by (simp add: lamp_cached_def lamp_ready_def lamp_http_def manager_defs govee_defs effect_light_command_def
      player_join_effect_def lamp_info_def Let_def
      hexToRgb_def parseInt16_def strip_0x_def hex_digit_def is_space_def)

lemma lamp_command_ready:
  "accepts (Color (0, 255, 0)) \<Longrightarrow>
   lm_executeCommand (effect_light_command player_join_effect ''X'') (lamp_ready accepts v log) =
     (Inr (), lamp_ready accepts (v\<lparr>prop_color := Some (0, 255, 0)\<rparr>)
        (log @ [PutControl ''X'' ''H6001'' (Color (0, 255, 0)), GetState ''X'' ''H6001'']))"
  by (simp add: lamp_ready_def lamp_http_def manager_defs govee_defs effect_light_command_def
      player_join_effect_def lamp_info_def Let_def
      hexToRgb_def parseInt16_def strip_0x_def hex_digit_def is_space_def)

lemma lamp_setColor_white:
  "accepts (Color (255, 255, 255)) \<Longrightarrow>
   lm_setColor ''X'' ''#ffffff'' (lamp_ready accepts v log) =
     (Inr (), lamp_ready accepts (v\<lparr>prop_color := Some (255, 255, 255)\<rparr>)
        (log @ [PutControl ''X'' ''H6001'' (Color (255, 255, 255)), GetState ''X'' ''H6001'']))"
  by (simp add: lamp_ready_def lamp_http_def manager_defs govee_defs
      lamp_info_def Let_def color_defs)

lemma lamp_dispatcher_record:
  "lamp_dispatcher accepts v =
     \<lparr>lightManager = lamp_manager accepts v, effects = effects (lamp_dispatcher accepts v),
      deviceStates = Map.empty, activeEffects = Map.empty, timers = [], next_timer = 0,
      issued = [], error_log = []\<rparr>"
  by (rule gamedin_adapter.equality) (simp_all add: lamp_dispatcher_fields)

lemma join_selected:
  "select_effect [player_join_effect] (plain_event ''player:join'') = Some player_join_effect"
  by (simp add: select_effect_def effect_matches_def player_join_effect_def)

lemma join_event_type: "ev_type (plain_event ''player:join'') = ''player:join''"
  by (simp add: plain_event_def)

lemma overlapping_joins_run:
  "run overlapping_joins ([], lamp_dispatcher (\<lambda>c. True) white_lamp) =
     ([],
      \<lparr>lightManager = lamp_ready (\<lambda>c. True) (white_lamp\<lparr>prop_color := Some (0, 255, 0)\<rparr>)
         [GetDevices, GetDevices, GetDevices,
          PutControl ''X'' ''H6001'' (Color (0, 255, 0)), GetState ''X'' ''H6001'',
          PutControl ''X'' ''H6001'' (Color (0, 255, 0)), GetState ''X'' ''H6001''],
       effects = effects (lamp_dispatcher (\<lambda>c. True) white_lamp),
       deviceStates = [''X'' \<mapsto> \<lparr>ss_color = Some ''#ffffff'', ss_brightness = Some 80\<rparr>],
       activeEffects = [''X'' \<mapsto> 1],
       timers = [\<lparr>t_id = 0, t_deviceId = ''X'', t_effect = player_join_effect, t_delay = 2000\<rparr>,
                 \<lparr>t_id = 1, t_deviceId = ''X'', t_effect = player_join_effect, t_delay = 2000\<rparr>],
       next_timer = 2,
       issued = [effect_light_command player_join_effect ''X'', effect_light_command player_join_effect ''X''],
       error_log = []\<rparr>)"
proof -
  let ?ev = "plain_event ''player:join''"
  let ?D = "mapToDevice (lamp_info white_lamp)"
  let ?E = "effects (lamp_dispatcher (\<lambda>c. True) white_lamp)"
  let ?green = "white_lamp\<lparr>prop_color := Some (0, 255, 0)\<rparr>"
  let ?snap = "[''X'' \<mapsto> \<lparr>ss_color = Some ''#ffffff'', ss_brightness = Some 80\<rparr>]"
  let ?join = "effect_light_command player_join_effect ''X''"
  let ?t0 = "\<lparr>t_id = 0, t_deviceId = ''X'', t_effect = player_join_effect, t_delay = 2000\<rparr>"
  let ?t1 = "\<lparr>t_id = 1, t_deviceId = ''X'', t_effect = player_join_effect, t_delay = 2000\<rparr>"
  let ?log3 = "[GetDevices, GetDevices, GetDevices,
          PutControl ''X'' ''H6001'' (Color (0, 255, 0)), GetState ''X'' ''H6001'']"
  let ?log4 = "[GetDevices, GetDevices, GetDevices,
          PutControl ''X'' ''H6001'' (Color (0, 255, 0)), GetState ''X'' ''H6001'',
          PutControl ''X'' ''H6001'' (Color (0, 255, 0)), GetState ''X'' ''H6001'']"
  let ?c1 = "([AwaitDevices ?ev [?D]],
      \<lparr>lightManager = lamp_cached (\<lambda>c. True) white_lamp [GetDevices], effects = ?E,
       deviceStates = Map.empty, activeEffects = Map.empty, timers = [], next_timer = 0,
       issued = [], error_log = []\<rparr>)"
  let ?c2 = "([AwaitDevices ?ev [?D], AwaitDevices ?ev [?D]],
      \<lparr>lightManager = lamp_cached (\<lambda>c. True) white_lamp [GetDevices, GetDevices], effects = ?E,
       deviceStates = Map.empty, activeEffects = Map.empty, timers = [], next_timer = 0,
       issued = [], error_log = []\<rparr>)"
  let ?c3 = "([AwaitCommand ?ev [] ?D player_join_effect (Inr ()), AwaitDevices ?ev [?D]],
      \<lparr>lightManager = lamp_ready (\<lambda>c. True) ?green ?log3, effects = ?E,
       deviceStates = ?snap, activeEffects = Map.empty, timers = [], next_timer = 0,
       issued = [?join], error_log = []\<rparr>)"
  let ?c4 = "([AwaitCommand ?ev [] ?D player_join_effect (Inr ()),
       AwaitCommand ?ev [] ?D player_join_effect (Inr ())],
      \<lparr>lightManager = lamp_ready (\<lambda>c. True) ?green ?log4, effects = ?E,
       deviceStates = ?snap, activeEffects = Map.empty, timers = [], next_timer = 0,
       issued = [?join, ?join], error_log = []\<rparr>)"
  let ?c5 = "([AwaitApplied ?ev [], AwaitCommand ?ev [] ?D player_join_effect (Inr ())],
      \<lparr>lightManager = lamp_ready (\<lambda>c. True) ?green ?log4, effects = ?E,
       deviceStates = ?snap, activeEffects = [''X'' \<mapsto> 0], timers = [?t0], next_timer = 1,
       issued = [?join, ?join], error_log = []\<rparr>)"
  let ?c6 = "([AwaitApplied ?ev [], AwaitApplied ?ev []],
      \<lparr>lightManager = lamp_ready (\<lambda>c. True) ?green ?log4, effects = ?E,
       deviceStates = ?snap, activeEffects = [''X'' \<mapsto> 1], timers = [?t0, ?t1], next_timer = 2,
       issued = [?join, ?join], error_log = []\<rparr>)"
  let ?c7 = "([AwaitApplied ?ev []], snd ?c6)"
  let ?c8 = "([] :: dispatch_task list, snd ?c6)"
  have E: "?E ''player:join'' = Some [player_join_effect]" by (rule lamp_dispatcher_effects)
  have d: "dev_id ?D = ''X''" by (simp add: mapToDevice_fields lamp_info_fields)
  have snapD: "dev_color ?D = Some ''#ffffff''" "dev_brightness ?D = Some 80"
    by (simp_all add: mapToDevice_fields lamp_info_fields white_lamp_fields white_hex)
  have green: "(white_lamp\<lparr>prop_color := Some (0, 255, 0)\<rparr>)\<lparr>prop_color := Some (0, 255, 0)\<rparr> = ?green"
    by simp
  have s1: "act (HandleEvent ?ev) ([], lamp_dispatcher (\<lambda>c. True) white_lamp) = ?c1"
    by (subst lamp_dispatcher_record)
       (simp add: start_handleEvent_def spawn_def effects_for_def join_event_type E lamp_getDevices_first)
  have s2: "act (HandleEvent ?ev) ?c1 = ?c2"
    by (simp add: start_handleEvent_def spawn_def effects_for_def join_event_type E lamp_getDevices_cached)
  have s3: "act (Resume 0) ?c2 = ?c3"
    by (simp add: effects_for_def join_event_type E join_selected begin_apply_def Let_def
        store_state_def player_join_fields clearDeviceEffect_def call_manager_def d snapD
        lamp_command_cached)
  have s4: "act (Resume 1) ?c3 = ?c4"
    by (simp add: effects_for_def join_event_type E join_selected begin_apply_def Let_def
        store_state_def player_join_fields clearDeviceEffect_def call_manager_def d snapD
        lamp_command_ready)
  have s5: "act (Resume 0) ?c4 = ?c5"
    by (simp add: finish_apply_def player_join_fields schedule_restoration_def d)
  have s6: "act (Resume 1) ?c5 = ?c6"
    by (simp add: finish_apply_def player_join_fields schedule_restoration_def d)
  have s7: "act (Resume 0) ?c6 = ?c7" by simp
  have s8: "act (Resume 0) ?c7 = ?c8" by simp
  show ?thesis
    unfolding overlapping_joins_def run_def foldl.simps s1 s2 s3 s4 s5 s6 s7 s8 by simp
qed

lemma overlapping_joins_fired:
  "run [Fire 0, Fire 1] (run overlapping_joins ([], lamp_dispatcher (\<lambda>c. True) white_lamp)) =
     ([AwaitColor ''X'' \<lparr>ss_color = Some ''#ffffff'', ss_brightness = Some 80\<rparr> (Inr ()),
       AwaitColor ''X'' \<lparr>ss_color = Some ''#ffffff'', ss_brightness = Some 80\<rparr> (Inr ())],
      \<lparr>lightManager = lamp_ready (\<lambda>c. True) white_lamp
         [GetDevices, GetDevices, GetDevices,
          PutControl ''X'' ''H6001'' (Color (0, 255, 0)), GetState ''X'' ''H6001'',
          PutControl ''X'' ''H6001'' (Color (0, 255, 0)), GetState ''X'' ''H6001'',
          PutControl ''X'' ''H6001'' (Color (255, 255, 255)), GetState ''X'' ''H6001'',
          PutControl ''X'' ''H6001'' (Color (255, 255, 255)), GetState ''X'' ''H6001''],
       effects = effects (lamp_dispatcher (\<lambda>c. True) white_lamp),
       deviceStates = [''X'' \<mapsto> \<lparr>ss_color = Some ''#ffffff'', ss_brightness = Some 80\<rparr>],
       activeEffects = [''X'' \<mapsto> 1],
       timers = [],
       next_timer = 2,
       issued = [effect_light_command player_join_effect ''X'', effect_light_command player_join_effect ''X'',
                 setColor_command ''X'' ''#ffffff'', setColor_command ''X'' ''#ffffff''],
       error_log = []\<rparr>)"
proof -
  have w: "white_lamp\<lparr>prop_color := Some (0, 255, 0), prop_color := Some (255, 255, 255)\<rparr> = white_lamp"
    "white_lamp\<lparr>prop_color := Some (255, 255, 255)\<rparr> = white_lamp"
    by (simp_all add: white_lamp_def)
  show ?thesis
    unfolding overlapping_joins_run
    by (simp add: run_def start_timer_def start_restore_def spawn_def Let_def player_join_fields
        call_manager_def lamp_setColor_white w)
qed

section \<open>Claims on the dispatcher\<close>

text \<open>
  C3 (amended). At every state the dispatcher reaches while no two \<open>handleEvent\<close> calls
  are in flight at the same time (timers may fire, their callbacks may be suspended, and
  every other method may be called at any \<open>await\<close>), a device has at most one
  snapshot, the snapshots being a map from device id, and at most one pending
  restoration timer, which is the one registered for it in \<open>activeEffects\<close>; no two
  pending timers share a handle and no handle is used again. Applying a new effect to a
  device first cancels the timer the device had, before the command is awaited: nothing
  is restored on the way (the one command handed to the Light Manager is the effect's
  own), and a snapshot is taken only when the effect restores and the device had none (a
  snapshot that exists is kept); when the apply then runs on without interruption, the
  only timer the device can have is the new one, just created for this effect. A timer
  that fires is no longer pending, and the same handle firing again does nothing: one
  apply is followed by at most one restoration.
\<close>

theorem one_timer_per_device_without_overlap:
  assumes "one_at_a_time acts ([], new_GameDinAdapter lm config)"
  shows
  "(let s = snd (run acts ([], new_GameDinAdapter lm config))
    in distinct (map t_deviceId (timers s)) \<and>
       (\<forall>t \<in> set (timers s). activeEffects s (t_deviceId t) = Some (t_id t)) \<and>
       distinct (map t_id (timers s)) \<and>
       (\<forall>t \<in> set (timers s). t_id t < next_timer s) \<and>
       (\<forall>dev e.
          (\<forall>t \<in> set (timers (snd (begin_apply dev e s))). t_deviceId t \<noteq> dev_id dev) \<and>
          issued (snd (begin_apply dev e s)) = issued s @ [effect_light_command e (dev_id dev)] \<and>
          deviceStates (snd (begin_apply dev e s)) (dev_id dev) =
            (case deviceStates s (dev_id dev) of
               Some st \<Rightarrow> Some st
             | None \<Rightarrow>
                 if restorePreviousState e = Some True
                 then Some \<lparr>ss_color = dev_color dev, ss_brightness = dev_brightness dev\<rparr> else None) \<and>
          (\<forall>t \<in> set (timers (apply_effect dev e s)).
             t_deviceId t = dev_id dev \<longrightarrow> t_id t = next_timer s \<and> t_effect t = e)) \<and>
       (\<forall>k. (\<forall>t \<in> set (timers (snd (start_timer k s))). t_id t \<noteq> k) \<and>
            start_timer k (snd (start_timer k s)) = (None, snd (start_timer k s))))"
proof -
  let ?s = "snd (run acts ([], new_GameDinAdapter lm config))"
  have "orderly (run acts ([], new_GameDinAdapter lm config))"
    using orderly_new assms by (rule orderly_run)
  then have one: "one_timer_each ?s" and fresh: "fresh_handles ?s" by (simp_all add: orderly_def)
  have gone: "\<forall>t \<in> set (timers (snd (begin_apply dev e ?s))). t_deviceId t \<noteq> dev_id dev" for dev e
    using one by (rule one_timer_each_begin(2))
  have new: "\<forall>t \<in> set (timers (apply_effect dev e ?s)).
             t_deviceId t = dev_id dev \<longrightarrow> t_id t = next_timer ?s \<and> t_effect t = e" for dev e
    using finish_apply_new_timer[OF gone[of dev e], of e "fst (begin_apply dev e ?s)"]
    by (simp add: apply_effect_split[of dev e ?s] timers_begin_apply)
  have snap: "deviceStates (snd (begin_apply dev e ?s)) (dev_id dev) =
            (case deviceStates ?s (dev_id dev) of
               Some st \<Rightarrow> Some st
             | None \<Rightarrow>
                 if restorePreviousState e = Some True
                 then Some \<lparr>ss_color = dev_color dev, ss_brightness = dev_brightness dev\<rparr> else None)" for dev e
    by (simp add: begin_apply_deviceStates store_state_snapshot split: option.splits)
  show ?thesis
    unfolding Let_def
    using one fresh gone new snap
    by (simp add: one_timer_each_def fresh_handles_def begin_apply_issued start_timer_gone start_timer_again)
qed

theorem one_timer_per_device_without_overlap_witness:
  "one_at_a_time [HandleEvent (plain_event ''player:join''), Resume 0, Resume 0, Resume 0]
     ([], new_GameDinAdapter (lamp_manager (\<lambda>c. True) white_lamp) default_config) \<and>
   run [HandleEvent (plain_event ''player:join''), Resume 0, Resume 0, Resume 0]
     ([], new_GameDinAdapter (lamp_manager (\<lambda>c. True) white_lamp) default_config) =
     ([], handleEvent (plain_event ''player:join'') (lamp_dispatcher (\<lambda>c. True) white_lamp)) \<and>
   map t_deviceId (timers (handleEvent (plain_event ''player:join'') (lamp_dispatcher (\<lambda>c. True) white_lamp))) = [''X''] \<and>
   activeEffects (handleEvent (plain_event ''player:join'') (lamp_dispatcher (\<lambda>c. True) white_lamp)) ''X'' = Some 0 \<and>
   timers (snd (begin_apply (mapToDevice (lamp_info (white_lamp\<lparr>prop_color := Some (0, 255, 0)\<rparr>))) match_victory_effect
       (handleEvent (plain_event ''player:join'') (lamp_dispatcher (\<lambda>c. True) white_lamp)))) = [] \<and>
   issued (snd (begin_apply (mapToDevice (lamp_info (white_lamp\<lparr>prop_color := Some (0, 255, 0)\<rparr>))) match_victory_effect
       (handleEvent (plain_event ''player:join'') (lamp_dispatcher (\<lambda>c. True) white_lamp)))) =
     [effect_light_command player_join_effect ''X'', effect_light_command match_victory_effect ''X''] \<and>
   deviceStates (snd (begin_apply (mapToDevice (lamp_info (white_lamp\<lparr>prop_color := Some (0, 255, 0)\<rparr>))) match_victory_effect
       (handleEvent (plain_event ''player:join'') (lamp_dispatcher (\<lambda>c. True) white_lamp)))) ''X'' =
     Some \<lparr>ss_color = Some ''#ffffff'', ss_brightness = Some 80\<rparr> \<and>
   start_timer 0 (snd (start_timer 0 (handleEvent (plain_event ''player:join'') (lamp_dispatcher (\<lambda>c. True) white_lamp)))) =
     (None, snd (start_timer 0 (handleEvent (plain_event ''player:join'') (lamp_dispatcher (\<lambda>c. True) white_lamp))))"
proof -
  let ?ev = "plain_event ''player:join''"
  let ?acts = "[HandleEvent ?ev, Resume 0, Resume 0, Resume 0] :: properties govee_adapter dispatch_action list"
  let ?A = "lamp_dispatcher (\<lambda>c. True) white_lamp"
  let ?S1 = "handleEvent ?ev ?A"
  let ?D = "mapToDevice (lamp_info (white_lamp\<lparr>prop_color := Some (0, 255, 0)\<rparr>))"
  have new: "new_GameDinAdapter (lamp_manager (\<lambda>c. True) white_lamp) default_config = ?A"
    by (simp add: lamp_dispatcher_def)
  have hyp: "one_at_a_time ?acts ([], new_GameDinAdapter (lamp_manager (\<lambda>c. True) white_lamp) default_config)"
    by simp
  have three: "[Resume 0, Resume 0, Resume 0] = replicate 3 (Resume 0 :: properties govee_adapter dispatch_action)"
    by (simp add: numeral_3_eq_3)
  have len: "2 * length (fst (lm_getDevices (lightManager ?A))) < 3"
    by (simp add: lamp_dispatcher_fields lamp_getDevices)
  have runeq: "run ?acts ([], ?A) = ([], ?S1)"
    unfolding three using len by (rule handleEvent_run)
  have tm: "timers ?S1 = [\<lparr>t_id = 0, t_deviceId = ''X'', t_effect = player_join_effect, t_delay = 2000\<rparr>]"
    and act: "activeEffects ?S1 ''X'' = Some 0"
    and snap: "deviceStates ?S1 ''X'' = Some \<lparr>ss_color = Some ''#ffffff'', ss_brightness = Some 80\<rparr>"
    and iss: "issued ?S1 = [effect_light_command player_join_effect ''X'']"
    by (simp_all add: lamp_join_accepted white_lamp_fields white_hex)
  have d: "dev_id ?D = ''X''" by (simp add: mapToDevice_fields lamp_info_fields)
  have cleared: "timers (snd (begin_apply ?D match_victory_effect ?S1)) = []"
    by (simp add: timers_begin_apply d clearDeviceEffect_def act tm)
  note t = one_timer_per_device_without_overlap[OF hyp, unfolded Let_def new runeq snd_conv]
  have c1: "issued (snd (begin_apply ?D match_victory_effect ?S1)) =
      issued ?S1 @ [effect_light_command match_victory_effect (dev_id ?D)]" using t by blast
  have c2: "deviceStates (snd (begin_apply ?D match_victory_effect ?S1)) (dev_id ?D) =
      (case deviceStates ?S1 (dev_id ?D) of
         Some st \<Rightarrow> Some st
       | None \<Rightarrow>
           if restorePreviousState match_victory_effect = Some True
           then Some \<lparr>ss_color = dev_color ?D, ss_brightness = dev_brightness ?D\<rparr> else None)"
    using t by blast
  have c3: "start_timer 0 (snd (start_timer 0 ?S1)) = (None, snd (start_timer 0 ?S1))" using t by blast
  show ?thesis
    using hyp runeq c1 c2 c3 cleared
    by (simp add: new tm act snap iss d)
qed

text \<open>The claim as stated: two \<open>player:join\<close> events handled at once. Both calls pass
  \<open>clearDeviceEffect\<close> before either sets up its timer, so in the end two restoration
  timers are pending for the lamp, only the second registered in \<open>activeEffects\<close>; when
  both fire, the lamp is restored twice.\<close>

theorem overlapping_events_leave_two_timers_counterexample:
  "\<not> one_at_a_time overlapping_joins ([], lamp_dispatcher (\<lambda>c. True) white_lamp) \<and>
   fst (run overlapping_joins ([], lamp_dispatcher (\<lambda>c. True) white_lamp)) = [] \<and>
   timers (snd (run overlapping_joins ([], lamp_dispatcher (\<lambda>c. True) white_lamp))) =
     [\<lparr>t_id = 0, t_deviceId = ''X'', t_effect = player_join_effect, t_delay = 2000\<rparr>,
      \<lparr>t_id = 1, t_deviceId = ''X'', t_effect = player_join_effect, t_delay = 2000\<rparr>] \<and>
   \<not> distinct (map t_deviceId (timers (snd (run overlapping_joins ([], lamp_dispatcher (\<lambda>c. True) white_lamp))))) \<and>
   issued (snd (run [Fire 0, Fire 1] (run overlapping_joins ([], lamp_dispatcher (\<lambda>c. True) white_lamp)))) =
     [effect_light_command player_join_effect ''X'', effect_light_command player_join_effect ''X'',
      setColor_command ''X'' ''#ffffff'', setColor_command ''X'' ''#ffffff'']"
proof -
  have eff: "effects_for (lamp_dispatcher (\<lambda>c. True) white_lamp) (ev_type (plain_event ''player:join'')) \<noteq> []"
    by (simp add: effects_for_def join_event_type lamp_dispatcher_effects)
  have a: "\<not> one_at_a_time overlapping_joins ([], lamp_dispatcher (\<lambda>c. True) white_lamp)"
    using eff by (simp add: overlapping_joins_def start_handleEvent_def spawn_def split_beta)
  have b: "issued (snd (run [Fire 0, Fire 1] (run overlapping_joins ([], lamp_dispatcher (\<lambda>c. True) white_lamp)))) =
     [effect_light_command player_join_effect ''X'', effect_light_command player_join_effect ''X'',
      setColor_command ''X'' ''#ffffff'', setColor_command ''X'' ''#ffffff'']"
    by (subst overlapping_joins_fired) simp
  show ?thesis
    using a b by (simp add: overlapping_joins_run)
qed


text \<open>
  C4 (amended). When the restoration timer of a device fires and its effect has
  \<open>restorePreviousState = true\<close>, the snapshot is deleted exactly when every reissued
  command succeeded. When a reissued command fails, the failure is logged once, the
  snapshot is kept, and nothing is retried: the device has no pending timer and no
  registered handle afterwards, and no new timer has been created. The snapshots of
  other devices are untouched either way.
\<close>

theorem restoration_failure_is_logged_not_retried:
  assumes "reachable s" and "t \<in> set (timers s)" and "restorePreviousState (t_effect t) = Some True"
    and "deviceStates s (t_deviceId t) = Some st"
  shows
  "deviceStates (fire_timer (t_id t) s) (t_deviceId t) =
     (case restore_outcome (t_deviceId t) st (lightManager s) of Inr u \<Rightarrow> None | Inl e \<Rightarrow> Some st) \<and>
   error_log (fire_timer (t_id t) s) =
     (case restore_outcome (t_deviceId t) st (lightManager s) of
        Inr u \<Rightarrow> error_log s | Inl e \<Rightarrow> error_log s @ [RestoreFailed (t_deviceId t) e]) \<and>
   (\<forall>u \<in> set (timers (fire_timer (t_id t) s)). t_deviceId u \<noteq> t_deviceId t) \<and>
   activeEffects (fire_timer (t_id t) s) (t_deviceId t) = None \<and>
   next_timer (fire_timer (t_id t) s) = next_timer s \<and>
   (\<forall>d'. d' \<noteq> t_deviceId t \<longrightarrow> deviceStates (fire_timer (t_id t) s) d' = deviceStates s d')"
proof -
  have ok: "timers_ok s" using assms(1) by (rule reachable_timers_ok)
  show ?thesis
    using fire_restoring[OF ok assms(2,3,4)] fire_timer_device_free[OF ok assms(2)]
    by simp
qed


theorem restoration_failure_is_logged_not_retried_witness:
  "reachable (handleEvent (plain_event ''player:join'') (lamp_dispatcher refuses_white white_lamp)) \<and>
   timers (handleEvent (plain_event ''player:join'') (lamp_dispatcher refuses_white white_lamp)) =
     [\<lparr>t_id = 0, t_deviceId = ''X'', t_effect = player_join_effect, t_delay = 2000\<rparr>] \<and>
   restorePreviousState player_join_effect = Some True \<and>
   deviceStates (handleEvent (plain_event ''player:join'') (lamp_dispatcher refuses_white white_lamp)) ''X'' =
     Some \<lparr>ss_color = Some ''#ffffff'', ss_brightness = Some 80\<rparr> \<and>
   restore_outcome ''X'' \<lparr>ss_color = Some ''#ffffff'', ss_brightness = Some 80\<rparr>
     (lightManager (handleEvent (plain_event ''player:join'') (lamp_dispatcher refuses_white white_lamp))) =
     Inl (NoAdapterError ''X'') \<and>
   deviceStates (fire_timer 0 (handleEvent (plain_event ''player:join'') (lamp_dispatcher refuses_white white_lamp))) ''X'' =
     Some \<lparr>ss_color = Some ''#ffffff'', ss_brightness = Some 80\<rparr> \<and>
   error_log (fire_timer 0 (handleEvent (plain_event ''player:join'') (lamp_dispatcher refuses_white white_lamp))) =
     [RestoreFailed ''X'' (NoAdapterError ''X'')] \<and>
   activeEffects (fire_timer 0 (handleEvent (plain_event ''player:join'') (lamp_dispatcher refuses_white white_lamp))) ''X'' = None \<and>
   next_timer (fire_timer 0 (handleEvent (plain_event ''player:join'') (lamp_dispatcher refuses_white white_lamp))) = 1"
proof -
  let ?S1 = "handleEvent (plain_event ''player:join'') (lamp_dispatcher refuses_white white_lamp)"
  let ?t = "\<lparr>t_id = 0, t_deviceId = ''X'', t_effect = player_join_effect, t_delay = 2000\<rparr>"
  let ?st = "\<lparr>ss_color = Some ''#ffffff'', ss_brightness = Some 80\<rparr>"
  have acc: "refuses_white (Color (0, 255, 0))" by (simp add: refuses_white_def)
  have r: "reachable ?S1" by (rule reachable_lamp_joined)
  have tm: "timers ?S1 = [?t]" by (simp add: lamp_join_accepted[where accepts=refuses_white, OF acc])
  have tin: "?t \<in> set (timers ?S1)" by (simp add: tm)
  have snap: "deviceStates ?S1 ''X'' = Some ?st"
    by (simp add: lamp_join_accepted[where accepts=refuses_white, OF acc] white_lamp_fields white_hex)
  have lg: "error_log ?S1 = []" "next_timer ?S1 = 1"
    by (simp_all add: lamp_join_accepted[where accepts=refuses_white, OF acc] lamp_dispatcher_fields)
  have out: "restore_outcome ''X'' ?st (lightManager ?S1) = Inl (NoAdapterError ''X'')"
    by (simp add: lamp_join_accepted[where accepts=refuses_white, OF acc] restore_outcome_def)
      (simp add: lamp_defs manager_defs govee_defs Let_def
        hexToRgb_def parseInt16_def strip_0x_def hex_digit_def is_space_def)
  note t = restoration_failure_is_logged_not_retried[OF r tin, of ?st]
  show ?thesis using t r tm snap out lg by (simp add: player_join_fields)
qed

text \<open>The claim as stated: the vendor refuses to set the lamp back to white, and the
  snapshot is still there after the timer has fired.\<close>

theorem restoration_failure_keeps_snapshot_counterexample:
  "timers (handleEvent (plain_event ''player:join'') (lamp_dispatcher refuses_white white_lamp)) =
     [\<lparr>t_id = 0, t_deviceId = ''X'', t_effect = player_join_effect, t_delay = 2000\<rparr>] \<and>
   restorePreviousState player_join_effect = Some True \<and>
   deviceStates (fire_timer 0 (handleEvent (plain_event ''player:join'') (lamp_dispatcher refuses_white white_lamp))) ''X'' =
     Some \<lparr>ss_color = Some ''#ffffff'', ss_brightness = Some 80\<rparr> \<and>
   deviceStates (fire_timer 0 (handleEvent (plain_event ''player:join'') (lamp_dispatcher refuses_white white_lamp))) ''X''
     \<noteq> None \<and>
   error_log (fire_timer 0 (handleEvent (plain_event ''player:join'') (lamp_dispatcher refuses_white white_lamp))) =
     [RestoreFailed ''X'' (NoAdapterError ''X'')]"
proof -
  have acc: "refuses_white (Color (0, 255, 0))" by (simp add: refuses_white_def)
  show ?thesis
    by (simp add: lamp_restore_refused player_join_fields) (simp add: lamp_join_accepted[where accepts=refuses_white, OF acc])
qed

text \<open>
  C5 (amended). During \<open>handleEvent\<close> a failure of the effect's command for one device
  is caught and logged, and never aborts the processing of the remaining devices: the
  effect's command is handed to the Light Manager for every device, in order, whatever
  happens to the others. For the device whose command failed no restoration timer is
  scheduled: its previous timer stays cancelled, no new timer is created, and the
  snapshot taken for it is kept. A timer is scheduled (when the duration is positive)
  only after the command has succeeded.
\<close>

theorem command_failure_spares_siblings:
  "(select_effect (effects_for s (ev_type event)) event = Some e \<longrightarrow>
      issued (handleEvent event s) =
        issued s @ map (\<lambda>dev. effect_light_command e (dev_id dev)) (fst (lm_getDevices (lightManager s)))) \<and>
   (fst (lm_executeCommand (effect_light_command e (dev_id dev)) (lightManager s)) = Inl err \<longrightarrow>
      error_log (apply_effect dev e s) = error_log s @ [ApplyFailed (dev_id dev) err] \<and>
      timers (apply_effect dev e s) = timers (clearDeviceEffect (dev_id dev) s) \<and>
      activeEffects (apply_effect dev e s) (dev_id dev) = None \<and>
      next_timer (apply_effect dev e s) = next_timer s \<and>
      deviceStates (apply_effect dev e s) = deviceStates (store_state dev e s)) \<and>
   (fst (lm_executeCommand (effect_light_command e (dev_id dev)) (lightManager s)) = Inr () \<and>
    duration e = Some k \<and> 0 < k \<longrightarrow>
      error_log (apply_effect dev e s) = error_log s \<and>
      timers (apply_effect dev e s) =
        timers (clearDeviceEffect (dev_id dev) s) @
        [\<lparr>t_id = next_timer s, t_deviceId = dev_id dev, t_effect = e, t_delay = k\<rparr>])"
proof (intro conjI impI)
  assume "select_effect (effects_for s (ev_type event)) event = Some e"
  then show "issued (handleEvent event s) =
        issued s @ map (\<lambda>dev. effect_light_command e (dev_id dev)) (fst (lm_getDevices (lightManager s)))"
    by (rule handleEvent_issued)
next
  assume f: "fst (lm_executeCommand (effect_light_command e (dev_id dev)) (lightManager s)) = Inl err"
  show "error_log (apply_effect dev e s) = error_log s @ [ApplyFailed (dev_id dev) err]"
    and "timers (apply_effect dev e s) = timers (clearDeviceEffect (dev_id dev) s)"
    and "activeEffects (apply_effect dev e s) (dev_id dev) = None"
    and "next_timer (apply_effect dev e s) = next_timer s"
    and "deviceStates (apply_effect dev e s) = deviceStates (store_state dev e s)"
    using apply_effect_failed[OF f] by (simp_all add: apply_effect_deviceStates)
next
  assume a: "fst (lm_executeCommand (effect_light_command e (dev_id dev)) (lightManager s)) = Inr () \<and>
    duration e = Some k \<and> 0 < k"
  then have ok: "fst (lm_executeCommand (effect_light_command e (dev_id dev)) (lightManager s)) = Inr ()"
    by simp
  show "error_log (apply_effect dev e s) = error_log s"
    and "timers (apply_effect dev e s) =
        timers (clearDeviceEffect (dev_id dev) s) @
        [\<lparr>t_id = next_timer s, t_deviceId = dev_id dev, t_effect = e, t_delay = k\<rparr>]"
    using apply_effect_succeeded[OF ok] a by simp_all
qed

theorem command_failure_spares_siblings_witness:
  "select_effect (effects_for (new_GameDinAdapter (twin_manager white_lamp) default_config)
      (ev_type (plain_event ''player:join''))) (plain_event ''player:join'') = Some player_join_effect \<and>
   map dev_id (fst (lm_getDevices (twin_manager white_lamp))) = [''X'', ''Y''] \<and>
   issued (handleEvent (plain_event ''player:join'') (new_GameDinAdapter (twin_manager white_lamp) default_config)) =
     [effect_light_command player_join_effect ''X'', effect_light_command player_join_effect ''Y''] \<and>
   error_log (handleEvent (plain_event ''player:join'') (new_GameDinAdapter (twin_manager white_lamp) default_config)) =
     [ApplyFailed ''X'' (NoAdapterError ''X'')] \<and>
   map t_deviceId (timers (handleEvent (plain_event ''player:join'')
      (new_GameDinAdapter (twin_manager white_lamp) default_config))) = [''Y''] \<and>
   fst (lm_executeCommand (effect_light_command player_join_effect ''X'')
      (snd (lm_getDevices (twin_manager white_lamp)))) = Inl (NoAdapterError ''X'') \<and>
   timers (apply_effect (mapToDevice (lamp_info white_lamp)) player_join_effect
      ((new_GameDinAdapter (twin_manager white_lamp) default_config)
         \<lparr>lightManager := snd (lm_getDevices (twin_manager white_lamp))\<rparr>)) = [] \<and>
   error_log (apply_effect (mapToDevice (lamp_info white_lamp)) player_join_effect
      ((new_GameDinAdapter (twin_manager white_lamp) default_config)
         \<lparr>lightManager := snd (lm_getDevices (twin_manager white_lamp))\<rparr>)) =
     [ApplyFailed ''X'' (NoAdapterError ''X'')] \<and>
   timers (apply_effect (mapToDevice ((lamp_info white_lamp)\<lparr>di_device := ''Y''\<rparr>)) player_join_effect
      ((new_GameDinAdapter (twin_manager white_lamp) default_config)
         \<lparr>lightManager := twin_ready [''X'' \<mapsto> mapToDevice (lamp_info white_lamp),
                  ''Y'' \<mapsto> mapToDevice ((lamp_info white_lamp)\<lparr>di_device := ''Y''\<rparr>)]
            [GetDevices, GetDevices, PutControl ''X'' ''H6001'' (Color (0, 255, 0))]\<rparr>)) =
     [\<lparr>t_id = 0, t_deviceId = ''Y'', t_effect = player_join_effect, t_delay = 2000\<rparr>]"
proof -
  let ?S = "new_GameDinAdapter (twin_manager white_lamp) default_config"
  let ?ev = "plain_event ''player:join''"
  let ?dX = "mapToDevice (lamp_info white_lamp)"
  let ?dY = "mapToDevice ((lamp_info white_lamp)\<lparr>di_device := ''Y''\<rparr>)"
  let ?M2 = "twin_ready [''X'' \<mapsto> ?dX, ''Y'' \<mapsto> ?dY]
            [GetDevices, GetDevices, PutControl ''X'' ''H6001'' (Color (0, 255, 0))]"
  have sel: "select_effect (effects_for ?S (ev_type ?ev)) ?ev = Some player_join_effect"
    by (simp add: registry_defs plain_event_def select_effect_def effect_matches_def)
  have fields: "lightManager ?S = twin_manager white_lamp" "issued ?S = []" "error_log ?S = []"
    "timers ?S = []" "next_timer ?S = 0" "activeEffects ?S = Map.empty"
    by (simp_all add: registry_defs)
  have ids: "dev_id ?dX = ''X''" "dev_id ?dY = ''Y''"
    by (simp_all add: mapToDevice_fields lamp_info_fields)
  have devs: "map dev_id (fst (lm_getDevices (twin_manager white_lamp))) = [''X'', ''Y'']"
    by (simp add: twin_getDevices ids)
  have failX: "fst (lm_executeCommand (effect_light_command player_join_effect ''X'')
      (snd (lm_getDevices (twin_manager white_lamp)))) = Inl (NoAdapterError ''X'')"
    by (simp add: twin_getDevices twin_command_X)
  have okY: "fst (lm_executeCommand (effect_light_command player_join_effect ''Y'') ?M2) = Inr ()"
    by (simp add: twin_command_Y)
  note t1 = command_failure_spares_siblings[of ?S ?ev player_join_effect]
  note t2 = command_failure_spares_siblings[of "?S\<lparr>lightManager := snd (lm_getDevices (twin_manager white_lamp))\<rparr>"
      ?ev player_join_effect ?dX "NoAdapterError ''X''"]
  note t3 = command_failure_spares_siblings[of "?S\<lparr>lightManager := ?M2\<rparr>"
      ?ev player_join_effect ?dY _ 2000]
  have c1: "issued (handleEvent ?ev ?S) =
     [effect_light_command player_join_effect ''X'', effect_light_command player_join_effect ''Y'']"
    using t1 sel by (simp add: fields twin_getDevices ids)
  have c2: "timers (apply_effect ?dX player_join_effect
      (?S\<lparr>lightManager := snd (lm_getDevices (twin_manager white_lamp))\<rparr>)) = []"
    and c3: "error_log (apply_effect ?dX player_join_effect
      (?S\<lparr>lightManager := snd (lm_getDevices (twin_manager white_lamp))\<rparr>)) =
     [ApplyFailed ''X'' (NoAdapterError ''X'')]"
    using t2 failX by (simp_all add: ids fields clearDeviceEffect_def)
  have c4: "timers (apply_effect ?dY player_join_effect (?S\<lparr>lightManager := ?M2\<rparr>)) =
     [\<lparr>t_id = 0, t_deviceId = ''Y'', t_effect = player_join_effect, t_delay = 2000\<rparr>]"
    using t3 okY by (simp add: ids fields clearDeviceEffect_def player_join_fields)
  have c5: "error_log (handleEvent ?ev ?S) = [ApplyFailed ''X'' (NoAdapterError ''X'')]"
    and c6: "map t_deviceId (timers (handleEvent ?ev ?S)) = [''Y'']"
    by (simp_all add: twin_join)
  show ?thesis using sel devs c1 c5 c6 failX c2 c3 c4 by simp
qed

text \<open>The claim as stated: the vendor rejects the command of a timed, restoring effect;
  the failure is logged, and no restoration timer is scheduled for the lamp.\<close>

theorem failed_command_schedules_no_timer_counterexample:
  "duration player_join_effect = Some 2000 \<and>
   restorePreviousState player_join_effect = Some True \<and>
   error_log (handleEvent (plain_event ''player:join'') (lamp_dispatcher (\<lambda>c. False) white_lamp)) =
     [ApplyFailed ''X'' (NoAdapterError ''X'')] \<and>
   timers (handleEvent (plain_event ''player:join'') (lamp_dispatcher (\<lambda>c. False) white_lamp)) = [] \<and>
   activeEffects (handleEvent (plain_event ''player:join'') (lamp_dispatcher (\<lambda>c. False) white_lamp)) ''X'' = None \<and>
   deviceStates (handleEvent (plain_event ''player:join'') (lamp_dispatcher (\<lambda>c. False) white_lamp)) ''X'' =
     Some \<lparr>ss_color = Some ''#ffffff'', ss_brightness = Some 80\<rparr>"
  by (simp add: lamp_join_rejected player_join_fields lamp_dispatcher_fields white_lamp_fields white_hex)





end
